theory Spec2Isabelle
  imports Main "HOL-Library.AList" "HOL-Library.Multiset" "HOL-Library.Signed_Division"
begin

section \<open>Project policy helpers (pkg/apis/application/v1alpha1/app_project_types.go)\<close>

subsection \<open>Go strings and slices\<close>

text \<open>
  Go strings are byte sequences, here \<open>string\<close>. A Go slice may be \<open>nil\<close>, which the
  code distinguishes from an empty slice in \<open>IsGroupKindPermitted\<close>; such a slice is a
  \<open>'a list option\<close> with \<open>None\<close> for \<open>nil\<close>.
\<close>

type_synonym 'a slice = "'a list option"

definition len :: "'a slice \<Rightarrow> nat" where
  "len s = (case s of None \<Rightarrow> 0 | Some xs \<Rightarrow> length xs)"

definition elems :: "'a slice \<Rightarrow> 'a list" where
  "elems s = (case s of None \<Rightarrow> [] | Some xs \<Rightarrow> xs)"

definition HasPrefix :: "string \<Rightarrow> string \<Rightarrow> bool" where
  "HasPrefix s pre = (take (length pre) s = pre)"

definition TrimPrefix :: "string \<Rightarrow> string \<Rightarrow> string" where
  "TrimPrefix s pre = (if HasPrefix s pre then drop (length pre) s else s)"

subsection \<open>Data model\<close>

record GroupKind =
  Group :: string
  Kind :: string

record JWTToken =
  IssuedAt :: int
  ExpiresAt :: int
  ID :: string

record ProjectRole =
  Name :: string
  Policies :: "string list"
  JWTTokens :: "JWTToken list"
  Groups :: "string list"

record AppProjectSpec =
  SourceRepos :: "string list"
  Roles :: "ProjectRole list"
  ClusterResourceWhitelist :: "GroupKind slice"
  NamespaceResourceBlacklist :: "GroupKind slice"
  ClusterResourceBlacklist :: "GroupKind slice"
  NamespaceResourceWhitelist :: "GroupKind slice"

record AppProjectStatus =
  JWTTokensByRole :: "(string \<rightharpoonup> JWTToken list) option"

record AppProject =
  Spec :: AppProjectSpec
  Status :: AppProjectStatus

text \<open>
  Isabelle record fields share one namespace, so the fields \<open>Name\<close> and \<open>Path\<close> of
  \<open>HelmFileParameter\<close> carry the name of their struct.
\<close>

record HelmFileParameter =
  HelmFileParameter_Name :: string
  HelmFileParameter_Path :: string

record ApplicationSourceHelm =
  ValueFiles :: "string list"
  FileParameters :: "HelmFileParameter list"

record ApplicationSource =
  RepoURL :: string
  Path :: string
  TargetRevision :: string
  Helm :: "ApplicationSourceHelm option"
  Chart :: string
  Ref :: string

subsection \<open>IsGroupKindPermitted\<close>

text \<open>
  \<open>isResourceInList\<close> lives in another file of the package; it is the parameter
  \<open>inList\<close>. It is only called on a slice of non-zero length.
\<close>

definition IsGroupKindPermitted ::
  "(GroupKind \<Rightarrow> GroupKind list \<Rightarrow> bool) \<Rightarrow> AppProject \<Rightarrow> GroupKind \<Rightarrow> bool \<Rightarrow> bool" where
  "IsGroupKindPermitted inList proj gk namespaced =
    (let res = \<lparr>Group = Group gk, Kind = Kind gk\<rparr> in
     if namespaced then
       (let namespaceWhitelist = NamespaceResourceWhitelist (Spec proj);
            namespaceBlacklist = NamespaceResourceBlacklist (Spec proj);
            isWhiteListed = (namespaceWhitelist = None \<or>
               (len namespaceWhitelist \<noteq> 0 \<and> inList res (elems namespaceWhitelist)));
            isBlackListed = (len namespaceBlacklist \<noteq> 0 \<and> inList res (elems namespaceBlacklist))
        in isWhiteListed \<and> \<not> isBlackListed)
     else
       (let clusterWhitelist = ClusterResourceWhitelist (Spec proj);
            clusterBlacklist = ClusterResourceBlacklist (Spec proj);
            isWhiteListed = (len clusterWhitelist \<noteq> 0 \<and> inList res (elems clusterWhitelist));
            isBlackListed = (len clusterBlacklist \<noteq> 0 \<and> inList res (elems clusterBlacklist))
        in isWhiteListed \<and> \<not> isBlackListed))"

subsection \<open>globMatch and IsSourcePermitted\<close>

definition isDenyPattern :: "string \<Rightarrow> bool" where
  "isDenyPattern pattern = HasPrefix pattern ''!''"

text \<open>
  \<open>glob.Match\<close> (util/glob) and \<open>git.NormalizeGitURL\<close> (util/git) are outside the
  sources; they are the parameters \<open>Match\<close> (pattern, value, separators) and \<open>Norm\<close>.
\<close>

type_synonym matcher = "string \<Rightarrow> string \<Rightarrow> char list \<Rightarrow> bool"

definition globMatch :: "matcher \<Rightarrow> string \<Rightarrow> string \<Rightarrow> bool \<Rightarrow> char list \<Rightarrow> bool" where
  "globMatch Match pattern val allowNegation separators =
    (if allowNegation \<and> isDenyPattern pattern then \<not> Match (drop 1 pattern) val separators
     else if pattern = ''*'' then True
     else Match pattern val separators)"

text \<open>The loop over \<open>proj.Spec.SourceRepos\<close>, with \<open>anySourceMatched\<close> as accumulator.\<close>

fun sourceReposLoop :: "matcher \<Rightarrow> (string \<Rightarrow> string) \<Rightarrow> string \<Rightarrow> string list \<Rightarrow> bool \<Rightarrow> bool" where
  "sourceReposLoop Match Norm srcNormalized [] anySourceMatched = anySourceMatched"
| "sourceReposLoop Match Norm srcNormalized (repoURL # rest) anySourceMatched =
    (let normalized = (if isDenyPattern repoURL then ''!'' @ Norm (TrimPrefix repoURL ''!'')
                       else Norm repoURL);
         matched = globMatch Match normalized srcNormalized True ''/''
     in if matched then sourceReposLoop Match Norm srcNormalized rest True
        else if \<not> matched \<and> isDenyPattern normalized then False
        else sourceReposLoop Match Norm srcNormalized rest anySourceMatched)"

definition IsSourcePermitted ::
  "matcher \<Rightarrow> (string \<Rightarrow> string) \<Rightarrow> AppProject \<Rightarrow> ApplicationSource \<Rightarrow> bool" where
  "IsSourcePermitted Match Norm proj src =
    (let srcNormalized = Norm (RepoURL src)
     in sourceReposLoop Match Norm srcNormalized (SourceRepos (Spec proj)) False)"

subsection \<open>NormalizeJWTTokens\<close>

text \<open>
  \<open>strconv.FormatInt(i, 10)\<close>: the decimal rendering of an integer. \<open>IssuedAt\<close> is an
  \<open>int64\<close> that the code only compares and prints, so it is an \<open>int\<close> here.
\<close>

definition digitChar :: "nat \<Rightarrow> char" where
  "digitChar d = ''0123456789'' ! d"

fun digits10 :: "nat \<Rightarrow> string" where
  "digits10 n = (if n < 10 then [digitChar n] else digits10 (n div 10) @ [digitChar (n mod 10)])"
declare digits10.simps [simp del]

definition FormatInt :: "int \<Rightarrow> string" where
  "FormatInt i = (if i < 0 then CHR ''-'' # digits10 (nat (- i)) else digits10 (nat i))"

text \<open>The body of both normalization loops: a token without ID gets its issue time as ID.\<close>

definition fixTokenID :: "JWTToken \<Rightarrow> JWTToken" where
  "fixTokenID token = (if ID token = [] then token\<lparr>ID := FormatInt (IssuedAt token)\<rparr> else token)"

text \<open>
  \<open>jwtTokensCombine\<close> fills a Go map keyed by token ID from \<open>append(tokens1, tokens2...)\<close>
  (a later token replaces an earlier one with the same ID), ranges over the map and sorts
  the values with \<open>sort.Slice\<close> by descending \<open>IssuedAt\<close>. The Go map is an association
  list with distinct keys. Go leaves the iteration order of a map unspecified and
  \<open>sort.Slice\<close> is not stable, so both are parameters: \<open>rangeOrder\<close> reorders the entries
  of the map, \<open>sortSlice\<close> sorts the slice. What the Go runtime guarantees about them is
  stated in \<open>rangeOrder_ok\<close> and \<open>sortSlice_ok\<close> below.
\<close>

type_synonym tokenMap = "(string \<times> JWTToken) list"

definition jwtTokensCombine ::
  "(tokenMap \<Rightarrow> tokenMap) \<Rightarrow> (JWTToken list \<Rightarrow> JWTToken list) \<Rightarrow>
   JWTToken list \<Rightarrow> JWTToken list \<Rightarrow> JWTToken list" where
  "jwtTokensCombine rangeOrder sortSlice tokens1 tokens2 =
    (let tokensMap = foldl (\<lambda>m token. AList.update (ID token) token m) [] (tokens1 @ tokens2);
         tokens = map snd (rangeOrder tokensMap)
     in sortSlice tokens)"

text \<open>
  \<open>proj.Status.JWTTokensByRole[name].Items\<close>: a missing key (or a nil map) reads as the
  zero value, whose \<open>Items\<close> is empty. \<open>JWTTokens\<close>, a struct with the single field
  \<open>Items\<close>, is modelled by the token list itself.
\<close>

definition lookupItems :: "(string \<rightharpoonup> JWTToken list) \<Rightarrow> string \<Rightarrow> JWTToken list" where
  "lookupItems m name = (case m name of None \<Rightarrow> [] | Some items \<Rightarrow> items)"

text \<open>
  The loop of \<open>syncJWTTokenBetweenStatusAndSpec\<close> over \<open>proj.Spec.Roles\<close>, threading the
  status map and \<open>existingRole\<close>; \<open>rangeOrder\<close> is indexed by \<open>roleIndex\<close>, since each call
  of \<open>jwtTokensCombine\<close> may see another iteration order. A nil status map is replaced by
  an empty one in the first iteration. The two in-place \<open>sort.Slice\<close> calls on the old
  slices and the comparison with \<open>cmp.Equal\<close> only compute the Boolean result
  \<open>needSync\<close>; both slices are overwritten by \<open>tokens\<close> right after. The model gives the
  project after the call and leaves the Boolean result out. Slices are values: the
  slices of different roles are assumed not to share a backing array.
\<close>

fun syncRoles ::
  "(nat \<Rightarrow> tokenMap \<Rightarrow> tokenMap) \<Rightarrow> (JWTToken list \<Rightarrow> JWTToken list) \<Rightarrow> nat \<Rightarrow> ProjectRole list \<Rightarrow>
   (string \<rightharpoonup> JWTToken list) option \<Rightarrow> string set \<Rightarrow>
   ProjectRole list \<times> (string \<rightharpoonup> JWTToken list) option \<times> string set" where
  "syncRoles rangeOrder sortSlice roleIndex [] byRole existingRole = ([], byRole, existingRole)"
| "syncRoles rangeOrder sortSlice roleIndex (role # rest) byRole existingRole =
    (let existingRole' = insert (Name role) existingRole;
         tokensInSpec = JWTTokens role;
         (tokensInStatus, m) =
            (case byRole of None \<Rightarrow> ([], Map.empty)
                          | Some m \<Rightarrow> (lookupItems m (Name role), m));
         tokens = jwtTokensCombine (rangeOrder roleIndex) sortSlice tokensInStatus tokensInSpec;
         role' = role\<lparr>JWTTokens := tokens\<rparr>;
         m' = m(Name role \<mapsto> tokens);
         (rest', byRole', existingRole'') =
            syncRoles rangeOrder sortSlice (Suc roleIndex) rest (Some m') existingRole'
     in (role' # rest', byRole', existingRole''))"

definition syncJWTTokenBetweenStatusAndSpec ::
  "(nat \<Rightarrow> tokenMap \<Rightarrow> tokenMap) \<Rightarrow> (JWTToken list \<Rightarrow> JWTToken list) \<Rightarrow> AppProject \<Rightarrow> AppProject" where
  "syncJWTTokenBetweenStatusAndSpec rangeOrder sortSlice proj =
    (let (roles', byRole, existingRole) =
            syncRoles rangeOrder sortSlice 0 (Roles (Spec proj)) (JWTTokensByRole (Status proj)) {};
         byRole' = (case byRole of None \<Rightarrow> None
                                 | Some m \<Rightarrow> Some (m |` existingRole))
     in proj\<lparr>Spec := (Spec proj)\<lparr>Roles := roles'\<rparr>,
              Status := (Status proj)\<lparr>JWTTokensByRole := byRole'\<rparr>\<rparr>)"

text \<open>
  \<open>NormalizeJWTTokens\<close>: the two loops that fill in empty token IDs (in every role of the
  spec, and in every entry of the status map), then the synchronisation.
\<close>

definition NormalizeJWTTokens ::
  "(nat \<Rightarrow> tokenMap \<Rightarrow> tokenMap) \<Rightarrow> (JWTToken list \<Rightarrow> JWTToken list) \<Rightarrow> AppProject \<Rightarrow> AppProject" where
  "NormalizeJWTTokens rangeOrder sortSlice proj =
    (let roles1 = map (\<lambda>role. role\<lparr>JWTTokens := map fixTokenID (JWTTokens role)\<rparr>) (Roles (Spec proj));
         byRole1 = map_option (\<lambda>m name. map_option (map fixTokenID) (m name)) (JWTTokensByRole (Status proj));
         proj1 = proj\<lparr>Spec := (Spec proj)\<lparr>Roles := roles1\<rparr>,
                      Status := (Status proj)\<lparr>JWTTokensByRole := byRole1\<rparr>\<rparr>
     in syncJWTTokenBetweenStatusAndSpec rangeOrder sortSlice proj1)"

text \<open>
  What Go guarantees: ranging over a map visits every entry exactly once, and after
  \<open>sort.Slice\<close> with \<open>less(i, j) = (tokens[i].IssuedAt > tokens[j].IssuedAt)\<close> the slice is a
  permutation of the input in which \<open>IssuedAt\<close> never increases.
\<close>

definition rangeOrder_ok :: "(nat \<Rightarrow> tokenMap \<Rightarrow> tokenMap) \<Rightarrow> bool" where
  "rangeOrder_ok rangeOrder = (\<forall>i m. mset (rangeOrder i m) = mset m)"

definition issuedAtDesc :: "JWTToken list \<Rightarrow> bool" where
  "issuedAtDesc ts = sorted_wrt (\<lambda>a b. IssuedAt a \<ge> IssuedAt b) ts"

definition sortSlice_ok :: "(JWTToken list \<Rightarrow> JWTToken list) \<Rightarrow> bool" where
  "sortSlice_ok sortSlice = (\<forall>ts. mset (sortSlice ts) = mset ts \<and> issuedAtDesc (sortSlice ts))"

text \<open>
  The union of two token lists deduplicated by ID, as a set: the tokens that are the last
  one with their ID in the concatenation.
\<close>

definition lastByID :: "JWTToken list \<Rightarrow> JWTToken set" where
  "lastByID ts = {t. map_of (rev (map (\<lambda>t. (ID t, t)) ts)) (ID t) = Some t}"

text \<open>Reading the status map of a project, nil or not.\<close>

definition entry :: "(string \<rightharpoonup> JWTToken list) option \<Rightarrow> string \<Rightarrow> JWTToken list option" where
  "entry byRole name = (case byRole of None \<Rightarrow> None | Some m \<Rightarrow> m name)"

definition itemsOf :: "(string \<rightharpoonup> JWTToken list) option \<Rightarrow> string \<Rightarrow> JWTToken list" where
  "itemsOf byRole name = (case entry byRole name of None \<Rightarrow> [] | Some ts \<Rightarrow> ts)"

subsection \<open>Sample data\<close>

text \<open>
  One admissible iteration order and one admissible sort, and sample matchers and
  projects, for evaluating the definitions on concrete inputs.
\<close>

definition rangeInOrder :: "nat \<Rightarrow> tokenMap \<Rightarrow> tokenMap" where
  "rangeInOrder i m = (if even i then m else rev m)"

definition sortDesc :: "JWTToken list \<Rightarrow> JWTToken list" where
  "sortDesc ts = rev (sort_key IssuedAt ts)"

definition literalMatch :: matcher where
  "literalMatch pattern val separators = (pattern = val)"

definition exactInList :: "GroupKind \<Rightarrow> GroupKind list \<Rightarrow> bool" where
  "exactInList res list = (res \<in> set list)"

definition gitSource :: "string \<Rightarrow> ApplicationSource" where
  "gitSource url = \<lparr>RepoURL = url, Path = ''.'', TargetRevision = ''HEAD'', Helm = None,
                     Chart = [], Ref = []\<rparr>"

definition projSources :: "string list \<Rightarrow> AppProject" where
  "projSources repos = \<lparr>Spec = \<lparr>SourceRepos = repos, Roles = [],
       ClusterResourceWhitelist = None, NamespaceResourceBlacklist = None,
       ClusterResourceBlacklist = None, NamespaceResourceWhitelist = None\<rparr>,
     Status = \<lparr>JWTTokensByRole = None\<rparr>\<rparr>"

definition projWhitelist :: "GroupKind slice \<Rightarrow> AppProject" where
  "projWhitelist wl = \<lparr>Spec = \<lparr>SourceRepos = [], Roles = [],
       ClusterResourceWhitelist = None,
       NamespaceResourceBlacklist = Some [\<lparr>Group = [], Kind = ''Secret''\<rparr>],
       ClusterResourceBlacklist = None, NamespaceResourceWhitelist = wl\<rparr>,
     Status = \<lparr>JWTTokensByRole = None\<rparr>\<rparr>"

definition projDup :: AppProject where
  "projDup = \<lparr>Spec = \<lparr>SourceRepos = [], Roles =
       [\<lparr>Name = ''a'', Policies = [], JWTTokens = [\<lparr>IssuedAt = 1, ExpiresAt = 0, ID = ''x''\<rparr>], Groups = []\<rparr>,
        \<lparr>Name = ''a'', Policies = [], JWTTokens = [\<lparr>IssuedAt = 2, ExpiresAt = 0, ID = ''y''\<rparr>], Groups = []\<rparr>],
       ClusterResourceWhitelist = None, NamespaceResourceBlacklist = None,
       ClusterResourceBlacklist = None, NamespaceResourceWhitelist = None\<rparr>,
     Status = \<lparr>JWTTokensByRole = None\<rparr>\<rparr>"

definition projTwoRoles :: AppProject where
  "projTwoRoles = \<lparr>Spec = \<lparr>SourceRepos = [], Roles =
       [\<lparr>Name = ''dev'', Policies = [], JWTTokens =
           [\<lparr>IssuedAt = 5, ExpiresAt = 0, ID = ''''\<rparr>, \<lparr>IssuedAt = 9, ExpiresAt = 0, ID = ''k''\<rparr>], Groups = []\<rparr>,
        \<lparr>Name = ''ops'', Policies = [], JWTTokens = [], Groups = []\<rparr>],
       ClusterResourceWhitelist = None, NamespaceResourceBlacklist = None,
       ClusterResourceBlacklist = None, NamespaceResourceWhitelist = None\<rparr>,
     Status = \<lparr>JWTTokensByRole = Some [''dev'' \<mapsto> [\<lparr>IssuedAt = 7, ExpiresAt = 0, ID = ''7''\<rparr>],
                                         ''gone'' \<mapsto> [\<lparr>IssuedAt = 3, ExpiresAt = 0, ID = ''3''\<rparr>]]\<rparr>\<rparr>"


section \<open>Manifest generation (reposerver/repository/repository.go)\<close>

text \<open>
  \<open>GenerateManifest\<close> answers one request: it resolves the revision, probes the manifest
  cache, acquires the source (a locked git working tree, or an extracted chart or OCI
  image), starts \<open>runManifestGenAsync\<close> in a goroutine and receives its first message.
  The model passes the state explicitly. Everything outside repository.go is a parameter:
  the git, Helm and OCI clients, the repository lock, the renderer and the parallelism
  semaphore are fields of the record \<open>Collaborators\<close>, the clock is the argument \<open>now\<close>
  (\<open>s.now().Unix()\<close>, in seconds) and the cache key is the function \<open>keyOf\<close> of the
  \<open>cacheKey\<close> argument and the resolved revisions of the referenced sources; the other
  components of the key are fields of the request, which is fixed during a call. Go's \<open>int\<close>
  and \<open>int64\<close> counters are \<open>int\<close>: no counter of a cache entry comes near the bounds.
  Logging and metrics are left out.
\<close>

subsection \<open>Requests, responses and the manifest cache\<close>

record ManifestResponse =
  Manifests :: "string list"
  Revision :: string
  SourceType :: string
  VerifyResult :: string

record CachedManifestResponse =
  ManifestResponse :: "ManifestResponse option"
  MostRecentError :: string
  FirstFailureTimestamp :: int
  NumberOfConsecutiveFailures :: int
  NumberOfCachedResponsesReturned :: int

record RepoServerInitConstants =
  PauseGenerationAfterFailedGenerationAttempts :: int
  PauseGenerationOnFailureForMinutes :: int
  PauseGenerationOnFailureForRequests :: int
  AllowOutOfBoundsSymlinks :: bool

text \<open>
  Modelled from the spec: the store behind \<open>s.cache\<close> (reposerver/cache, with \<open>GetManifests\<close>,
  \<open>SetManifests\<close>, \<open>DeleteManifests\<close> and \<open>ErrCacheMiss\<close>) is not among the sources. The spec
  gives the operations getManifests, setManifests and deleteManifests on entries that are
  a successful render or a failure record sharing one key, where writing one overwrites
  the other. The store is a map from keys to entries; every operation fails on a store
  that cannot be reached, the only error of the callers that is not a miss.
\<close>

datatype cacheError = ErrCacheMiss | ErrCacheStore

record 'k Cache =
  entries :: "'k \<rightharpoonup> CachedManifestResponse"
  reachable :: bool

definition GetManifests :: "'k Cache \<Rightarrow> 'k \<Rightarrow> cacheError + CachedManifestResponse" where
  "GetManifests cache k =
    (if \<not> reachable cache then Inl ErrCacheStore
     else case entries cache k of None \<Rightarrow> Inl ErrCacheMiss | Some res \<Rightarrow> Inr res)"

definition SetManifests :: "'k Cache \<Rightarrow> 'k \<Rightarrow> CachedManifestResponse \<Rightarrow> cacheError option \<times> 'k Cache" where
  "SetManifests cache k res =
    (if \<not> reachable cache then (Some ErrCacheStore, cache)
     else (None, cache\<lparr>entries := (entries cache)(k \<mapsto> res)\<rparr>))"

definition DeleteManifests :: "'k Cache \<Rightarrow> 'k \<Rightarrow> cacheError option \<times> 'k Cache" where
  "DeleteManifests cache k =
    (if \<not> reachable cache then (Some ErrCacheStore, cache)
     else (None, cache\<lparr>entries := (entries cache)(k := None)\<rparr>))"

definition cachedManifestGenerationPrefix :: string where
  "cachedManifestGenerationPrefix = ''Manifest generation error (cached)''"

text \<open>
  The errors that the functions below build with \<open>fmt.Errorf\<close> and \<open>errors.New\<close>, by their
  format string, and the errors they pass on from a collaborator (\<open>ErrorString\<close>) or from
  the cache (\<open>CacheStoreFailure\<close>).
\<close>

datatype error =
    UnresolvedReferenceNoRefs string
  | UnresolvedReference string
  | ReferenceNotAllowed
  | InconsistentReferenceRevisions string string string string
  | InconsistentPrimaryReference string string string string string
  | FailedGitClient string
  | OutOfBoundsSymlink string string
  | CacheStoreFailure cacheError
  | ErrorString string

text \<open>
  \<open>getManifestCacheEntry\<close> returns \<open>(ok, response, error)\<close> and the cache it leaves. The
  elapsed minutes are an integer division of \<open>int64\<close> values, which truncates towards zero
  (\<open>sdiv\<close>). An error of \<open>DeleteManifests\<close> or \<open>SetManifests\<close> is only logged.
\<close>

definition getManifestCacheEntry ::
  "RepoServerInitConstants \<Rightarrow> int \<Rightarrow> 'k Cache \<Rightarrow> 'k \<Rightarrow> bool \<Rightarrow>
   (bool \<times> ManifestResponse option \<times> error option) \<times> 'k Cache" where
  "getManifestCacheEntry initConstants now cache k firstInvocation =
    (case GetManifests cache k of
       Inr res \<Rightarrow>
         if PauseGenerationAfterFailedGenerationAttempts initConstants > 0 \<and> FirstFailureTimestamp res > 0 then
           if NumberOfConsecutiveFailures res \<ge> PauseGenerationAfterFailedGenerationAttempts initConstants then
             if PauseGenerationOnFailureForMinutes initConstants > 0 \<and>
                (now - FirstFailureTimestamp res) sdiv 60 \<ge> PauseGenerationOnFailureForMinutes initConstants
             then ((False, None, None), snd (DeleteManifests cache k))
             else if PauseGenerationOnFailureForRequests initConstants > 0 \<and>
                     NumberOfCachedResponsesReturned res > 0 \<and>
                     NumberOfCachedResponsesReturned res \<ge> PauseGenerationOnFailureForRequests initConstants
             then ((False, None, None), snd (DeleteManifests cache k))
             else
               (let cachedErrorResponse =
                      ErrorString (cachedManifestGenerationPrefix @ '': '' @ MostRecentError res)
                in if firstInvocation
                   then ((True, None, Some cachedErrorResponse),
                         snd (SetManifests cache k
                           (res\<lparr>NumberOfCachedResponsesReturned := NumberOfCachedResponsesReturned res + 1\<rparr>)))
                   else ((True, None, Some cachedErrorResponse), cache))
           else ((False, ManifestResponse res, None), cache)
         else ((True, ManifestResponse res, None), cache)
     | Inl err \<Rightarrow> ((False, None, None), cache))"


subsection \<open>External collaborators\<close>

text \<open>
  Of a \<open>Repository\<close>, a \<open>RefTarget\<close> and a \<open>ManifestRequest\<close> the fields that the functions
  below read. \<open>RefSources\<close> is a Go map; it is only looked up by key and tested for
  emptiness, so it is a list of pairs read with \<open>map_of\<close>.
\<close>

record Repository =
  Repo :: string
  EnableOCI :: bool

record RefTarget =
  RefTarget_Repo :: Repository
  RefTarget_TargetRevision :: string
  RefTarget_Chart :: string

record ManifestRequest =
  Request_Repo :: Repository
  Request_Revision :: string
  NoCache :: bool
  NoRevisionCache :: bool
  VerifySignature :: bool
  HasMultipleSources :: bool
  Request_ApplicationSource :: ApplicationSource
  RefSources :: "(string \<times> RefTarget) list"

text \<open>
  The collaborators. A Go function returning \<open>(value, error)\<close> is a function into a sum with
  the error message on the left; one returning only an error returns an option. A git
  client is represented by its root directory, which \<open>newClientResolveRevision\<close> returns
  with the commit SHA. \<open>GenerateManifests\<close> (the render dispatcher, line 1549) is
  represented by its outcome: whether the plugin stream signalled on the \<open>tarDone\<close> channel
  during the call, and the response or error it returned.
\<close>

datatype symlinkCheck = SymlinksOk | OutOfBoundsSymlinkError string | SymlinkCheckFailed string

record RenderOutcome =
  tarDoneSent :: bool
  renderResult :: "string + ManifestResponse"

record 'v HelmCollaborators =
  IsHelmOciRepo :: "string \<Rightarrow> bool"
  IsVersion :: "string \<Rightarrow> bool"
  GetTags :: "string \<Rightarrow> bool \<Rightarrow> string + string list"
  GetIndexEntriesTags :: "string \<Rightarrow> bool \<Rightarrow> string + string list"
  constraintCheck :: "string \<Rightarrow> string \<Rightarrow> bool"
  versionOf :: "string \<Rightarrow> 'v"
  noVersionError :: "string \<Rightarrow> string list \<Rightarrow> string"

record 'v Collaborators =
  NormalizeGitURL :: "string \<Rightarrow> string"
  newClientResolveRevision :: "Repository \<Rightarrow> string \<Rightarrow> string + (string \<times> string)"
  newOCIClientResolveRevision :: "Repository \<Rightarrow> string \<Rightarrow> bool \<Rightarrow> string + string"
  helm :: "'v HelmCollaborators"
  IsOCI :: "ApplicationSource \<Rightarrow> bool"
  IsHelm :: "ApplicationSource \<Rightarrow> bool"
  IsRef :: "ApplicationSource \<Rightarrow> bool"
  AllowsConcurrentProcessing :: "ApplicationSource \<Rightarrow> bool"
  semAcquire :: "string option"
  CleanCache :: "string \<Rightarrow> string option"
  CleanChartCache :: "string \<Rightarrow> string \<Rightarrow> string option"
  Extract :: "string \<Rightarrow> string + string"
  ExtractChart :: "string \<Rightarrow> string \<Rightarrow> string + string"
  CheckOutOfBoundsSymlinks :: "string \<Rightarrow> symlinkCheck"
  appPath_Path :: "string \<Rightarrow> string \<Rightarrow> string + string"
  repoLock_Lock :: "string \<Rightarrow> string \<Rightarrow> bool \<Rightarrow> string option"
  CommitSHA :: "string \<Rightarrow> string + string"
  IsAnnotatedTag :: "string \<Rightarrow> bool"
  VerifyCommitSignature :: "string \<Rightarrow> string + string"
  GenerateManifests :: "string \<Rightarrow> string \<Rightarrow> string \<Rightarrow> RenderOutcome"

subsection \<open>Chart revisions\<close>

text \<open>
  Modelled from the spec: \<open>versions.IsVersion\<close> and \<open>versions.MaxVersion\<close> (util/versions) are
  not among the sources. By the spec a fully-qualified semver is accepted verbatim,
  otherwise the resolver selects the maximum version satisfying the input constraint
  string and fails if none match. \<open>IsVersion\<close>, the satisfaction of a constraint by a tag
  (\<open>constraintCheck\<close>), the semantic version of a tag (\<open>versionOf\<close>, in a linear order)
  and the message of the failure (\<open>noVersionError\<close>) are parameters; \<open>MaxVersion\<close> keeps
  the first of several tags of maximal version.
\<close>

definition MaxVersion :: "('v::linorder) HelmCollaborators \<Rightarrow> string \<Rightarrow> string list \<Rightarrow> string + string" where
  "MaxVersion H constraint tags =
    (case filter (constraintCheck H constraint) tags of
       [] \<Rightarrow> Inl (noVersionError H constraint tags)
     | v # vs \<Rightarrow> Inr (foldl (\<lambda>maxVersion t. if versionOf H t > versionOf H maxVersion then t else maxVersion) v vs))"

text \<open>
  The tag enumeration of \<open>newHelmClientResolveRevision\<close> (line 2645): the tag list of an
  OCI registry or the entries of the index file of a classic chart repository.
\<close>

definition availableTags ::
  "'v HelmCollaborators \<Rightarrow> Repository \<Rightarrow> string \<Rightarrow> bool \<Rightarrow> string + string list" where
  "availableTags H repo chart noRevisionCache =
    (let enableOCI = (EnableOCI repo \<or> IsHelmOciRepo H (Repo repo)) in
     if enableOCI
     then (case GetTags H chart noRevisionCache of
             Inl err \<Rightarrow> Inl (''unable to get tags: '' @ err)
           | Inr tags \<Rightarrow> Inr tags)
     else GetIndexEntriesTags H chart noRevisionCache)"

definition newHelmClientResolveRevision ::
  "('v::linorder) HelmCollaborators \<Rightarrow> Repository \<Rightarrow> string \<Rightarrow> string \<Rightarrow> bool \<Rightarrow> string + string" where
  "newHelmClientResolveRevision H repo revision chart noRevisionCache =
    (if IsVersion H revision then Inr revision
     else
       (case availableTags H repo chart noRevisionCache of
          Inl err \<Rightarrow> Inl err
        | Inr tags \<Rightarrow>
            (case MaxVersion H revision tags of
               Inl err \<Rightarrow> Inl (''invalid revision: '' @ err)
             | Inr maxV \<Rightarrow> Inr maxV)))"

subsection \<open>Events and channel messages\<close>

text \<open>
  What a call does, in order: the orchestrating goroutine appends to \<open>trace\<close>, the goroutine
  of \<open>runManifestGenAsync\<close> to \<open>asyncEvents\<close>. \<open>Lock\<close> and \<open>Unlock\<close> are a successful
  \<open>repoLock.Lock\<close> and the deferred close of its closer, \<open>ExtractDir\<close> and \<open>CloseDir\<close> the
  extraction of a chart or image and the deferred close of its directory, \<open>Render\<close> the call
  of \<open>GenerateManifests\<close>, \<open>ReceiveErr\<close>, \<open>ReceiveResponse\<close> and \<open>ReceiveTarDone\<close> a
  receive from a channel of the promise, and \<open>AwaitResponse\<close> the start of the second
  \<open>select\<close> of \<open>GenerateManifest\<close>. The channels are unbuffered; the messages that the
  goroutine sends are the list \<open>sent\<close>, in the order of the sends.
\<close>

datatype event =
    Resolve string string
  | Lock string string
  | Unlock string
  | ExtractDir string
  | CloseDir string
  | SemAcquire
  | SemRelease
  | StartManifestGen
  | Render
  | ReceiveErr
  | ReceiveResponse
  | ReceiveTarDone
  | AwaitResponse

datatype message = ErrMsg error | ResponseMsg ManifestResponse | TarDoneMsg bool

record repoRef =
  repoRef_revision :: string
  repoRef_commitSHA :: string
  repoRef_key :: string

definition refCandidates :: "ApplicationSourceHelm \<Rightarrow> string list" where
  "refCandidates h = ValueFiles h @ map HelmFileParameter_Path (FileParameters h)"

definition refVarOf :: "string \<Rightarrow> string" where
  "refVarOf valueFile = takeWhile (\<lambda>c. c \<noteq> CHR ''/'') valueFile"

subsection \<open>resolveReferencedSources\<close>

text \<open>
  The map \<open>repoRefs\<close> is built by insertion of absent keys only, so it is a list of pairs
  in insertion order. The list of available references in the message of
  \<open>UnresolvedReference\<close> is left out.
\<close>

fun resolveLoop ::
  "'v Collaborators \<Rightarrow> (string \<times> RefTarget) list \<Rightarrow> string list \<Rightarrow> (string \<times> string) list \<Rightarrow>
   error + (string \<times> string) list" where
  "resolveLoop C refSources [] repoRefs = Inr repoRefs"
| "resolveLoop C refSources (valueFile # rest) repoRefs =
    (if \<not> HasPrefix valueFile ''$'' then resolveLoop C refSources rest repoRefs
     else
       (let refVar = refVarOf valueFile in
        case map_of refSources refVar of
          None \<Rightarrow>
            if refSources = [] then Inl (UnresolvedReferenceNoRefs refVar)
            else Inl (UnresolvedReference refVar)
        | Some refSourceMapping \<Rightarrow>
            if RefTarget_Chart refSourceMapping \<noteq> [] then Inl ReferenceNotAllowed
            else
              (let normalizedRepoURL = NormalizeGitURL C (Repo (RefTarget_Repo refSourceMapping)) in
               case map_of repoRefs normalizedRepoURL of
                 Some _ \<Rightarrow> resolveLoop C refSources rest repoRefs
               | None \<Rightarrow>
                   (case newClientResolveRevision C (RefTarget_Repo refSourceMapping)
                           (RefTarget_TargetRevision refSourceMapping) of
                      Inl err \<Rightarrow> Inl (FailedGitClient (Repo (RefTarget_Repo refSourceMapping)))
                    | Inr (root, referencedCommitSHA) \<Rightarrow>
                        resolveLoop C refSources rest
                          (repoRefs @ [(normalizedRepoURL, referencedCommitSHA)])))))"

definition resolveReferencedSources ::
  "'v Collaborators \<Rightarrow> bool \<Rightarrow> ApplicationSourceHelm option \<Rightarrow> (string \<times> RefTarget) list \<Rightarrow>
   error + (string \<times> string) list" where
  "resolveReferencedSources C hasMultipleSources source refSources =
    (case source of
       None \<Rightarrow> Inr []
     | Some h \<Rightarrow>
         if \<not> hasMultipleSources then Inr []
         else resolveLoop C refSources (refCandidates h) [])"

subsection \<open>runManifestGenAsync\<close>

text \<open>
  The loop of \<open>runManifestGenAsync\<close> over the referenced sources either ends with the
  repositories it locked or with the messages it sent on \<open>errCh\<close> before returning. When
  the request has no \<open>RefSources\<close> at all the code sends two errors in a row, the first
  without returning.
\<close>

definition symlinkGuard ::
  "'v Collaborators \<Rightarrow> RepoServerInitConstants \<Rightarrow> string \<Rightarrow> string \<Rightarrow> error option" where
  "symlinkGuard C initConstants what root =
    (if \<not> AllowOutOfBoundsSymlinks initConstants then
       (case CheckOutOfBoundsSymlinks C root of
          SymlinksOk \<Rightarrow> None
        | OutOfBoundsSymlinkError file \<Rightarrow> Some (OutOfBoundsSymlink what file)
        | SymlinkCheckFailed err \<Rightarrow> Some (ErrorString err))
     else None)"

fun refSourcesLoop ::
  "'v Collaborators \<Rightarrow> RepoServerInitConstants \<Rightarrow> ManifestRequest \<Rightarrow> string \<Rightarrow> string list \<Rightarrow>
   (string \<times> repoRef) list \<Rightarrow> event list \<Rightarrow>
   (message list + (string \<times> repoRef) list) \<times> event list" where
  "refSourcesLoop C initConstants q commit [] repoRefs evs = (Inr repoRefs, evs)"
| "refSourcesLoop C initConstants q commit (valueFile # rest) repoRefs evs =
    (if \<not> HasPrefix valueFile ''$'' then refSourcesLoop C initConstants q commit rest repoRefs evs
     else
       (let refVar = refVarOf valueFile in
        case map_of (RefSources q) refVar of
          None \<Rightarrow>
            (Inl ((if RefSources q = [] then [ErrMsg (UnresolvedReferenceNoRefs refVar)] else []) @
                  [ErrMsg (UnresolvedReference refVar)]), evs)
        | Some refSourceMapping \<Rightarrow>
            if RefTarget_Chart refSourceMapping \<noteq> [] then (Inl [ErrMsg ReferenceNotAllowed], evs)
            else
              (let normalizedRepoURL = NormalizeGitURL C (Repo (RefTarget_Repo refSourceMapping)) in
               case map_of repoRefs normalizedRepoURL of
                 Some closer \<Rightarrow>
                   if repoRef_revision closer \<noteq> RefTarget_TargetRevision refSourceMapping
                   then (Inl [ErrMsg (InconsistentReferenceRevisions refVar
                                (RefTarget_TargetRevision refSourceMapping)
                                (repoRef_key closer) (repoRef_revision closer))], evs)
                   else refSourcesLoop C initConstants q commit rest repoRefs evs
               | None \<Rightarrow>
                   (case newClientResolveRevision C (RefTarget_Repo refSourceMapping)
                           (RefTarget_TargetRevision refSourceMapping) of
                      Inl err \<Rightarrow>
                        (Inl [ErrMsg (FailedGitClient (Repo (RefTarget_Repo refSourceMapping)))],
                         evs @ [Resolve (Repo (RefTarget_Repo refSourceMapping))
                                  (RefTarget_TargetRevision refSourceMapping)])
                    | Inr (root, referencedCommitSHA) \<Rightarrow>
                        (let evs1 = evs @ [Resolve (Repo (RefTarget_Repo refSourceMapping))
                                             (RefTarget_TargetRevision refSourceMapping)] in
                         if NormalizeGitURL C (RepoURL (Request_ApplicationSource q)) = normalizedRepoURL
                            \<and> commit \<noteq> referencedCommitSHA
                         then (Inl [ErrMsg (InconsistentPrimaryReference refVar
                                      (RefTarget_TargetRevision refSourceMapping) referencedCommitSHA
                                      (Request_Revision q) commit)], evs1)
                         else
                           (case repoLock_Lock C root referencedCommitSHA True of
                              Some err \<Rightarrow> (Inl [ErrMsg (ErrorString err)], evs1)
                            | None \<Rightarrow>
                                (let evs2 = evs1 @ [Lock root referencedCommitSHA] in
                                 case symlinkGuard C initConstants ''repository'' root of
                                   Some err \<Rightarrow> (Inl [ErrMsg err], evs2)
                                 | None \<Rightarrow>
                                     refSourcesLoop C initConstants q commit rest
                                       (repoRefs @ [(normalizedRepoURL,
                                          \<lparr>repoRef_revision = RefTarget_TargetRevision refSourceMapping,
                                           repoRef_commitSHA = referencedCommitSHA,
                                           repoRef_key = refVar\<rparr>)])
                                       evs2)))))))"


record operationContext =
  appPath :: string
  verificationResult :: string

record 'k AsyncResult =
  sent :: "message list"
  cacheAfter :: "'k Cache"
  asyncEvents :: "event list"

text \<open>The deferred closers run when the goroutine returns, the last lock first.\<close>

definition unlocks :: "event list \<Rightarrow> event list" where
  "unlocks evs = concat (map (\<lambda>e. case e of Lock root _ \<Rightarrow> [Unlock root] | _ \<Rightarrow> []) (rev evs))"

text \<open>The branch \<open>err != nil\<close> at the end of \<open>runManifestGenAsync\<close>: the failure record.\<close>

definition cacheFailure ::
  "RepoServerInitConstants \<Rightarrow> int \<Rightarrow> 'k Cache \<Rightarrow> 'k \<Rightarrow> string \<Rightarrow> message list \<times> 'k Cache" where
  "cacheFailure initConstants now cache k err =
    (if PauseGenerationAfterFailedGenerationAttempts initConstants > 0 then
       (case (case GetManifests cache k of
                Inl ErrCacheMiss \<Rightarrow>
                  Inr \<lparr>ManifestResponse = None, MostRecentError = [], FirstFailureTimestamp = 0,
                       NumberOfConsecutiveFailures = 0, NumberOfCachedResponsesReturned = 0\<rparr>
              | Inl cacheErr \<Rightarrow> Inl cacheErr
              | Inr res \<Rightarrow> Inr res) of
          Inl cacheErr \<Rightarrow> ([ErrMsg (CacheStoreFailure cacheErr)], cache)
        | Inr innerRes \<Rightarrow>
            (let innerRes1 = (if FirstFailureTimestamp innerRes = 0
                              then innerRes\<lparr>FirstFailureTimestamp := now\<rparr> else innerRes);
                 innerRes2 = innerRes1\<lparr>NumberOfConsecutiveFailures :=
                                            NumberOfConsecutiveFailures innerRes1 + 1,
                                         MostRecentError := err\<rparr>
             in case SetManifests cache k innerRes2 of
                  (Some cacheErr, cache') \<Rightarrow> ([ErrMsg (CacheStoreFailure cacheErr)], cache')
                | (None, cache') \<Rightarrow> ([ErrMsg (ErrorString err)], cache')))
     else ([ErrMsg (ErrorString err)], cache))"

definition lockReferencedSources ::
  "'v Collaborators \<Rightarrow> RepoServerInitConstants \<Rightarrow> ManifestRequest \<Rightarrow> string \<Rightarrow>
   (message list + (string \<times> repoRef) list) \<times> event list" where
  "lockReferencedSources C initConstants q commit =
    (if HasMultipleSources q
     then (case Helm (Request_ApplicationSource q) of
             None \<Rightarrow> (Inr [], [])
           | Some h \<Rightarrow> refSourcesLoop C initConstants q commit (refCandidates h) [] [])
     else (Inr [], []))"

definition runManifestGenAsync ::
  "'v Collaborators \<Rightarrow> RepoServerInitConstants \<Rightarrow> int \<Rightarrow> 'k Cache \<Rightarrow>
   (string \<Rightarrow> (string \<rightharpoonup> string) \<Rightarrow> 'k) \<Rightarrow> string \<Rightarrow> string \<Rightarrow> string \<Rightarrow>
   (string + operationContext) \<Rightarrow> ManifestRequest \<Rightarrow> 'k AsyncResult" where
  "runManifestGenAsync C initConstants now cache keyOf repoRoot commit cacheKey opContextSrc q =
    (case opContextSrc of
       Inl err \<Rightarrow>
         (case cacheFailure initConstants now cache (keyOf cacheKey Map.empty) err of
            (msgs, cache') \<Rightarrow> \<lparr>sent = msgs, cacheAfter = cache', asyncEvents = []\<rparr>)
     | Inr opContext \<Rightarrow>
         (case lockReferencedSources C initConstants q commit of
            (Inl msgs, evs) \<Rightarrow> \<lparr>sent = msgs, cacheAfter = cache, asyncEvents = evs @ unlocks evs\<rparr>
          | (Inr repoRefs, evs) \<Rightarrow>
              (let outcome = GenerateManifests C (appPath opContext) repoRoot commit;
                   tar = (if tarDoneSent outcome then [TarDoneMsg True] else []);
                   refSourceCommitSHAs = map_of (map (\<lambda>(u, r). (u, repoRef_commitSHA r)) repoRefs);
                   k = keyOf cacheKey refSourceCommitSHAs
               in case renderResult outcome of
                    Inl err \<Rightarrow>
                      (case cacheFailure initConstants now cache k err of
                         (msgs, cache') \<Rightarrow>
                           \<lparr>sent = tar @ msgs, cacheAfter = cache',
                            asyncEvents = evs @ [Render] @ unlocks evs\<rparr>)
                  | Inr manifestGenResult \<Rightarrow>
                      (let response = manifestGenResult\<lparr>Revision := commit,
                                         VerifyResult := verificationResult opContext\<rparr>;
                           manifestGenCacheEntry =
                             \<lparr>ManifestResponse = Some response, MostRecentError = [],
                              FirstFailureTimestamp = 0, NumberOfConsecutiveFailures = 0,
                              NumberOfCachedResponsesReturned = 0\<rparr>
                       in \<lparr>sent = tar @ [ResponseMsg response],
                           cacheAfter = snd (SetManifests cache k manifestGenCacheEntry),
                           asyncEvents = evs @ [Render] @ unlocks evs\<rparr>))))"


subsection \<open>runRepoOperation and GenerateManifest\<close>

text \<open>
  \<open>sem\<close> tells whether a parallelism semaphore is configured. \<open>GenState\<close> holds the
  variables that the closures of \<open>GenerateManifest\<close> share (\<open>res\<close>, \<open>tarConcluded\<close>, the
  messages of the promise not yet received), the cache and the two traces.
\<close>

record operationSettings =
  sem :: bool
  noCache :: bool
  noRevisionCache :: bool
  allowConcurrent :: bool

record 'k GenState =
  res :: "ManifestResponse option"
  manifestCache :: "'k Cache"
  promise :: "message list"
  tarConcluded :: bool
  trace :: "event list"
  asyncTrace :: "event list"

definition logEvent :: "event \<Rightarrow> 'k GenState \<Rightarrow> 'k GenState" where
  "logEvent e st = st\<lparr>trace := trace st @ [e]\<rparr>"

definition FirstNonEmpty :: "string \<Rightarrow> string \<Rightarrow> string" where
  "FirstNonEmpty a b = (if a \<noteq> [] then a else b)"

type_synonym 'k cacheFn =
  "string \<Rightarrow> (string \<rightharpoonup> string) \<Rightarrow> bool \<Rightarrow> 'k GenState \<Rightarrow> (bool \<times> error option) \<times> 'k GenState"

type_synonym 'k operation =
  "string \<Rightarrow> string \<Rightarrow> string \<Rightarrow> (string + operationContext) \<Rightarrow> 'k GenState \<Rightarrow>
   error option \<times> 'k GenState"

text \<open>
  The three branches of \<open>runRepoOperation\<close> after the semaphore: a git working tree under
  the repository lock (\<open>runGitOperation\<close>, with the closure that builds the operation
  context in \<open>gitOperationContext\<close>), and an extracted OCI image or chart
  (\<open>runExtractedOperation\<close>). The deferred releases are logged after the body.
\<close>

definition gitOperationContext ::
  "'v Collaborators \<Rightarrow> ApplicationSource \<Rightarrow> bool \<Rightarrow> string \<Rightarrow> string \<Rightarrow> string \<Rightarrow>
   string + operationContext" where
  "gitOperationContext C source verifyCommit root revision unresolvedRevision =
    (case (if verifyCommit
           then VerifyCommitSignature C (if IsAnnotatedTag C revision then unresolvedRevision else revision)
           else Inr []) of
       Inl err \<Rightarrow> Inl err
     | Inr signature \<Rightarrow>
         (case appPath_Path C root (Path source) of
            Inl err \<Rightarrow> Inl err
          | Inr p \<Rightarrow> Inr \<lparr>appPath = p, verificationResult = signature\<rparr>))"

definition runGitOperation ::
  "'v Collaborators \<Rightarrow> RepoServerInitConstants \<Rightarrow> ApplicationSource \<Rightarrow> bool \<Rightarrow> 'k cacheFn \<Rightarrow>
   'k operation \<Rightarrow> operationSettings \<Rightarrow> bool \<Rightarrow> string \<Rightarrow> string \<Rightarrow> string \<Rightarrow>
   (string \<rightharpoonup> string) \<Rightarrow> 'k GenState \<Rightarrow> error option \<times> 'k GenState" where
  "runGitOperation C initConstants source verifyCommit cacheFn operation settings hasMultipleSources
      root revision unresolvedRevision repoRefs st =
    (case repoLock_Lock C root revision (allowConcurrent settings) of
       Some err \<Rightarrow> (Some (ErrorString err), st)
     | None \<Rightarrow>
         (case
            (let st1 = logEvent (Lock root revision) st in
             case symlinkGuard C initConstants ''repository'' root of
               Some err \<Rightarrow> (Some err, st1)
             | None \<Rightarrow>
                 (case (if hasMultipleSources then Inr revision else CommitSHA C root) of
                    Inl err \<Rightarrow> (Some (ErrorString (''failed to get commit SHA: '' @ err)), st1)
                  | Inr commit \<Rightarrow>
                      (case (if \<not> noCache settings then cacheFn revision repoRefs False st1
                             else ((False, None), st1)) of
                         ((ok, err), st2) \<Rightarrow>
                           if ok then (err, st2)
                           else operation root commit revision
                                  (gitOperationContext C source verifyCommit root revision unresolvedRevision)
                                  st2))) of
            (err, st') \<Rightarrow> (err, logEvent (Unlock root) st')))"

definition runExtractedOperation ::
  "'v Collaborators \<Rightarrow> RepoServerInitConstants \<Rightarrow> ApplicationSource \<Rightarrow> 'k operation \<Rightarrow>
   operationSettings \<Rightarrow> bool \<Rightarrow> string \<Rightarrow> 'k GenState \<Rightarrow> error option \<times> 'k GenState" where
  "runExtractedOperation C initConstants source operation settings isOCI revision st =
    (case (if noCache settings
           then (if isOCI then CleanCache C revision else CleanChartCache C (Chart source) revision)
           else None) of
       Some err \<Rightarrow> (Some (ErrorString err), st)
     | None \<Rightarrow>
         (case (if isOCI then Extract C revision else ExtractChart C (Chart source) revision) of
            Inl err \<Rightarrow> (Some (ErrorString err), st)
          | Inr dir \<Rightarrow>
              (case
                 (let st1 = logEvent (ExtractDir dir) st in
                  case symlinkGuard C initConstants (if isOCI then ''oci image'' else ''chart'') dir of
                    Some err \<Rightarrow> (Some err, st1)
                  | None \<Rightarrow>
                      if isOCI then
                        (case appPath_Path C dir (Path source) of
                           Inl err \<Rightarrow> (Some (ErrorString err), st1)
                         | Inr p \<Rightarrow>
                             operation dir revision revision
                               (Inr \<lparr>appPath = p, verificationResult = []\<rparr>) st1)
                      else operation dir revision revision
                             (Inr \<lparr>appPath = dir, verificationResult = []\<rparr>) st1) of
                 (err, st') \<Rightarrow> (err, logEvent (CloseDir dir) st'))))"

definition resolvePrimary ::
  "('v::linorder) Collaborators \<Rightarrow> Repository \<Rightarrow> ApplicationSource \<Rightarrow> string \<Rightarrow> bool \<Rightarrow>
   string + (string \<times> string)" where
  "resolvePrimary C repo source revision bypass =
    (if IsOCI C source then
       (case newOCIClientResolveRevision C repo revision bypass of
          Inl err \<Rightarrow> Inl err | Inr digest \<Rightarrow> Inr ([], digest))
     else if IsHelm C source then
       (case newHelmClientResolveRevision (helm C) repo revision (Chart source) bypass of
          Inl err \<Rightarrow> Inl err | Inr version \<Rightarrow> Inr ([], version))
     else newClientResolveRevision C repo revision)"

definition runRepoOperation ::
  "('v::linorder) Collaborators \<Rightarrow> RepoServerInitConstants \<Rightarrow> string \<Rightarrow> Repository \<Rightarrow> ApplicationSource \<Rightarrow>
   bool \<Rightarrow> 'k cacheFn \<Rightarrow> 'k operation \<Rightarrow> operationSettings \<Rightarrow> bool \<Rightarrow>
   (string \<times> RefTarget) list \<Rightarrow> 'k GenState \<Rightarrow> error option \<times> 'k GenState" where
  "runRepoOperation C initConstants revision0 repo source verifyCommit cacheFn operation settings
      hasMultipleSources refSources st =
    (let revision = FirstNonEmpty revision0 (TargetRevision source);
         unresolvedRevision = revision;
         bypass = (noCache settings \<or> noRevisionCache settings)
     in case resolvePrimary C repo source revision bypass of
          Inl err \<Rightarrow> (Some (ErrorString err), st)
        | Inr (root, resolved) \<Rightarrow>
            (case resolveReferencedSources C hasMultipleSources (Helm source) refSources of
               Inl err \<Rightarrow> (Some err, st)
             | Inr repoRefs \<Rightarrow>
                 (case (if \<not> noCache settings then cacheFn resolved (map_of repoRefs) True st
                        else ((False, None), st)) of
                    ((ok, err), st1) \<Rightarrow>
                      if ok then (err, st1)
                      else
                        (let body = (\<lambda>st2.
                               if IsOCI C source then
                                 runExtractedOperation C initConstants source operation settings True resolved st2
                               else if IsHelm C source then
                                 runExtractedOperation C initConstants source operation settings False resolved st2
                               else
                                 runGitOperation C initConstants source verifyCommit cacheFn operation settings
                                   hasMultipleSources root resolved unresolvedRevision (map_of repoRefs) st2)
                         in if sem settings then
                              (case semAcquire C of
                                 Some err \<Rightarrow> (Some (ErrorString err), st1)
                               | None \<Rightarrow>
                                   (case body (logEvent SemAcquire st1) of
                                      (err', st3) \<Rightarrow> (err', logEvent SemRelease st3)))
                            else body st1))))"

text \<open>
  \<open>GenerateManifest\<close> and its closures \<open>cacheFn\<close> and \<open>operation\<close>. The \<open>select\<close> of the
  operation receives the first message of the goroutine. The second \<open>select\<close>
  (\<open>awaitPromise\<close>) receives the response or the error that follows the \<open>tarDone\<close> signal;
  the goroutine sends one of them on every path.
\<close>

definition refOnly :: "'v Collaborators \<Rightarrow> ManifestRequest \<Rightarrow> bool" where
  "refOnly C q =
    (let source = Request_ApplicationSource q in
     HasMultipleSources q \<and> Path source = [] \<and> \<not> IsOCI C source \<and> \<not> IsHelm C source \<and>
     IsRef C source)"

definition GenerateManifest_cacheFn ::
  "RepoServerInitConstants \<Rightarrow> int \<Rightarrow> (string \<Rightarrow> (string \<rightharpoonup> string) \<Rightarrow> 'k) \<Rightarrow> 'k cacheFn" where
  "GenerateManifest_cacheFn initConstants now keyOf cacheKey refSourceCommitSHAs firstInvocation st =
    (case getManifestCacheEntry initConstants now (manifestCache st)
            (keyOf cacheKey refSourceCommitSHAs) firstInvocation of
       ((ok, resp, err), cache') \<Rightarrow> ((ok, err), st\<lparr>res := resp, manifestCache := cache'\<rparr>))"

definition GenerateManifest_operation ::
  "'v Collaborators \<Rightarrow> RepoServerInitConstants \<Rightarrow> int \<Rightarrow>
   (string \<Rightarrow> (string \<rightharpoonup> string) \<Rightarrow> 'k) \<Rightarrow> ManifestRequest \<Rightarrow> 'k operation" where
  "GenerateManifest_operation C initConstants now keyOf q repoRoot commit cacheKey ctxSrc st =
    (let source = Request_ApplicationSource q in
     if HasMultipleSources q \<and> Path source = [] \<and> Chart source = [] then
       (None, st\<lparr>res := Some \<lparr>Manifests = [], Revision = commit, SourceType = [],
                                VerifyResult = []\<rparr>\<rparr>)
     else
       (let a = runManifestGenAsync C initConstants now (manifestCache st) keyOf
                  repoRoot commit cacheKey ctxSrc q;
            st1 = (logEvent StartManifestGen st)
                    \<lparr>manifestCache := cacheAfter a, asyncTrace := asyncEvents a\<rparr>
        in case sent a of
             ErrMsg err # rest \<Rightarrow> (Some err, (logEvent ReceiveErr st1)\<lparr>promise := rest\<rparr>)
           | ResponseMsg resp # rest \<Rightarrow>
               (None, (logEvent ReceiveResponse st1)\<lparr>res := Some resp, promise := rest\<rparr>)
           | TarDoneMsg tarDone # rest \<Rightarrow>
               (None, (logEvent ReceiveTarDone st1)\<lparr>tarConcluded := tarDone, promise := rest\<rparr>)
           | [] \<Rightarrow> (None, st1)))"

definition awaitPromise ::
  "error option \<Rightarrow> 'k GenState \<Rightarrow> (ManifestResponse option \<times> error option) \<times> 'k GenState" where
  "awaitPromise err st =
    (if tarConcluded st \<and> res st = None then
       (case promise st of
          ResponseMsg resp # rest \<Rightarrow>
            ((Some resp, err),
             (logEvent ReceiveResponse (logEvent AwaitResponse st))\<lparr>res := Some resp, promise := rest\<rparr>)
        | ErrMsg err' # rest \<Rightarrow>
            ((None, Some err'), (logEvent ReceiveErr (logEvent AwaitResponse st))\<lparr>promise := rest\<rparr>)
        | _ \<Rightarrow> ((None, err), logEvent AwaitResponse st))
     else ((res st, err), st))"

definition GenerateManifest ::
  "('v::linorder) Collaborators \<Rightarrow> RepoServerInitConstants \<Rightarrow> bool \<Rightarrow> int \<Rightarrow>
   (string \<Rightarrow> (string \<rightharpoonup> string) \<Rightarrow> 'k) \<Rightarrow> 'k Cache \<Rightarrow> ManifestRequest \<Rightarrow>
   (ManifestResponse option \<times> error option) \<times> 'k GenState" where
  "GenerateManifest C initConstants hasSemaphore now keyOf cache q =
    (let source = Request_ApplicationSource q;
         st0 = \<lparr>res = None, manifestCache = cache, promise = [], tarConcluded = False,
                trace = [], asyncTrace = []\<rparr>
     in if refOnly C q then
          (case newClientResolveRevision C (Request_Repo q) (Request_Revision q) of
             Inl err \<Rightarrow>
               ((Some \<lparr>Manifests = [], Revision = [], SourceType = [], VerifyResult = []\<rparr>,
                 Some (ErrorString err)), st0)
           | Inr (root, revision) \<Rightarrow>
               ((Some \<lparr>Manifests = [], Revision = revision, SourceType = [], VerifyResult = []\<rparr>,
                 None), st0))
        else
          (let settings = \<lparr>sem = hasSemaphore, noCache = NoCache q,
                           noRevisionCache = NoRevisionCache q,
                           allowConcurrent = AllowsConcurrentProcessing C source\<rparr>
           in case runRepoOperation C initConstants (Request_Revision q) (Request_Repo q) source
                     (VerifySignature q)
                     (GenerateManifest_cacheFn initConstants now keyOf)
                     (GenerateManifest_operation C initConstants now keyOf q)
                     settings (HasMultipleSources q) (RefSources q) st0 of
                (err, st) \<Rightarrow> awaitPromise err st))"

text \<open>The root, the resolved revision and the key of the first cache probe of a request.\<close>

definition probeKey ::
  "('v::linorder) Collaborators \<Rightarrow> (string \<Rightarrow> (string \<rightharpoonup> string) \<Rightarrow> 'k) \<Rightarrow> ManifestRequest \<Rightarrow>
   (string \<times> string \<times> 'k) option" where
  "probeKey C keyOf q =
    (let source = Request_ApplicationSource q in
     case resolvePrimary C (Request_Repo q) source
            (FirstNonEmpty (Request_Revision q) (TargetRevision source))
            (NoCache q \<or> NoRevisionCache q) of
       Inl err \<Rightarrow> None
     | Inr (root, resolved) \<Rightarrow>
         (case resolveReferencedSources C (HasMultipleSources q) (Helm source) (RefSources q) of
            Inl err \<Rightarrow> None
          | Inr repoRefs \<Rightarrow> Some (root, resolved, keyOf resolved (map_of repoRefs))))"


subsection \<open>Sequences of requests\<close>

text \<open>
  The same request served at the given times, one call after the other on the cache left
  by the previous one; the condition of the exit by time of \<open>getManifestCacheEntry\<close>; the
  error served from a failure record and the state after \<open>n\<close> such answers; the
  conditions under which a request that misses the cache reaches the renderer (the
  semaphore, the lock or the extraction, the symlink check, the operation context and
  the locks of the referenced sources all succeed) and the arguments that the operation
  then passes to \<open>runManifestGenAsync\<close>; and the caches that the operation of a request
  can leave when it starts on a given cache: that cache itself, when the renderer is not
  reached, or the cache that \<open>runManifestGenAsync\<close> leaves.
\<close>

fun serveRequests ::
  "('v::linorder) Collaborators \<Rightarrow> RepoServerInitConstants \<Rightarrow> bool \<Rightarrow>
   (string \<Rightarrow> (string \<rightharpoonup> string) \<Rightarrow> 'k) \<Rightarrow> ManifestRequest \<Rightarrow> int list \<Rightarrow> 'k Cache \<Rightarrow>
   ((ManifestResponse option \<times> error option) \<times> 'k GenState) list" where
  "serveRequests C initConstants hasSemaphore keyOf q [] cache = []"
| "serveRequests C initConstants hasSemaphore keyOf q (now # nows) cache =
    (let r = GenerateManifest C initConstants hasSemaphore now keyOf cache q
     in r # serveRequests C initConstants hasSemaphore keyOf q nows (manifestCache (snd r)))"

fun cacheAfterRequests ::
  "('v::linorder) Collaborators \<Rightarrow> RepoServerInitConstants \<Rightarrow> bool \<Rightarrow>
   (string \<Rightarrow> (string \<rightharpoonup> string) \<Rightarrow> 'k) \<Rightarrow> ManifestRequest \<Rightarrow> int list \<Rightarrow> 'k Cache \<Rightarrow> 'k Cache" where
  "cacheAfterRequests C initConstants hasSemaphore keyOf q [] cache = cache"
| "cacheAfterRequests C initConstants hasSemaphore keyOf q (now # nows) cache =
     cacheAfterRequests C initConstants hasSemaphore keyOf q nows
       (manifestCache (snd (GenerateManifest C initConstants hasSemaphore now keyOf cache q)))"

definition timeExit :: "RepoServerInitConstants \<Rightarrow> int \<Rightarrow> int \<Rightarrow> bool" where
  "timeExit initConstants firstFailure now =
     (PauseGenerationOnFailureForMinutes initConstants > 0 \<and>
      (now - firstFailure) sdiv 60 \<ge> PauseGenerationOnFailureForMinutes initConstants)"

definition cachedErrorOf :: "CachedManifestResponse \<Rightarrow> error" where
  "cachedErrorOf e = ErrorString (''Manifest generation error (cached): '' @ MostRecentError e)"

definition servedFromCache :: "'k Cache \<Rightarrow> 'k \<Rightarrow> CachedManifestResponse \<Rightarrow> nat \<Rightarrow> 'k GenState" where
  "servedFromCache cache k e n =
     \<lparr>res = None,
      manifestCache = cache\<lparr>entries := (entries cache)(k \<mapsto>
         e\<lparr>NumberOfCachedResponsesReturned := NumberOfCachedResponsesReturned e + int n\<rparr>)\<rparr>,
      promise = [], tarConcluded = False, trace = [], asyncTrace = []\<rparr>"

definition acquisitionOk ::
  "'v Collaborators \<Rightarrow> RepoServerInitConstants \<Rightarrow> bool \<Rightarrow> ManifestRequest \<Rightarrow> string \<Rightarrow> string \<Rightarrow> bool" where
  "acquisitionOk C initConstants hasSemaphore q root resolved =
    (let source = Request_ApplicationSource q in
     (if hasSemaphore then semAcquire C = None else True) \<and>
     \<not> (HasMultipleSources q \<and> Path source = [] \<and> Chart source = []) \<and>
     (if IsOCI C source then
        (case Extract C resolved of
           Inl err \<Rightarrow> False
         | Inr dir \<Rightarrow>
             symlinkGuard C initConstants ''oci image'' dir = None \<and>
             \<not> isl (appPath_Path C dir (Path source)) \<and>
             \<not> isl (fst (lockReferencedSources C initConstants q resolved)))
      else if IsHelm C source then
        (case ExtractChart C (Chart source) resolved of
           Inl err \<Rightarrow> False
         | Inr dir \<Rightarrow>
             symlinkGuard C initConstants ''chart'' dir = None \<and>
             \<not> isl (fst (lockReferencedSources C initConstants q resolved)))
      else
        (let commit = (if HasMultipleSources q then Inr resolved else CommitSHA C root)
         in repoLock_Lock C root resolved (AllowsConcurrentProcessing C source) = None \<and>
            symlinkGuard C initConstants ''repository'' root = None \<and>
            \<not> isl commit \<and>
            \<not> isl (gitOperationContext C source (VerifySignature q) root resolved
                     (FirstNonEmpty (Request_Revision q) (TargetRevision source))) \<and>
            \<not> isl (fst (lockReferencedSources C initConstants q (projr commit))))))"

definition acquiredSource ::
  "'v Collaborators \<Rightarrow> ManifestRequest \<Rightarrow> string \<Rightarrow> string \<Rightarrow>
   string \<times> string \<times> (string + operationContext)" where
  "acquiredSource C q root resolved =
    (let source = Request_ApplicationSource q in
     if IsOCI C source then
       (let dir = projr (Extract C resolved)
        in (dir, resolved,
            Inr \<lparr>appPath = projr (appPath_Path C dir (Path source)), verificationResult = []\<rparr>))
     else if IsHelm C source then
       (let dir = projr (ExtractChart C (Chart source) resolved)
        in (dir, resolved, Inr \<lparr>appPath = dir, verificationResult = []\<rparr>))
     else
       (root, projr (if HasMultipleSources q then Inr resolved else CommitSHA C root),
        gitOperationContext C source (VerifySignature q) root resolved
          (FirstNonEmpty (Request_Revision q) (TargetRevision source))))"

definition cachesAfterOperation ::
  "'v Collaborators \<Rightarrow> RepoServerInitConstants \<Rightarrow> int \<Rightarrow> (string \<Rightarrow> (string \<rightharpoonup> string) \<Rightarrow> 'k) \<Rightarrow>
   ManifestRequest \<Rightarrow> string \<Rightarrow> 'k Cache \<Rightarrow> 'k Cache set" where
  "cachesAfterOperation C initConstants now keyOf q cacheKey cache =
     insert cache
       {cacheAfter (runManifestGenAsync C initConstants now cache keyOf repoRoot commit cacheKey ctxSrc q)
        | repoRoot commit ctxSrc. True}"

subsection \<open>Traces\<close>

text \<open>
  What the operation of \<open>GenerateManifest\<close> adds to the trace, and the shape of a trace in
  which the source is released right after the \<open>tarDone\<close> signal: the working tree of a
  git source is unlocked, the directory of a chart or image (\<open>extracted\<close>) is closed, and
  the second \<open>select\<close> has not started before.
\<close>

definition opShapes :: "event list set" where
  "opShapes = {[], [StartManifestGen], [StartManifestGen, ReceiveErr],
               [StartManifestGen, ReceiveResponse], [StartManifestGen, ReceiveTarDone]}"

fun releases :: "bool \<Rightarrow> event \<Rightarrow> event \<Rightarrow> bool" where
  "releases False (Lock root revision) (Unlock root') = (root = root')"
| "releases True (ExtractDir dir) (CloseDir dir') = (dir = dir')"
| "releases _ _ _ = False"

definition releasesBeforeAwait :: "bool \<Rightarrow> event list \<Rightarrow> bool" where
  "releasesBeforeAwait extracted T =
     (\<exists>pre post acquire release.
        T = pre @ [acquire, StartManifestGen, ReceiveTarDone, release] @ post \<and>
        releases extracted acquire release \<and>
        AwaitResponse \<notin> set pre \<and> ReceiveTarDone \<notin> set pre)"


section \<open>Working-tree lock manager\<close>

text \<open>
  Modelled from the spec: the lock manager behind \<open>s.repoLock\<close> (reposerver/repository/lock.go)
  is not among the sources; repository.go only calls \<open>Lock\<close>. By the spec a tree root is
  idle or held at a revision by a number of holders. A lock on an idle tree runs the
  checkout, and a failed checkout leaves the tree as it was. If the tree holds the desired
  revision additional callers may share it; the \<open>allowConcurrent\<close> flag permits the shared
  access, and when it is false access is fully serialized. Any other caller waits.
  \<open>checkouts\<close> counts the runs of the checkout function.
\<close>

datatype treeState = IDLE | HELD string nat bool

record lockRequest =
  desiredRevision :: string
  concurrent :: bool
  checkoutSucceeds :: bool

record workingTree =
  treeState :: treeState
  waiters :: "lockRequest list"
  checkouts :: nat

datatype lockResult = Granted | CheckoutError | Blocked

text \<open>
  Modelled from the spec: a caller may share a tree that holds its desired revision when
  the holder and the caller both permit concurrent access.
\<close>

definition shares :: "string \<Rightarrow> bool \<Rightarrow> lockRequest \<Rightarrow> bool" where
  "shares held conc r = (desiredRevision r = held \<and> conc \<and> concurrent r)"

text \<open>
  Modelled from the spec: the contract \<open>lock(treeRoot, desiredRevision, allowConcurrent,
  checkoutFn)\<close> on one tree root. The holder that ran the checkout fixes whether the tree
  is shared.
\<close>

definition lock :: "workingTree \<Rightarrow> lockRequest \<Rightarrow> lockResult \<times> workingTree" where
  "lock t r =
    (case treeState t of
       IDLE \<Rightarrow>
         if checkoutSucceeds r
         then (Granted, t\<lparr>treeState := HELD (desiredRevision r) 1 (concurrent r),
                           checkouts := checkouts t + 1\<rparr>)
         else (CheckoutError, t\<lparr>checkouts := checkouts t + 1\<rparr>)
     | HELD held n conc \<Rightarrow>
         if shares held conc r
         then (Granted, t\<lparr>treeState := HELD held (n + 1) conc\<rparr>)
         else (Blocked, t\<lparr>waiters := waiters t @ [r]\<rparr>))"

text \<open>
  Modelled from the spec: release gives up one hold, and the last release unblocks the
  waiters in FIFO order. Each waiter tries its lock again on the tree that the waiters
  before it left: the first one runs the checkout, the waiters that can share the tree it
  then holds do so without a checkout, and the others wait again.
\<close>

definition lockAll :: "workingTree \<Rightarrow> lockRequest list \<Rightarrow> workingTree" where
  "lockAll t rs = foldl (\<lambda>t' r. snd (lock t' r)) t rs"

definition release :: "workingTree \<Rightarrow> workingTree" where
  "release t =
    (case treeState t of
       IDLE \<Rightarrow> t
     | HELD held n conc \<Rightarrow>
         if n > 1 then t\<lparr>treeState := HELD held (n - 1) conc\<rparr>
         else lockAll (t\<lparr>treeState := IDLE, waiters := []\<rparr>) (waiters t))"


section \<open>Sample data for manifest generation\<close>

text \<open>
  Collaborators whose renderer fails with \<open>boom\<close> (or returns a given outcome), a git
  request, a failure record at the threshold of three failures, a request with two
  references to one repository at different revisions, and a held working tree.
\<close>

definition sampleHelm :: "nat HelmCollaborators" where
  "sampleHelm = \<lparr>IsHelmOciRepo = (\<lambda>url. HasPrefix url ''oci://''),
     IsVersion = (\<lambda>v. v \<in> {''1.0.0'', ''1.1.0'', ''1.2.0'', ''2.0.0''}),
     GetTags = (\<lambda>chart bypass.
        if chart = ''app'' then Inr [''1.0.0'', ''1.1.0''] else Inl ''repository not found''),
     GetIndexEntriesTags = (\<lambda>chart bypass.
        if chart = ''app'' then Inr [''1.0.0'', ''1.2.0'', ''2.0.0''] else Inl ''chart not found''),
     constraintCheck = (\<lambda>c v. c = ''1.x'' \<and> v \<in> {''1.0.0'', ''1.1.0'', ''1.2.0''}),
     versionOf = (\<lambda>v. if v = ''1.0.0'' then 100 else if v = ''1.1.0'' then 110
                        else if v = ''1.2.0'' then 120 else if v = ''2.0.0'' then 200 else 0),
     noVersionError = (\<lambda>c tags. ''no version matches '' @ c)\<rparr>"

definition sampleCollaborators :: "nat Collaborators" where
  "sampleCollaborators = \<lparr>
     NormalizeGitURL = (\<lambda>url. url),
     newClientResolveRevision = (\<lambda>repo revision.
        Inr (''/tmp/_argocd-repo/'' @ Repo repo, ''sha-of-'' @ revision)),
     newOCIClientResolveRevision = (\<lambda>repo revision bypass. Inl ''not an OCI repository''),
     helm = sampleHelm,
     IsOCI = (\<lambda>source. HasPrefix (RepoURL source) ''oci://''),
     IsHelm = (\<lambda>source. Chart source \<noteq> []),
     IsRef = (\<lambda>source. Ref source \<noteq> []),
     AllowsConcurrentProcessing = (\<lambda>source. True),
     semAcquire = None,
     CleanCache = (\<lambda>revision. None),
     CleanChartCache = (\<lambda>chart revision. None),
     Extract = (\<lambda>revision. Inl ''not an OCI repository''),
     ExtractChart = (\<lambda>chart revision. Inl ''not a chart repository''),
     CheckOutOfBoundsSymlinks = (\<lambda>root. SymlinksOk),
     appPath_Path = (\<lambda>root path. Inr (root @ ''/'' @ path)),
     repoLock_Lock = (\<lambda>root revision concurrent. None),
     CommitSHA = (\<lambda>root. Inr ''abc123''),
     IsAnnotatedTag = (\<lambda>revision. False),
     VerifyCommitSignature = (\<lambda>revision. Inr []),
     GenerateManifests = (\<lambda>path root revision. \<lparr>tarDoneSent = False, renderResult = Inl ''boom''\<rparr>)\<rparr>"

definition sampleRequest :: ManifestRequest where
  "sampleRequest = \<lparr>Request_Repo = \<lparr>Repo = ''repo1'', EnableOCI = False\<rparr>,
     Request_Revision = ''main'', NoCache = False, NoRevisionCache = False,
     VerifySignature = False, HasMultipleSources = False,
     Request_ApplicationSource = gitSource ''repo1'', RefSources = []\<rparr>"

definition sampleKeyOf :: "string \<Rightarrow> (string \<rightharpoonup> string) \<Rightarrow> string \<times> (string \<rightharpoonup> string)" where
  "sampleKeyOf cacheKey refSourceCommitSHAs = (cacheKey, refSourceCommitSHAs)"

definition backoff :: "int \<Rightarrow> int \<Rightarrow> int \<Rightarrow> RepoServerInitConstants" where
  "backoff pauseAfterFailures pauseMinutes pauseRequests =
     \<lparr>PauseGenerationAfterFailedGenerationAttempts = pauseAfterFailures,
      PauseGenerationOnFailureForMinutes = pauseMinutes,
      PauseGenerationOnFailureForRequests = pauseRequests,
      AllowOutOfBoundsSymlinks = False\<rparr>"

definition emptyCache :: "(string \<times> (string \<rightharpoonup> string)) Cache" where
  "emptyCache = \<lparr>entries = Map.empty, reachable = True\<rparr>"

definition boomEntry :: CachedManifestResponse where
  "boomEntry = \<lparr>ManifestResponse = None, MostRecentError = ''boom'', FirstFailureTimestamp = 1000,
                 NumberOfConsecutiveFailures = 3, NumberOfCachedResponsesReturned = 0\<rparr>"

definition boomCache :: "(string \<times> (string \<rightharpoonup> string)) Cache" where
  "boomCache = \<lparr>entries = [(''sha-of-main'', Map.empty) \<mapsto> boomEntry], reachable = True\<rparr>"

definition renderingCollaborators :: "RenderOutcome \<Rightarrow> nat Collaborators" where
  "renderingCollaborators outcome =
     sampleCollaborators\<lparr>GenerateManifests := (\<lambda>path root revision. outcome)\<rparr>"

definition directoryOutcome :: RenderOutcome where
  "directoryOutcome = \<lparr>tarDoneSent = False,
     renderResult = Inr \<lparr>Manifests = [''{\"kind\":\"ConfigMap\"}''], Revision = [],
                         SourceType = ''Directory'', VerifyResult = []\<rparr>\<rparr>"

definition pluginOutcome :: RenderOutcome where
  "pluginOutcome = \<lparr>tarDoneSent = True,
     renderResult = Inr \<lparr>Manifests = [''{\"kind\":\"ConfigMap\"}''], Revision = [],
                         SourceType = ''Plugin'', VerifyResult = []\<rparr>\<rparr>"

definition valuesRef :: "string \<Rightarrow> RefTarget" where
  "valuesRef revision = \<lparr>RefTarget_Repo = \<lparr>Repo = ''values'', EnableOCI = False\<rparr>,
     RefTarget_TargetRevision = revision, RefTarget_Chart = []\<rparr>"

definition conflictRequest :: ManifestRequest where
  "conflictRequest = sampleRequest\<lparr>HasMultipleSources := True,
     Request_ApplicationSource := (gitSource ''repo1'')\<lparr>Helm := Some
        \<lparr>ValueFiles = [''$a/values.yaml'', ''$b/values.yaml''], FileParameters = []\<rparr>\<rparr>,
     RefSources := [(''$a'', valuesRef ''v1''), (''$b'', valuesRef ''v2'')]\<rparr>"

definition heldTree :: "bool \<Rightarrow> workingTree" where
  "heldTree conc = \<lparr>treeState = HELD ''abc123'' 1 conc, waiters = [], checkouts = 1\<rparr>"

definition sameRevision :: "bool \<Rightarrow> lockRequest" where
  "sameRevision conc = \<lparr>desiredRevision = ''abc123'', concurrent = conc, checkoutSucceeds = True\<rparr>"

definition otherRevision :: lockRequest where
  "otherRevision = \<lparr>desiredRevision = ''def456'', concurrent = True, checkoutSucceeds = True\<rparr>"


section \<open>Properties of the project policy helpers\<close>

lemma isDenyPattern_bang [simp]: "isDenyPattern (CHR ''!'' # s)"
  by (simp add: isDenyPattern_def HasPrefix_def)

lemma isDenyPattern_iff: "isDenyPattern r \<longleftrightarrow> (\<exists>b. r = CHR ''!'' # b)"
  by (cases r) (auto simp: isDenyPattern_def HasPrefix_def)

lemma TrimPrefix_bang [simp]: "TrimPrefix (CHR ''!'' # b) ''!'' = b"
  by (simp add: TrimPrefix_def HasPrefix_def)

lemma sourceReposLoop_deny_hit:
  assumes "r \<in> set repos" "isDenyPattern r" "Match (Norm (drop 1 r)) srcN ''/''"
  shows "\<not> sourceReposLoop Match Norm srcN repos acc"
  using assms
proof (induction repos arbitrary: acc)
  case Nil
  then show ?case by simp
next
  case (Cons a repos)
  show ?case
  proof (cases "a = r")
    case True
    from Cons.prems(2) obtain b where b: "r = CHR ''!'' # b"
      by (auto simp: isDenyPattern_iff)
    with True Cons.prems(3) show ?thesis
      by (simp add: globMatch_def)
  next
    case False
    with Cons.prems have "r \<in> set repos" by simp
    from Cons.IH[OF this Cons.prems(2,3)] show ?thesis
      by (simp add: Let_def)
  qed
qed

lemma sourceReposLoop_only_deny_miss:
  assumes "\<forall>r\<in>set repos. isDenyPattern r \<and> \<not> Match (Norm (drop 1 r)) srcN ''/''"
  shows "sourceReposLoop Match Norm srcN repos acc = (acc \<or> repos \<noteq> [])"
  using assms
proof (induction repos arbitrary: acc)
  case Nil
  then show ?case by simp
next
  case (Cons a repos)
  from Cons.prems obtain b where b: "a = CHR ''!'' # b" and nm: "\<not> Match (Norm b) srcN ''/''"
    by (auto simp: isDenyPattern_iff)
  have rest: "\<forall>r\<in>set repos. isDenyPattern r \<and> \<not> Match (Norm (drop 1 r)) srcN ''/''"
    using Cons.prems by simp
  show ?case
    using Cons.IH[OF rest, of True] b nm by (simp add: globMatch_def)
qed

text \<open>
  C9. \<open>IsGroupKindPermitted\<close> treats a nil and an empty whitelist differently for
  namespaced resources: with a nil \<open>NamespaceResourceWhitelist\<close> a group/kind is permitted
  exactly when it is not in the blacklist, with an empty non-nil one nothing is permitted;
  for cluster-scoped resources a nil or empty \<open>ClusterResourceWhitelist\<close> permits nothing.
\<close>

theorem IsGroupKindPermitted_nil_vs_empty:
  "(NamespaceResourceWhitelist (Spec proj) = None \<longrightarrow>
      IsGroupKindPermitted inList proj gk True =
        (\<not> (len (NamespaceResourceBlacklist (Spec proj)) \<noteq> 0 \<and>
            inList \<lparr>Group = Group gk, Kind = Kind gk\<rparr> (elems (NamespaceResourceBlacklist (Spec proj)))))) \<and>
   (NamespaceResourceWhitelist (Spec proj) = Some [] \<longrightarrow>
      \<not> IsGroupKindPermitted inList proj gk True) \<and>
   (len (ClusterResourceWhitelist (Spec proj)) = 0 \<longrightarrow>
      \<not> IsGroupKindPermitted inList proj gk False)"
  by (simp add: IsGroupKindPermitted_def Let_def len_def)

theorem IsGroupKindPermitted_nil_vs_empty_witness:
  "IsGroupKindPermitted exactInList (projWhitelist None) \<lparr>Group = [], Kind = ''Pod''\<rparr> True \<and>
   \<not> IsGroupKindPermitted exactInList (projWhitelist None) \<lparr>Group = [], Kind = ''Secret''\<rparr> True \<and>
   \<not> IsGroupKindPermitted exactInList (projWhitelist (Some [])) \<lparr>Group = [], Kind = ''Pod''\<rparr> True \<and>
   \<not> IsGroupKindPermitted exactInList (projWhitelist None) \<lparr>Group = [], Kind = ''Pod''\<rparr> False"
  using IsGroupKindPermitted_nil_vs_empty
          [where proj = "projWhitelist None" and inList = exactInList
             and gk = "\<lparr>Group = [], Kind = ''Pod''\<rparr>"]
        IsGroupKindPermitted_nil_vs_empty
          [where proj = "projWhitelist None" and inList = exactInList
             and gk = "\<lparr>Group = [], Kind = ''Secret''\<rparr>"]
        IsGroupKindPermitted_nil_vs_empty
          [where proj = "projWhitelist (Some [])" and inList = exactInList
             and gk = "\<lparr>Group = [], Kind = ''Pod''\<rparr>"]
  by (simp add: projWhitelist_def exactInList_def len_def elems_def)

text \<open>
  C8. \<open>IsSourcePermitted\<close> is false whenever some entry of \<open>SourceRepos\<close> is a deny
  pattern whose (normalized) body matches the normalized source URL, whatever the other
  entries are; and a non-empty \<open>SourceRepos\<close> made of deny patterns only, none of which
  matches the source, permits the source.
\<close>

theorem IsSourcePermitted_deny_patterns:
  "((\<exists>r\<in>set (SourceRepos (Spec proj)).
        isDenyPattern r \<and> Match (Norm (drop 1 r)) (Norm (RepoURL src)) ''/'') \<longrightarrow>
      \<not> IsSourcePermitted Match Norm proj src) \<and>
   (SourceRepos (Spec proj) \<noteq> [] \<and>
    (\<forall>r\<in>set (SourceRepos (Spec proj)).
        isDenyPattern r \<and> \<not> Match (Norm (drop 1 r)) (Norm (RepoURL src)) ''/'') \<longrightarrow>
      IsSourcePermitted Match Norm proj src)"
proof (intro conjI impI)
  assume "\<exists>r\<in>set (SourceRepos (Spec proj)).
            isDenyPattern r \<and> Match (Norm (drop 1 r)) (Norm (RepoURL src)) ''/''"
  then obtain r where "r \<in> set (SourceRepos (Spec proj))" "isDenyPattern r"
      "Match (Norm (drop 1 r)) (Norm (RepoURL src)) ''/''"
    by blast
  then show "\<not> IsSourcePermitted Match Norm proj src"
    unfolding IsSourcePermitted_def Let_def by (rule sourceReposLoop_deny_hit)
next
  assume a: "SourceRepos (Spec proj) \<noteq> [] \<and>
    (\<forall>r\<in>set (SourceRepos (Spec proj)).
        isDenyPattern r \<and> \<not> Match (Norm (drop 1 r)) (Norm (RepoURL src)) ''/'')"
  then show "IsSourcePermitted Match Norm proj src"
    unfolding IsSourcePermitted_def Let_def
    by (simp add: sourceReposLoop_only_deny_miss)
qed


theorem IsSourcePermitted_deny_patterns_witness:
  "\<not> IsSourcePermitted literalMatch (\<lambda>s. s) (projSources [''*'', ''!https://evil''])
        (gitSource ''https://evil'') \<and>
   IsSourcePermitted literalMatch (\<lambda>s. s) (projSources [''!https://evil'', ''!https://worse''])
        (gitSource ''https://good'')"
  using IsSourcePermitted_deny_patterns
          [where proj = "projSources [''*'', ''!https://evil'']" and Match = literalMatch
             and Norm = "\<lambda>s. s" and src = "gitSource ''https://evil''"]
        IsSourcePermitted_deny_patterns
          [where proj = "projSources [''!https://evil'', ''!https://worse'']" and Match = literalMatch
             and Norm = "\<lambda>s. s" and src = "gitSource ''https://good''"]
  by (simp add: projSources_def gitSource_def literalMatch_def isDenyPattern_def HasPrefix_def)

subsection \<open>NormalizeJWTTokens\<close>

lemma map_of_foldl_update:
  "map_of (foldl (\<lambda>m t. AList.update (ID t) t m) al ts) =
   map_of (rev (map (\<lambda>t. (ID t, t)) ts) @ al)"
  by (induction ts arbitrary: al) (simp_all add: update_conv' map_add_upd_left)

lemma distinct_foldl_update:
  "distinct (map fst al) \<Longrightarrow> distinct (map fst (foldl (\<lambda>m t. AList.update (ID t) t m) al ts))"
  by (induction ts arbitrary: al) (simp_all add: distinct_update)

lemma keys_update:
  "\<forall>(k, t)\<in>set al. k = ID t \<Longrightarrow> \<forall>(k, t)\<in>set (AList.update (ID a) a al). k = ID t"
  by (induction al) auto

lemma keys_foldl_update:
  "\<forall>(k, t)\<in>set al. k = ID t \<Longrightarrow>
   \<forall>(k, t)\<in>set (foldl (\<lambda>m t. AList.update (ID t) t m) al ts). k = ID t"
proof (induction ts arbitrary: al)
  case Nil then show ?case by simp
next
  case (Cons a ts)
  have "\<forall>(k, t)\<in>set (AList.update (ID a) a al). k = ID t"
    using Cons.prems by (rule keys_update)
  from Cons.IH[OF this] show ?case by simp
qed

lemma ran_lastByID: "ran (map_of (rev (map (\<lambda>t. (ID t, t)) xs))) = lastByID xs"
proof -
  have "a = ID b" if "map_of (rev (map (\<lambda>t. (ID t, t)) xs)) a = Some b" for a b
    using map_of_SomeD[OF that] by auto
  then show ?thesis
    unfolding ran_def lastByID_def by blast
qed

lemma jwtTokensCombine_props:
  assumes R: "\<forall>m. mset (R m) = mset m" and S: "sortSlice_ok S"
  shows "issuedAtDesc (jwtTokensCombine R S t1 t2)"
    and "distinct (map ID (jwtTokensCombine R S t1 t2))"
    and "set (jwtTokensCombine R S t1 t2) = lastByID (t1 @ t2)"
proof -
  define al where "al = foldl (\<lambda>m t. AList.update (ID t) t m) [] (t1 @ t2)"
  have res: "jwtTokensCombine R S t1 t2 = S (map snd (R al))"
    by (simp add: jwtTokensCombine_def al_def Let_def)
  show "issuedAtDesc (jwtTokensCombine R S t1 t2)"
    using S by (simp add: res sortSlice_ok_def)
  have msetS: "mset (S (map snd (R al))) = mset (map snd al)"
    using S R by (simp add: sortSlice_ok_def)
  have dk: "distinct (map fst al)"
    unfolding al_def by (rule distinct_foldl_update) simp
  have keys: "\<forall>(k, t)\<in>set al. k = ID t"
    unfolding al_def by (rule keys_foldl_update) simp
  have eq: "map ID (map snd al) = map fst al"
    using keys by (induction al) auto
  have "distinct (map ID (map snd al))"
    unfolding eq by (rule dk)
  moreover have "mset (map ID (S (map snd (R al)))) = mset (map ID (map snd al))"
    using msetS by (metis mset_map)
  ultimately show "distinct (map ID (jwtTokensCombine R S t1 t2))"
    unfolding res using mset_eq_imp_distinct_iff by blast
  have "set (S (map snd (R al))) = snd ` set al"
    using msetS by (metis mset_eq_setD set_map)
  also have "\<dots> = ran (map_of al)"
    using dk by (simp add: ran_distinct)
  also have "map_of al = map_of (rev (map (\<lambda>t. (ID t, t)) (t1 @ t2)))"
    unfolding al_def by (simp add: map_of_foldl_update)
  also have "ran \<dots> = lastByID (t1 @ t2)"
    by (rule ran_lastByID)
  finally show "set (jwtTokensCombine R S t1 t2) = lastByID (t1 @ t2)"
    by (simp add: res)
qed

lemma syncRoles_props:
  assumes "syncRoles R S i rs st ex = (rs', st', ex')" "distinct (map Name rs)"
  shows "ex' = ex \<union> Name ` set rs \<and>
         (\<forall>n. n \<notin> Name ` set rs \<longrightarrow> entry st' n = entry st n) \<and>
         (rs \<noteq> [] \<longrightarrow> st' \<noteq> None) \<and>
         list_all2 (\<lambda>r r'. Name r' = Name r \<and> entry st' (Name r) = Some (JWTTokens r') \<and>
            (\<exists>k. JWTTokens r' = jwtTokensCombine (R k) S (itemsOf st (Name r)) (JWTTokens r))) rs rs'"
  using assms
proof (induction rs arbitrary: i st ex rs' st' ex')
  case Nil
  then show ?case by simp
next
  case (Cons role rest)
  define m where "m = (case st of None \<Rightarrow> Map.empty | Some m \<Rightarrow> m)"
  define tokens where
    "tokens = jwtTokensCombine (R i) S (itemsOf st (Name role)) (JWTTokens role)"
  define m' where "m' = m(Name role \<mapsto> tokens)"
  obtain rest' st2 ex2 where rec:
    "syncRoles R S (Suc i) rest (Some m') (insert (Name role) ex) = (rest', st2, ex2)"
    by (cases "syncRoles R S (Suc i) rest (Some m') (insert (Name role) ex)") auto
  have unfold: "syncRoles R S i (role # rest) st ex = (role\<lparr>JWTTokens := tokens\<rparr> # rest', st2, ex2)"
    using rec
    by (cases st) (simp_all add: m'_def m_def tokens_def itemsOf_def entry_def lookupItems_def)
  with Cons.prems(1) have res: "rs' = role\<lparr>JWTTokens := tokens\<rparr> # rest'" "st' = st2" "ex' = ex2"
    by simp_all
  from Cons.prems(2) have dist: "distinct (map Name rest)" and notin: "Name role \<notin> Name ` set rest"
    by auto
  note IH = Cons.IH[OF rec dist]
  have e1: "entry st2 (Name role) = Some tokens"
    using IH notin by (simp add: entry_def m'_def)
  have e2: "entry (Some m') n = entry st n" if "n \<noteq> Name role" for n
    using that by (cases st) (simp_all add: entry_def m'_def m_def)
  have items: "itemsOf (Some m') (Name r) = itemsOf st (Name r)" if "r \<in> set rest" for r
  proof -
    from that notin have "Name r \<noteq> Name role" by (metis image_eqI)
    then show ?thesis by (simp add: itemsOf_def e2)
  qed
  have la: "list_all2 (\<lambda>r r'. Name r' = Name r \<and> entry st2 (Name r) = Some (JWTTokens r') \<and>
            (\<exists>k. JWTTokens r' = jwtTokensCombine (R k) S (itemsOf st (Name r)) (JWTTokens r))) rest rest'"
  proof -
    from IH have "list_all2 (\<lambda>r r'. Name r' = Name r \<and> entry st2 (Name r) = Some (JWTTokens r') \<and>
            (\<exists>k. JWTTokens r' = jwtTokensCombine (R k) S (itemsOf (Some m') (Name r)) (JWTTokens r))) rest rest'"
      by simp
    then show ?thesis
      by (rule list.rel_mono_strong) (auto simp: items)
  qed
  have ne: "st2 \<noteq> None"
    using e1 by (auto simp: entry_def split: option.splits)
  show ?case
    unfolding res
    using IH e1 e2 la ne by (auto simp: tokens_def)
qed


lemma rangeInOrder_ok: "rangeOrder_ok rangeInOrder"
  by (simp add: rangeOrder_ok_def rangeInOrder_def)

lemma sortDesc_ok: "sortSlice_ok sortDesc"
proof -
  have "issuedAtDesc (sortDesc ts)" for ts
  proof -
    have "sorted (map IssuedAt (sort_key IssuedAt ts))" by simp
    then have "sorted_wrt (\<lambda>x y. IssuedAt x \<le> IssuedAt y) (sort_key IssuedAt ts)"
      by (simp only: sorted_map)
    then show ?thesis
      by (simp add: issuedAtDesc_def sortDesc_def sorted_wrt_rev)
  qed
  then show ?thesis
    by (simp add: sortSlice_ok_def sortDesc_def)
qed

lemma itemsOf_fix:
  "itemsOf (map_option (\<lambda>m name. map_option (map fixTokenID) (m name)) st) n =
   map fixTokenID (itemsOf st n)"
  by (cases st) (auto simp: itemsOf_def entry_def split: option.splits)

lemma list_all2_map_eq:
  "list_all2 (\<lambda>x y. f x = g y) xs ys \<Longrightarrow> map f xs = map g ys"
  by (induction rule: list_all2_induct) auto

lemma NormalizeJWTTokens_unfold:
  assumes "syncRoles R S 0
     (map (\<lambda>role. role\<lparr>JWTTokens := map fixTokenID (JWTTokens role)\<rparr>) (Roles (Spec proj)))
     (map_option (\<lambda>m name. map_option (map fixTokenID) (m name)) (JWTTokensByRole (Status proj))) {}
     = (rs', st', ex')"
  shows "Roles (Spec (NormalizeJWTTokens R S proj)) = rs'"
    and "JWTTokensByRole (Status (NormalizeJWTTokens R S proj)) =
          (case st' of None \<Rightarrow> None | Some m \<Rightarrow> Some (m |` ex'))"
  using assms
  by (simp_all add: NormalizeJWTTokens_def syncJWTTokenBetweenStatusAndSpec_def)


text \<open>
  C10 (as amended). For a project whose role names are pairwise distinct, after
  \<open>NormalizeJWTTokens\<close> every role of the spec keeps its name, its \<open>JWTTokens\<close> are the
  \<open>Items\<close> stored for its name in \<open>Status.JWTTokensByRole\<close>, and this list is sorted by
  descending \<open>IssuedAt\<close>, has pairwise distinct IDs and consists of the role's prior status
  and spec tokens (empty IDs filled in), deduplicated by ID; and the status map has no
  entry for a name that is not the name of a role of the spec. This holds for every
  iteration order of the Go map and every outcome of the unstable sort.
\<close>

theorem NormalizeJWTTokens_sync:
  assumes R: "rangeOrder_ok R" and S: "sortSlice_ok S"
    and dist: "distinct (map Name (Roles (Spec proj)))"
  shows "list_all2 (\<lambda>role role'. Name role' = Name role \<and>
            entry (JWTTokensByRole (Status (NormalizeJWTTokens R S proj))) (Name role) =
              Some (JWTTokens role') \<and>
            issuedAtDesc (JWTTokens role') \<and>
            distinct (map ID (JWTTokens role')) \<and>
            set (JWTTokens role') =
              lastByID (map fixTokenID (itemsOf (JWTTokensByRole (Status proj)) (Name role)) @
                        map fixTokenID (JWTTokens role)))
          (Roles (Spec proj)) (Roles (Spec (NormalizeJWTTokens R S proj))) \<and>
         (\<forall>name. entry (JWTTokensByRole (Status (NormalizeJWTTokens R S proj))) name \<noteq> None \<longrightarrow>
            name \<in> Name ` set (Roles (Spec (NormalizeJWTTokens R S proj))))"
proof -
  define roles1 where
    "roles1 = map (\<lambda>role. role\<lparr>JWTTokens := map fixTokenID (JWTTokens role)\<rparr>) (Roles (Spec proj))"
  define byRole1 where
    "byRole1 = map_option (\<lambda>m name. map_option (map fixTokenID) (m name)) (JWTTokensByRole (Status proj))"
  obtain rs' st' ex' where run: "syncRoles R S 0 roles1 byRole1 {} = (rs', st', ex')"
    by (cases "syncRoles R S 0 roles1 byRole1 {}") auto
  define final where "final = (case st' of None \<Rightarrow> None | Some m \<Rightarrow> Some (m |` ex'))"
  have out: "Roles (Spec (NormalizeJWTTokens R S proj)) = rs'"
       "JWTTokensByRole (Status (NormalizeJWTTokens R S proj)) = final"
    using NormalizeJWTTokens_unfold[OF run[unfolded roles1_def byRole1_def]]
    by (simp_all add: final_def)
  have names1: "map Name roles1 = map Name (Roles (Spec proj))"
    by (simp add: roles1_def)
  with dist have "distinct (map Name roles1)" by simp
  note P = syncRoles_props[OF run this]
  from P[THEN conjunct1] have ex': "ex' = Name ` set roles1" by simp
  note la1 = P[THEN conjunct2, THEN conjunct2, THEN conjunct2]
  from la1 have "list_all2 (\<lambda>r r'. Name r' = Name r) roles1 rs'"
    by (rule list_all2_mono) simp
  then have "list_all2 (\<lambda>r r'. Name r = Name r') roles1 rs'"
    by (rule list_all2_mono) simp
  then have names': "map Name rs' = map Name roles1"
    using list_all2_map_eq[of Name Name roles1 rs'] by simp
  have fin_in: "entry final n = entry st' n" if "n \<in> ex'" for n
    using that by (cases st') (simp_all add: final_def entry_def)
  have fin_out: "entry final n = None" if "n \<notin> ex'" for n
    using that by (cases st') (simp_all add: final_def entry_def)
  have perm: "\<forall>m. mset (R k m) = mset m" for k
    using R by (simp add: rangeOrder_ok_def)
  have la2: "list_all2 (\<lambda>r r'. Name r' = Name r \<and> entry final (Name r) = Some (JWTTokens r') \<and>
            issuedAtDesc (JWTTokens r') \<and> distinct (map ID (JWTTokens r')) \<and>
            set (JWTTokens r') = lastByID (itemsOf byRole1 (Name r) @ JWTTokens r))
          roles1 rs'"
    using la1
  proof (rule list.rel_mono_strong)
    fix r r'
    assume r: "r \<in> set roles1"
      and h: "Name r' = Name r \<and> entry st' (Name r) = Some (JWTTokens r') \<and>
         (\<exists>k. JWTTokens r' = jwtTokensCombine (R k) S (itemsOf byRole1 (Name r)) (JWTTokens r))"
    then obtain k where k: "JWTTokens r' = jwtTokensCombine (R k) S (itemsOf byRole1 (Name r)) (JWTTokens r)"
      by blast
    from r have "Name r \<in> ex'" by (simp add: ex')
    then have "entry final (Name r) = Some (JWTTokens r')"
      using h by (simp add: fin_in)
    then show "Name r' = Name r \<and> entry final (Name r) = Some (JWTTokens r') \<and>
            issuedAtDesc (JWTTokens r') \<and> distinct (map ID (JWTTokens r')) \<and>
            set (JWTTokens r') = lastByID (itemsOf byRole1 (Name r) @ JWTTokens r)"
      using h jwtTokensCombine_props[OF perm S, of k "itemsOf byRole1 (Name r)" "JWTTokens r"]
      unfolding k by simp
  qed
  have part1: "list_all2 (\<lambda>role role'. Name role' = Name role \<and>
            entry final (Name role) = Some (JWTTokens role') \<and>
            issuedAtDesc (JWTTokens role') \<and>
            distinct (map ID (JWTTokens role')) \<and>
            set (JWTTokens role') =
              lastByID (map fixTokenID (itemsOf (JWTTokensByRole (Status proj)) (Name role)) @
                        map fixTokenID (JWTTokens role)))
          (Roles (Spec proj)) rs'"
    using la2[unfolded roles1_def byRole1_def list_all2_map1]
    by (simp add: itemsOf_fix)
  have part2: "name \<in> Name ` set rs'" if "entry final name \<noteq> None" for name
  proof -
    have "name \<in> ex'"
    proof (rule ccontr)
      assume "name \<notin> ex'"
      from fin_out[OF this] that show False by simp
    qed
    then have "name \<in> set (map Name roles1)" unfolding ex' by simp
    then have "name \<in> set (map Name rs')" unfolding names' .
    then show ?thesis by simp
  qed
  show ?thesis
    unfolding out
  proof (intro conjI allI impI)
    show "list_all2 (\<lambda>role role'. Name role' = Name role \<and>
            entry final (Name role) = Some (JWTTokens role') \<and>
            issuedAtDesc (JWTTokens role') \<and>
            distinct (map ID (JWTTokens role')) \<and>
            set (JWTTokens role') =
              lastByID (map fixTokenID (itemsOf (JWTTokensByRole (Status proj)) (Name role)) @
                        map fixTokenID (JWTTokens role)))
          (Roles (Spec proj)) rs'"
      by (rule part1)
  next
    fix name assume "entry final name \<noteq> None"
    then show "name \<in> Name ` set rs'" by (rule part2)
  qed
qed


text \<open>The sample project after the call: the token without ID is now called \<open>5\<close>.\<close>

lemma NormalizeJWTTokens_projTwoRoles:
  "Roles (Spec (NormalizeJWTTokens rangeInOrder sortDesc projTwoRoles)) =
    [\<lparr>Name = ''dev'', Policies = [],
       JWTTokens = [\<lparr>IssuedAt = 9, ExpiresAt = 0, ID = ''k''\<rparr>,
                    \<lparr>IssuedAt = 7, ExpiresAt = 0, ID = ''7''\<rparr>,
                    \<lparr>IssuedAt = 5, ExpiresAt = 0, ID = ''5''\<rparr>],
       Groups = []\<rparr>,
     \<lparr>Name = ''ops'', Policies = [], JWTTokens = [], Groups = []\<rparr>]"
  by (simp add: NormalizeJWTTokens_def syncJWTTokenBetweenStatusAndSpec_def projTwoRoles_def
      jwtTokensCombine_def rangeInOrder_def sortDesc_def fixTokenID_def lookupItems_def
      FormatInt_def digits10.simps digitChar_def Let_def)

theorem NormalizeJWTTokens_sync_witness:
  "list_all2 (\<lambda>role role'. Name role' = Name role \<and>
      entry (JWTTokensByRole (Status (NormalizeJWTTokens rangeInOrder sortDesc projTwoRoles))) (Name role) =
        Some (JWTTokens role') \<and>
      issuedAtDesc (JWTTokens role') \<and>
      distinct (map ID (JWTTokens role')) \<and>
      set (JWTTokens role') =
        lastByID (map fixTokenID (itemsOf (JWTTokensByRole (Status projTwoRoles)) (Name role)) @
                  map fixTokenID (JWTTokens role)))
    (Roles (Spec projTwoRoles)) (Roles (Spec (NormalizeJWTTokens rangeInOrder sortDesc projTwoRoles))) \<and>
   entry (JWTTokensByRole (Status (NormalizeJWTTokens rangeInOrder sortDesc projTwoRoles))) ''gone'' = None"
proof -
  have d: "distinct (map Name (Roles (Spec projTwoRoles)))"
    by (simp add: projTwoRoles_def)
  note T = NormalizeJWTTokens_sync[OF rangeInOrder_ok sortDesc_ok d]
  have "''gone'' \<notin> Name ` set (Roles (Spec (NormalizeJWTTokens rangeInOrder sortDesc projTwoRoles)))"
    by (simp add: NormalizeJWTTokens_projTwoRoles)
  with T[THEN conjunct2, THEN spec, of "''gone''"]
  have "entry (JWTTokensByRole (Status (NormalizeJWTTokens rangeInOrder sortDesc projTwoRoles))) ''gone'' = None"
    by simp
  with T[THEN conjunct1] show ?thesis
    by (rule conjI)
qed

text \<open>
  C10 as stated fails when two roles share a name: the first role keeps the tokens
  computed in its own iteration, while the status entry of the shared name is replaced
  in the second role's iteration.
\<close>

theorem NormalizeJWTTokens_duplicate_role_counterexample:
  "entry (JWTTokensByRole (Status (NormalizeJWTTokens rangeInOrder sortDesc projDup)))
         (Name (Roles (Spec (NormalizeJWTTokens rangeInOrder sortDesc projDup)) ! 0)) \<noteq>
   Some (JWTTokens (Roles (Spec (NormalizeJWTTokens rangeInOrder sortDesc projDup)) ! 0))"
  by (simp add: NormalizeJWTTokens_def syncJWTTokenBetweenStatusAndSpec_def projDup_def entry_def
      jwtTokensCombine_def rangeInOrder_def sortDesc_def fixTokenID_def lookupItems_def Let_def)


section \<open>Properties of manifest generation\<close>

subsection \<open>Failure records\<close>

lemma getManifestCacheEntry_paused:
  assumes "reachable cache" "entries cache k = Some e"
    and "PauseGenerationAfterFailedGenerationAttempts ic > 0"
    and "FirstFailureTimestamp e > 0"
    and "NumberOfConsecutiveFailures e \<ge> PauseGenerationAfterFailedGenerationAttempts ic"
    and "\<not> timeExit ic (FirstFailureTimestamp e) now"
    and "NumberOfCachedResponsesReturned e < PauseGenerationOnFailureForRequests ic \<or>
         PauseGenerationOnFailureForRequests ic \<le> 0 \<or> NumberOfCachedResponsesReturned e \<le> 0"
  shows "getManifestCacheEntry ic now cache k True =
           ((True, None, Some (cachedErrorOf e)),
            cache\<lparr>entries := (entries cache)(k \<mapsto>
               e\<lparr>NumberOfCachedResponsesReturned := NumberOfCachedResponsesReturned e + 1\<rparr>)\<rparr>)"
  using assms
  by (auto simp: getManifestCacheEntry_def GetManifests_def SetManifests_def timeExit_def
        cachedErrorOf_def cachedManifestGenerationPrefix_def Let_def)

lemma getManifestCacheEntry_exit:
  assumes "reachable cache" "entries cache k = Some e"
    and "PauseGenerationAfterFailedGenerationAttempts ic > 0"
    and "FirstFailureTimestamp e > 0"
    and "NumberOfConsecutiveFailures e \<ge> PauseGenerationAfterFailedGenerationAttempts ic"
    and "PauseGenerationOnFailureForRequests ic > 0"
    and "NumberOfCachedResponsesReturned e \<ge> PauseGenerationOnFailureForRequests ic"
  shows "getManifestCacheEntry ic now cache k fi =
           ((False, None, None), cache\<lparr>entries := (entries cache)(k := None)\<rparr>)"
  using assms
  by (auto simp: getManifestCacheEntry_def GetManifests_def DeleteManifests_def Let_def)

lemma getManifestCacheEntry_miss:
  assumes "reachable cache" "entries cache k = None"
  shows "getManifestCacheEntry ic now cache k fi = ((False, None, None), cache)"
  using assms
  by (auto simp: getManifestCacheEntry_def GetManifests_def)


lemma probeKeyD:
  assumes "probeKey C keyOf q = Some (root, resolved, k)"
  obtains repoRefs where
    "resolvePrimary C (Request_Repo q) (Request_ApplicationSource q)
        (FirstNonEmpty (Request_Revision q) (TargetRevision (Request_ApplicationSource q)))
        (NoCache q \<or> NoRevisionCache q) = Inr (root, resolved)"
    "resolveReferencedSources C (HasMultipleSources q) (Helm (Request_ApplicationSource q)) (RefSources q)
        = Inr repoRefs"
    "k = keyOf resolved (map_of repoRefs)"
  using assms
  by (auto simp: probeKey_def Let_def split: sum.splits)

lemma runRepoOperation_probe_hit:
  assumes "resolvePrimary C repo source (FirstNonEmpty rev0 (TargetRevision source))
             (noCache settings \<or> noRevisionCache settings) = Inr (root, resolved)"
    and "resolveReferencedSources C hms (Helm source) refSources = Inr repoRefs"
    and "\<not> noCache settings"
    and "fst (fst (cacheFn resolved (map_of repoRefs) True st))"
  shows "runRepoOperation C ic rev0 repo source vc cacheFn operation settings hms refSources st =
           (snd (fst (cacheFn resolved (map_of repoRefs) True st)),
            snd (cacheFn resolved (map_of repoRefs) True st))"
proof -
  obtain ok err st1 where c: "cacheFn resolved (map_of repoRefs) True st = ((ok, err), st1)"
    by (metis surj_pair)
  with assms(4) have ok by simp
  with c assms(1,2,3) show ?thesis
    by (simp add: runRepoOperation_def Let_def)
qed

lemma GenerateManifest_probe_hit:
  assumes nr: "\<not> refOnly C q" and nc: "\<not> NoCache q"
    and pk: "probeKey C keyOf q = Some (root, resolved, k)"
    and hit: "getManifestCacheEntry ic now cache k True = ((True, resp, err), cache')"
  shows "GenerateManifest C ic hs now keyOf cache q =
           (awaitPromise err \<lparr>res = resp, manifestCache = cache', promise = [], tarConcluded = False,
                          trace = [], asyncTrace = []\<rparr>)"
proof -
  from pk obtain repoRefs where
    rp: "resolvePrimary C (Request_Repo q) (Request_ApplicationSource q)
        (FirstNonEmpty (Request_Revision q) (TargetRevision (Request_ApplicationSource q)))
        (NoCache q \<or> NoRevisionCache q) = Inr (root, resolved)"
    and rr: "resolveReferencedSources C (HasMultipleSources q) (Helm (Request_ApplicationSource q)) (RefSources q)
        = Inr repoRefs"
    and k: "k = keyOf resolved (map_of repoRefs)"
    by (rule probeKeyD)
  let ?st0 = "\<lparr>res = None, manifestCache = cache, promise = [], tarConcluded = False,
                trace = [], asyncTrace = []\<rparr> :: 'b GenState"
  let ?settings = "\<lparr>sem = hs, noCache = NoCache q, noRevisionCache = NoRevisionCache q,
                     allowConcurrent = AllowsConcurrentProcessing C (Request_ApplicationSource q)\<rparr>"
  have cf: "GenerateManifest_cacheFn ic now keyOf resolved (map_of repoRefs) True ?st0 =
              ((True, err), \<lparr>res = resp, manifestCache = cache', promise = [], tarConcluded = False,
                          trace = [], asyncTrace = []\<rparr>)"
    using hit by (simp add: GenerateManifest_cacheFn_def k)
  have "runRepoOperation C ic (Request_Revision q) (Request_Repo q) (Request_ApplicationSource q)
          (VerifySignature q) (GenerateManifest_cacheFn ic now keyOf)
          (GenerateManifest_operation C ic now keyOf q) ?settings (HasMultipleSources q) (RefSources q) ?st0
        = (err, \<lparr>res = resp, manifestCache = cache', promise = [], tarConcluded = False,
                          trace = [], asyncTrace = []\<rparr>)"
    by (subst runRepoOperation_probe_hit[where root = root and resolved = resolved and repoRefs = repoRefs])
       (use rp rr nc cf in simp_all)
  then show ?thesis
    using nr by (simp add: GenerateManifest_def Let_def)
qed


lemma awaitPromise_no_tar [simp]:
  "\<not> tarConcluded st \<Longrightarrow> awaitPromise err st = ((res st, err), st)"
  by (simp add: awaitPromise_def)

lemma serveRequests_paused:
  assumes nr: "\<not> refOnly C q" and nc: "\<not> NoCache q"
    and pk: "probeKey C keyOf q = Some (root, resolved, k)"
    and re: "reachable cache"
    and pa: "PauseGenerationAfterFailedGenerationAttempts ic > 0"
    and ff: "FirstFailureTimestamp e > 0"
    and cf: "NumberOfConsecutiveFailures e \<ge> PauseGenerationAfterFailedGenerationAttempts ic"
    and c0: "NumberOfCachedResponsesReturned e \<ge> 0"
  shows "entries cache0 k = Some (e\<lparr>NumberOfCachedResponsesReturned := NumberOfCachedResponsesReturned e + int m\<rparr>) \<Longrightarrow>
         reachable cache0 \<Longrightarrow>
         \<forall>now\<in>set nows. \<not> timeExit ic (FirstFailureTimestamp e) now \<Longrightarrow>
         NumberOfCachedResponsesReturned e + int m + int (length nows) \<le> PauseGenerationOnFailureForRequests ic \<Longrightarrow>
         serveRequests C ic hs keyOf q nows cache0 =
           map (\<lambda>i. ((None, Some (cachedErrorOf e)), servedFromCache cache0 k e (m + i + 1))) [0..<length nows]"
proof (induction nows arbitrary: cache0 m)
  case Nil
  then show ?case by simp
next
  case (Cons now nows)
  let ?e = "e\<lparr>NumberOfCachedResponsesReturned := NumberOfCachedResponsesReturned e + int m\<rparr>"
  let ?c1 = "cache0\<lparr>entries := (entries cache0)(k \<mapsto>
               ?e\<lparr>NumberOfCachedResponsesReturned := NumberOfCachedResponsesReturned ?e + 1\<rparr>)\<rparr>"
  have hit: "getManifestCacheEntry ic now cache0 k True = ((True, None, Some (cachedErrorOf ?e)), ?c1)"
    by (rule getManifestCacheEntry_paused) (use Cons.prems pa ff cf c0 in auto)
  have g: "GenerateManifest C ic hs now keyOf cache0 q =
             ((None, Some (cachedErrorOf e)), servedFromCache cache0 k e (Suc m))"
    by (simp add: GenerateManifest_probe_hit[OF nr nc pk hit] servedFromCache_def cachedErrorOf_def
          add.commute add.left_commute)
  have c1: "manifestCache (servedFromCache cache0 k e (Suc m)) = ?c1"
    by (simp add: servedFromCache_def add.commute add.left_commute)
  have IH: "serveRequests C ic hs keyOf q nows ?c1 =
          map (\<lambda>i. ((None, Some (cachedErrorOf e)), servedFromCache ?c1 k e (Suc m + i + 1))) [0..<length nows]"
    by (rule Cons.IH) (use Cons.prems in auto)
  have same: "servedFromCache ?c1 k e n = servedFromCache cache0 k e n" for n
    by (simp add: servedFromCache_def)
  have "serveRequests C ic hs keyOf q (now # nows) cache0 =
          ((None, Some (cachedErrorOf e)), servedFromCache cache0 k e (Suc m)) #
          map (\<lambda>i. ((None, Some (cachedErrorOf e)), servedFromCache cache0 k e (Suc m + i + 1))) [0..<length nows]"
    unfolding serveRequests.simps Let_def g snd_conv c1 IH same ..
  also have "\<dots> = map (\<lambda>i. ((None, Some (cachedErrorOf e)), servedFromCache cache0 k e (m + i + 1)))
                     [0..<length (now # nows)]"
    by (simp add: map_upt_Suc del: upt_Suc)
  finally show ?case .
qed


lemma asyncTrace_logEvent [simp]: "asyncTrace (logEvent e st) = asyncTrace st"
  by (simp add: logEvent_def)

lemma manifestCache_logEvent [simp]: "manifestCache (logEvent e st) = manifestCache st"
  by (simp add: logEvent_def)

lemma asyncTrace_awaitPromise [simp]: "asyncTrace (snd (awaitPromise err st)) = asyncTrace st"
  by (simp add: awaitPromise_def split: list.splits message.splits)

lemma runManifestGenAsync_renders:
  assumes "opContextSrc = Inr ctx" "\<not> isl (fst (lockReferencedSources C ic q commit))"
  shows "Render \<in> set (asyncEvents (runManifestGenAsync C ic now cache keyOf repoRoot commit cacheKey opContextSrc q))"
proof -
  obtain a evs where l0: "lockReferencedSources C ic q commit = (a, evs)"
    by (cases "lockReferencedSources C ic q commit")
  with assms(2) obtain rr where "a = Inr rr"
    by (cases a) auto
  with l0 have l: "lockReferencedSources C ic q commit = (Inr rr, evs)"
    by simp
  show ?thesis
    by (simp add: runManifestGenAsync_def assms(1) l Let_def split: sum.splits prod.splits)
qed

lemma GenerateManifest_operation_asyncTrace:
  assumes "\<not> (HasMultipleSources q \<and> Path (Request_ApplicationSource q) = [] \<and>
              Chart (Request_ApplicationSource q) = [])"
  shows "asyncTrace (snd (GenerateManifest_operation C ic now keyOf q repoRoot commit cacheKey ctxSrc st)) =
         asyncEvents (runManifestGenAsync C ic now (manifestCache st) keyOf repoRoot commit cacheKey ctxSrc q)"
  using assms
  by (auto simp: GenerateManifest_operation_def Let_def split: list.splits message.splits)

lemma runGitOperation_reaches_operation:
  assumes "repoLock_Lock C root revision (allowConcurrent settings) = None"
    and "symlinkGuard C ic ''repository'' root = None"
    and "(if hms then Inr revision else CommitSHA C root) = Inr commit"
    and "\<not> noCache settings"
    and "cacheFn revision repoRefs False (logEvent (Lock root revision) st) = ((False, e2), st2)"
  shows "runGitOperation C ic source vc cacheFn operation settings hms root revision unresolved repoRefs st =
          (fst (operation root commit revision (gitOperationContext C source vc root revision unresolved) st2),
           logEvent (Unlock root)
             (snd (operation root commit revision (gitOperationContext C source vc root revision unresolved) st2)))"
  using assms
  by (simp add: runGitOperation_def Let_def split: prod.splits)

lemma runExtractedOperation_reaches_operation:
  assumes "\<not> noCache settings"
    and "(if isOCI then Extract C revision else ExtractChart C (Chart source) revision) = Inr dir"
    and "symlinkGuard C ic (if isOCI then ''oci image'' else ''chart'') dir = None"
    and "if isOCI then appPath_Path C dir (Path source) = Inr p else p = dir"
  shows "runExtractedOperation C ic source operation settings isOCI revision st =
          (fst (operation dir revision revision (Inr \<lparr>appPath = p, verificationResult = []\<rparr>)
                  (logEvent (ExtractDir dir) st)),
           logEvent (CloseDir dir)
             (snd (operation dir revision revision (Inr \<lparr>appPath = p, verificationResult = []\<rparr>)
                     (logEvent (ExtractDir dir) st))))"
  using assms
  by (cases isOCI) (simp_all add: runExtractedOperation_def Let_def split: prod.splits)

lemma runRepoOperation_miss:
  assumes "resolvePrimary C repo source (FirstNonEmpty rev0 (TargetRevision source))
             (noCache settings \<or> noRevisionCache settings) = Inr (root, resolved)"
    and "resolveReferencedSources C hms (Helm source) refSources = Inr repoRefs"
    and "\<not> noCache settings"
    and "cacheFn resolved (map_of repoRefs) True st = ((False, e1), st1)"
    and "if sem settings then semAcquire C = None else True"
    and "body = (\<lambda>s.
           if IsOCI C source then
             runExtractedOperation C ic source operation settings True resolved s
           else if IsHelm C source then
             runExtractedOperation C ic source operation settings False resolved s
           else
             runGitOperation C ic source vc cacheFn operation settings hms root resolved
               (FirstNonEmpty rev0 (TargetRevision source)) (map_of repoRefs) s)"
  shows "runRepoOperation C ic rev0 repo source vc cacheFn operation settings hms refSources st =
          (if sem settings then
             (fst (body (logEvent SemAcquire st1)), logEvent SemRelease (snd (body (logEvent SemAcquire st1))))
           else body st1)"
  using assms(1-5) unfolding assms(6)
  by (simp add: runRepoOperation_def Let_def split: prod.splits)

lemma manifestCache_awaitPromise [simp]: "manifestCache (snd (awaitPromise err st)) = manifestCache st"
  by (simp add: awaitPromise_def logEvent_def split: list.splits message.splits)

lemma GenerateManifest_operation_manifestCache:
  assumes "\<not> (HasMultipleSources q \<and> Path (Request_ApplicationSource q) = [] \<and>
              Chart (Request_ApplicationSource q) = [])"
  shows "manifestCache (snd (GenerateManifest_operation C ic now keyOf q repoRoot commit cacheKey ctxSrc st)) =
         cacheAfter (runManifestGenAsync C ic now (manifestCache st) keyOf repoRoot commit cacheKey ctxSrc q)"
  using assms
  by (auto simp: GenerateManifest_operation_def Let_def logEvent_def split: list.splits message.splits)

lemma cachesAfterOperation_same [simp]: "c \<in> cachesAfterOperation C ic now keyOf q cacheKey c"
  by (simp add: cachesAfterOperation_def)

lemma manifestCache_operation:
  "manifestCache st = c \<Longrightarrow>
   manifestCache (snd (GenerateManifest_operation C ic now keyOf q repoRoot commit cacheKey ctxSrc st))
     \<in> cachesAfterOperation C ic now keyOf q cacheKey c"
proof (cases "HasMultipleSources q \<and> Path (Request_ApplicationSource q) = [] \<and>
              Chart (Request_ApplicationSource q) = []")
  case True
  assume "manifestCache st = c"
  with True show ?thesis by (simp add: GenerateManifest_operation_def)
next
  case False
  assume "manifestCache st = c"
  with GenerateManifest_operation_manifestCache[OF False, of C ic now keyOf repoRoot commit cacheKey ctxSrc st]
  show ?thesis
    unfolding cachesAfterOperation_def by blast
qed

lemma manifestCache_runExtractedOperation:
  "manifestCache (snd (runExtractedOperation C ic source (GenerateManifest_operation C ic now keyOf q)
                         settings isOCI revision st))
     \<in> cachesAfterOperation C ic now keyOf q revision (manifestCache st)"
proof (cases "if noCache settings
           then (if isOCI then CleanCache C revision else CleanChartCache C (Chart source) revision)
           else None")
  case (Some err)
  then show ?thesis by (simp add: runExtractedOperation_def)
next
  case None
  note cc = this
  show ?thesis
  proof (cases "if isOCI then Extract C revision else ExtractChart C (Chart source) revision")
    case (Inl err)
    then show ?thesis by (simp add: runExtractedOperation_def cc)
  next
    case (Inr dir)
    note ex = this
    let ?st1 = "logEvent (ExtractDir dir) st"
    have st1: "manifestCache ?st1 = manifestCache st" by simp
    define inner where "inner =
       (case symlinkGuard C ic (if isOCI then ''oci image'' else ''chart'') dir of
          Some err \<Rightarrow> (Some err, ?st1)
        | None \<Rightarrow>
            if isOCI then
              (case appPath_Path C dir (Path source) of
                 Inl err \<Rightarrow> (Some (ErrorString err), ?st1)
               | Inr p \<Rightarrow>
                   GenerateManifest_operation C ic now keyOf q dir revision revision
                     (Inr \<lparr>appPath = p, verificationResult = []\<rparr>) ?st1)
            else GenerateManifest_operation C ic now keyOf q dir revision revision
                   (Inr \<lparr>appPath = dir, verificationResult = []\<rparr>) ?st1)"
    have run: "runExtractedOperation C ic source (GenerateManifest_operation C ic now keyOf q)
                 settings isOCI revision st = (fst inner, logEvent (CloseDir dir) (snd inner))"
      by (simp add: runExtractedOperation_def cc ex inner_def Let_def split_beta)
    have "manifestCache (snd inner) \<in> cachesAfterOperation C ic now keyOf q revision (manifestCache st)"
    proof (cases "symlinkGuard C ic (if isOCI then ''oci image'' else ''chart'') dir")
      case (Some err)
      then show ?thesis by (simp add: inner_def)
    next
      case None
      note sg = this
      show ?thesis
      proof (cases isOCI)
        case True
        note oci = this
        show ?thesis
        proof (cases "appPath_Path C dir (Path source)")
          case (Inl err)
          then show ?thesis using oci sg by (simp add: inner_def)
        next
          case (Inr p)
          from manifestCache_operation[OF st1, of C ic now keyOf q dir revision revision
                 "Inr \<lparr>appPath = p, verificationResult = []\<rparr>"]
          show ?thesis using oci sg Inr by (simp add: inner_def)
        qed
      next
        case False
        from manifestCache_operation[OF st1, of C ic now keyOf q dir revision revision
               "Inr \<lparr>appPath = dir, verificationResult = []\<rparr>"]
        show ?thesis using False sg by (simp add: inner_def)
      qed
    qed
    then show ?thesis by (simp add: run)
  qed
qed

lemma manifestCache_runGitOperation:
  assumes probe: "noCache settings \<or>
      snd (getManifestCacheEntry ic now (manifestCache st) (keyOf revision refs) False) = manifestCache st"
  shows "manifestCache (snd (runGitOperation C ic source vc (GenerateManifest_cacheFn ic now keyOf)
                 (GenerateManifest_operation C ic now keyOf q) settings hms root revision unresolved refs st))
     \<in> cachesAfterOperation C ic now keyOf q revision (manifestCache st)"
proof (cases "repoLock_Lock C root revision (allowConcurrent settings)")
  case (Some err)
  then show ?thesis by (simp add: runGitOperation_def)
next
  case None
  let ?st1 = "logEvent (Lock root revision) st"
  define inner where "inner =
     (case symlinkGuard C ic ''repository'' root of
               Some err \<Rightarrow> (Some err, ?st1)
             | None \<Rightarrow>
                 (case (if hms then Inr revision else CommitSHA C root) of
                    Inl err \<Rightarrow> (Some (ErrorString (''failed to get commit SHA: '' @ err)), ?st1)
                  | Inr commit \<Rightarrow>
                      (case (if \<not> noCache settings then GenerateManifest_cacheFn ic now keyOf revision refs False ?st1
                             else ((False, None), ?st1)) of
                         ((ok, err), st2) \<Rightarrow>
                           if ok then (err, st2)
                           else GenerateManifest_operation C ic now keyOf q root commit revision
                                  (gitOperationContext C source vc root revision unresolved)
                                  st2)))"
  have run: "runGitOperation C ic source vc (GenerateManifest_cacheFn ic now keyOf)
                 (GenerateManifest_operation C ic now keyOf q) settings hms root revision unresolved refs st
             = (fst inner, logEvent (Unlock root) (snd inner))"
    by (simp add: runGitOperation_def None inner_def Let_def split_beta)
  have "manifestCache (snd inner) \<in> cachesAfterOperation C ic now keyOf q revision (manifestCache st)"
  proof (cases "symlinkGuard C ic ''repository'' root")
    case (Some err)
    then show ?thesis by (simp add: inner_def)
  next
    case None
    note sg = this
    show ?thesis
    proof (cases "if hms then Inr revision else CommitSHA C root")
      case (Inl err)
      then show ?thesis by (simp add: inner_def sg)
    next
      case (Inr commit)
      obtain ok err st2 where p: "(if \<not> noCache settings then GenerateManifest_cacheFn ic now keyOf revision refs False ?st1
                             else ((False, None), ?st1)) = ((ok, err), st2)"
        by (metis surj_pair)
      have c2: "manifestCache st2 = manifestCache st"
      proof (cases "noCache settings")
        case True
        with p show ?thesis by auto
      next
        case False
        with p have "st2 = snd (GenerateManifest_cacheFn ic now keyOf revision refs False ?st1)"
          by simp
        then show ?thesis
          using probe False by (simp add: GenerateManifest_cacheFn_def split_beta)
      qed
      show ?thesis
      proof (cases ok)
        case True
        then show ?thesis using p c2 by (simp add: inner_def sg Inr)
      next
        case False
        from manifestCache_operation[OF c2, of C ic now keyOf q root commit revision
               "gitOperationContext C source vc root revision unresolved"]
        show ?thesis using p False by (simp add: inner_def sg Inr)
      qed
    qed
  qed
  then show ?thesis by (simp add: run)
qed

lemma manifestCache_runRepoOperation:
  assumes rp: "resolvePrimary C repo source (FirstNonEmpty rev0 (TargetRevision source))
             (noCache settings \<or> noRevisionCache settings) = Inr (root, resolved)"
    and rs: "resolveReferencedSources C hms (Helm source) refSources = Inr repoRefs"
    and nc: "\<not> noCache settings"
    and p1: "getManifestCacheEntry ic now (manifestCache st) (keyOf resolved (map_of repoRefs)) True =
               ((False, r1, e1), c1)"
    and p2: "snd (getManifestCacheEntry ic now c1 (keyOf resolved (map_of repoRefs)) False) = c1"
  shows "manifestCache (snd (runRepoOperation C ic rev0 repo source vc (GenerateManifest_cacheFn ic now keyOf)
                 (GenerateManifest_operation C ic now keyOf q) settings hms refSources st))
           \<in> cachesAfterOperation C ic now keyOf q resolved c1"
proof -
  let ?cacheFn = "GenerateManifest_cacheFn ic now keyOf"
  let ?op = "GenerateManifest_operation C ic now keyOf q"
  let ?st1 = "st\<lparr>res := r1, manifestCache := c1\<rparr>"
  have cf1: "?cacheFn resolved (map_of repoRefs) True st = ((False, e1), ?st1)"
    by (simp add: GenerateManifest_cacheFn_def p1)
  define body where "body = (\<lambda>s.
           if IsOCI C source then
             runExtractedOperation C ic source ?op settings True resolved s
           else if IsHelm C source then
             runExtractedOperation C ic source ?op settings False resolved s
           else
             runGitOperation C ic source vc ?cacheFn ?op settings hms root resolved
               (FirstNonEmpty rev0 (TargetRevision source)) (map_of repoRefs) s)"
  have b: "manifestCache (snd (body s)) \<in> cachesAfterOperation C ic now keyOf q resolved c1"
    if "manifestCache s = c1" for s
    unfolding body_def
    using manifestCache_runExtractedOperation[of C ic source now keyOf q settings True resolved s]
          manifestCache_runExtractedOperation[of C ic source now keyOf q settings False resolved s]
          manifestCache_runGitOperation[of settings ic now s keyOf resolved "map_of repoRefs" C source vc q
             hms root "FirstNonEmpty rev0 (TargetRevision source)"]
          p2 that
    by auto
  show ?thesis
  proof (cases "sem settings")
    case False
    have "runRepoOperation C ic rev0 repo source vc ?cacheFn ?op settings hms refSources st = body ?st1"
      using rp rs nc cf1 False by (simp add: runRepoOperation_def Let_def body_def)
    then show ?thesis using b[of ?st1] by simp
  next
    case True
    show ?thesis
    proof (cases "semAcquire C")
      case (Some e)
      then have "runRepoOperation C ic rev0 repo source vc ?cacheFn ?op settings hms refSources st =
                   (Some (ErrorString e), ?st1)"
        using rp rs nc cf1 True by (simp add: runRepoOperation_def Let_def)
      then show ?thesis by simp
    next
      case None
      then have "runRepoOperation C ic rev0 repo source vc ?cacheFn ?op settings hms refSources st =
                   (fst (body (logEvent SemAcquire ?st1)),
                    logEvent SemRelease (snd (body (logEvent SemAcquire ?st1))))"
        using rp rs nc cf1 True by (simp add: runRepoOperation_def Let_def body_def split_beta)
      then show ?thesis using b[of "logEvent SemAcquire ?st1"] by simp
    qed
  qed
qed

lemma GenerateManifest_exit_deletes:
  assumes nr: "\<not> refOnly C q" and nc: "\<not> NoCache q"
    and pk: "probeKey C keyOf q = Some (root, resolved, k)"
    and re: "reachable cache" and en: "entries cache k = Some e"
    and pa: "PauseGenerationAfterFailedGenerationAttempts ic > 0"
    and ff: "FirstFailureTimestamp e > 0"
    and cf: "NumberOfConsecutiveFailures e \<ge> PauseGenerationAfterFailedGenerationAttempts ic"
    and pr: "PauseGenerationOnFailureForRequests ic > 0"
    and cr: "NumberOfCachedResponsesReturned e \<ge> PauseGenerationOnFailureForRequests ic"
  shows "manifestCache (snd (GenerateManifest C ic hs now keyOf cache q))
           \<in> cachesAfterOperation C ic now keyOf q resolved (cache\<lparr>entries := (entries cache)(k := None)\<rparr>)"
proof -
  let ?src = "Request_ApplicationSource q"
  let ?settings = "\<lparr>sem = hs, noCache = NoCache q, noRevisionCache = NoRevisionCache q,
                     allowConcurrent = AllowsConcurrentProcessing C ?src\<rparr>"
  let ?st0 = "\<lparr>res = None, manifestCache = cache, promise = [], tarConcluded = False,
                trace = [], asyncTrace = []\<rparr>"
  let ?cdel = "cache\<lparr>entries := (entries cache)(k := None)\<rparr>"
  from pk obtain repoRefs where
    rp: "resolvePrimary C (Request_Repo q) ?src (FirstNonEmpty (Request_Revision q) (TargetRevision ?src))
           (NoCache q \<or> NoRevisionCache q) = Inr (root, resolved)"
    and rr: "resolveReferencedSources C (HasMultipleSources q) (Helm ?src) (RefSources q) = Inr repoRefs"
    and k: "k = keyOf resolved (map_of repoRefs)"
    by (rule probeKeyD)
  have p1: "getManifestCacheEntry ic now cache k True = ((False, None, None), ?cdel)"
    by (rule getManifestCacheEntry_exit[OF re en pa ff cf pr cr])
  have p2: "getManifestCacheEntry ic now ?cdel k False = ((False, None, None), ?cdel)"
    by (rule getManifestCacheEntry_miss) (simp_all add: re)
  have "manifestCache (snd (runRepoOperation C ic (Request_Revision q) (Request_Repo q) ?src
               (VerifySignature q) (GenerateManifest_cacheFn ic now keyOf)
               (GenerateManifest_operation C ic now keyOf q) ?settings (HasMultipleSources q)
               (RefSources q) ?st0))
          \<in> cachesAfterOperation C ic now keyOf q resolved ?cdel"
    by (rule manifestCache_runRepoOperation[where root = root and repoRefs = repoRefs
              and ?r1.0 = None and ?e1.0 = None])
       (use rp rr nc p1 p2 in \<open>simp_all add: k[symmetric]\<close>)
  then show ?thesis
    using nr by (simp add: GenerateManifest_def Let_def split_beta)
qed

lemma GenerateManifest_exit_renders:
  assumes nr: "\<not> refOnly C q" and nc: "\<not> NoCache q"
    and pk: "probeKey C keyOf q = Some (root, resolved, k)"
    and re: "reachable cache" and en: "entries cache k = Some e"
    and pa: "PauseGenerationAfterFailedGenerationAttempts ic > 0"
    and ff: "FirstFailureTimestamp e > 0"
    and cf: "NumberOfConsecutiveFailures e \<ge> PauseGenerationAfterFailedGenerationAttempts ic"
    and pr: "PauseGenerationOnFailureForRequests ic > 0"
    and cr: "NumberOfCachedResponsesReturned e \<ge> PauseGenerationOnFailureForRequests ic"
    and ok: "acquisitionOk C ic hs q root resolved"
    and acq: "acquiredSource C q root resolved = (repoRoot, commit, ctxSrc)"
    and render: "render = runManifestGenAsync C ic now (cache\<lparr>entries := (entries cache)(k := None)\<rparr>)
                            keyOf repoRoot commit resolved ctxSrc q"
  shows "Render \<in> set (asyncEvents render) \<and>
         asyncTrace (snd (GenerateManifest C ic hs now keyOf cache q)) = asyncEvents render \<and>
         manifestCache (snd (GenerateManifest C ic hs now keyOf cache q)) = cacheAfter render"
proof -
  let ?src = "Request_ApplicationSource q"
  let ?rev0 = "FirstNonEmpty (Request_Revision q) (TargetRevision ?src)"
  let ?settings = "\<lparr>sem = hs, noCache = NoCache q, noRevisionCache = NoRevisionCache q,
                     allowConcurrent = AllowsConcurrentProcessing C ?src\<rparr>"
  let ?cacheFn = "GenerateManifest_cacheFn ic now keyOf"
  let ?op = "GenerateManifest_operation C ic now keyOf q"
  let ?st0 = "\<lparr>res = None, manifestCache = cache, promise = [], tarConcluded = False,
                trace = [], asyncTrace = []\<rparr>"
  let ?cdel = "cache\<lparr>entries := (entries cache)(k := None)\<rparr>"
  let ?st1 = "?st0\<lparr>res := None, manifestCache := ?cdel\<rparr>"
  from pk obtain repoRefs where
    rp: "resolvePrimary C (Request_Repo q) ?src ?rev0 (NoCache q \<or> NoRevisionCache q) = Inr (root, resolved)"
    and rr: "resolveReferencedSources C (HasMultipleSources q) (Helm ?src) (RefSources q) = Inr repoRefs"
    and k: "k = keyOf resolved (map_of repoRefs)"
    by (rule probeKeyD)
  from ok have semok: "if hs then semAcquire C = None else True"
    and notskip: "\<not> (HasMultipleSources q \<and> Path ?src = [] \<and> Chart ?src = [])"
    unfolding acquisitionOk_def Let_def by auto
  have p1: "getManifestCacheEntry ic now cache k True = ((False, None, None), ?cdel)"
    by (rule getManifestCacheEntry_exit[OF re en pa ff cf pr cr])
  have cf1: "?cacheFn resolved (map_of repoRefs) True ?st0 = ((False, None), ?st1)"
    by (simp add: GenerateManifest_cacheFn_def k[symmetric] p1)
  have p2: "getManifestCacheEntry ic now ?cdel k False = ((False, None, None), ?cdel)"
    by (rule getManifestCacheEntry_miss) (simp_all add: re)
  have cf2: "?cacheFn resolved (map_of repoRefs) False (logEvent (Lock root resolved) sX) =
               ((False, None), (logEvent (Lock root resolved) sX)\<lparr>res := None, manifestCache := ?cdel\<rparr>)"
    if "manifestCache sX = ?cdel" for sX
    using that by (simp add: GenerateManifest_cacheFn_def k[symmetric] p2)
  define body where "body = (\<lambda>s.
           if IsOCI C ?src then
             runExtractedOperation C ic ?src ?op ?settings True resolved s
           else if IsHelm C ?src then
             runExtractedOperation C ic ?src ?op ?settings False resolved s
           else
             runGitOperation C ic ?src (VerifySignature q) ?cacheFn ?op ?settings (HasMultipleSources q)
               root resolved ?rev0 (map_of repoRefs) s)"
  have renders: "Render \<in> set (asyncEvents render) \<and>
                 asyncTrace (snd (body sX)) = asyncEvents render \<and>
                 manifestCache (snd (body sX)) = cacheAfter render"
    if mc: "manifestCache sX = ?cdel" for sX
  proof (cases "IsOCI C ?src \<or> IsHelm C ?src")
    case True
    define isOCI where "isOCI = IsOCI C ?src"
    have b: "body sX = runExtractedOperation C ic ?src ?op ?settings isOCI resolved sX"
      using True by (auto simp: body_def isOCI_def)
    from ok True obtain dir where
      ex: "(if isOCI then Extract C resolved else ExtractChart C (Chart ?src) resolved) = Inr dir"
      and sym: "symlinkGuard C ic (if isOCI then ''oci image'' else ''chart'') dir = None"
      and ap: "isOCI \<longrightarrow> \<not> isl (appPath_Path C dir (Path ?src))"
      and refs: "\<not> isl (fst (lockReferencedSources C ic q resolved))"
      unfolding acquisitionOk_def Let_def isOCI_def
      by (auto split: sum.splits if_splits)
    obtain p where p: "if isOCI then appPath_Path C dir (Path ?src) = Inr p else p = dir"
      using ap by (cases isOCI; cases "appPath_Path C dir (Path ?src)") auto
    have "acquiredSource C q root resolved =
            (dir, resolved, Inr \<lparr>appPath = p, verificationResult = []\<rparr>)"
      using True ex p by (auto simp: acquiredSource_def Let_def isOCI_def split: if_splits)
    with acq have a: "repoRoot = dir" "commit = resolved"
        "ctxSrc = Inr \<lparr>appPath = p, verificationResult = []\<rparr>"
      by simp_all
    have "asyncTrace (snd (body sX)) = asyncEvents render \<and>
          manifestCache (snd (body sX)) = cacheAfter render"
      unfolding b render a
      by (subst (1 2) runExtractedOperation_reaches_operation[where dir = dir and p = p])
         (use nc ex sym p mc in \<open>simp_all add: GenerateManifest_operation_asyncTrace[OF notskip]
              GenerateManifest_operation_manifestCache[OF notskip]\<close>)
    then show ?thesis
      using runManifestGenAsync_renders[OF refl refs] by (simp add: render a)
  next
    case False
    then have b: "body sX = runGitOperation C ic ?src (VerifySignature q) ?cacheFn ?op ?settings
                     (HasMultipleSources q) root resolved ?rev0 (map_of repoRefs) sX"
      by (simp add: body_def)
    let ?ctx = "gitOperationContext C ?src (VerifySignature q) root resolved ?rev0"
    from ok False obtain commit' where
      lock: "repoLock_Lock C root resolved (AllowsConcurrentProcessing C ?src) = None"
      and sym: "symlinkGuard C ic ''repository'' root = None"
      and com: "(if HasMultipleSources q then Inr resolved else CommitSHA C root) = Inr commit'"
      and ctx: "\<not> isl ?ctx"
      and refs: "\<not> isl (fst (lockReferencedSources C ic q commit'))"
      unfolding acquisitionOk_def Let_def
      by (cases "if HasMultipleSources q then Inr resolved else CommitSHA C root") auto
    from ctx obtain c where c: "?ctx = Inr c" by (cases ?ctx) auto
    have "acquiredSource C q root resolved = (root, commit', ?ctx)"
      using False com by (simp add: acquiredSource_def Let_def)
    with acq have a: "repoRoot = root" "commit = commit'" "ctxSrc = ?ctx"
      by auto
    have "asyncTrace (snd (body sX)) = asyncEvents render \<and>
          manifestCache (snd (body sX)) = cacheAfter render"
      unfolding b render a
      by (subst (1 2) runGitOperation_reaches_operation[where commit = commit' and ?e2.0 = None
            and ?st2.0 = "(logEvent (Lock root resolved) sX)\<lparr>res := None, manifestCache := ?cdel\<rparr>"])
         (use sym com lock nc cf2[OF mc] in
            \<open>simp_all add: GenerateManifest_operation_asyncTrace[OF notskip]
                 GenerateManifest_operation_manifestCache[OF notskip]\<close>)
    then show ?thesis
      using runManifestGenAsync_renders[OF c refs] by (simp add: render a)
  qed
  have run: "runRepoOperation C ic (Request_Revision q) (Request_Repo q) ?src
               (VerifySignature q) ?cacheFn ?op ?settings (HasMultipleSources q) (RefSources q) ?st0
             = (if hs then
                  (fst (body (logEvent SemAcquire ?st1)), logEvent SemRelease (snd (body (logEvent SemAcquire ?st1))))
                else body ?st1)"
    by (subst runRepoOperation_miss[where root = root and resolved = resolved and repoRefs = repoRefs
            and ?e1.0 = None and ?st1.0 = ?st1 and body = body])
       (use rp rr nc cf1 semok in \<open>simp_all add: body_def\<close>)
  have gm: "GenerateManifest C ic hs now keyOf cache q =
              awaitPromise
                (fst (runRepoOperation C ic (Request_Revision q) (Request_Repo q) ?src
                  (VerifySignature q) ?cacheFn ?op ?settings (HasMultipleSources q) (RefSources q) ?st0))
                (snd (runRepoOperation C ic (Request_Revision q) (Request_Repo q) ?src
                  (VerifySignature q) ?cacheFn ?op ?settings (HasMultipleSources q) (RefSources q) ?st0))"
    using nr by (simp add: GenerateManifest_def Let_def split_beta)
  show ?thesis
    unfolding gm run using renders[of ?st1] renders[of "logEvent SemAcquire ?st1"] by simp
qed


lemma serveRequests_append:
  "serveRequests C ic hs keyOf q (xs @ ys) cache =
     serveRequests C ic hs keyOf q xs cache @
     serveRequests C ic hs keyOf q ys (cacheAfterRequests C ic hs keyOf q xs cache)"
  by (induction xs arbitrary: cache) (simp_all add: Let_def)

lemma serveRequests_Nil_iff [simp]: "serveRequests C ic hs keyOf q xs cache = [] \<longleftrightarrow> xs = []"
  by (cases xs) (simp_all add: Let_def)

lemma cacheAfterRequests_last:
  "xs \<noteq> [] \<Longrightarrow> cacheAfterRequests C ic hs keyOf q xs cache =
     manifestCache (snd (last (serveRequests C ic hs keyOf q xs cache)))"
proof (induction xs arbitrary: cache)
  case Nil
  then show ?case by simp
next
  case (Cons a xs)
  show ?case
  proof (cases "xs = []")
    case True
    then show ?thesis by (simp add: Let_def)
  next
    case False
    with Cons.IH show ?thesis by (simp add: Let_def)
  qed
qed

text \<open>
  C1 (as amended). A request with caching enabled whose store is reachable finds at its
  key a failure record with exactly \<open>pauseAfterFailures\<close> consecutive failures
  (\<open>pauseAfterFailures > 0\<close>), a first failure time, and no error served yet. If
  \<open>pauseRequests > 0\<close> and the pause by time is off or has not elapsed at any of the next
  \<open>pauseRequests\<close> reads, each of these reads returns the error
  \<open>Manifest generation error (cached): \<close> followed by the most recent error, without
  acquiring or rendering anything, and adds one to the number of cached responses
  returned. The read after them deletes the record: the cache it leaves is the cache
  without the record, or what a run of \<open>runManifestGenAsync\<close> started on the cache without
  the record leaves. When the acquisition of the source succeeds, this read invokes the
  renderer, on the cache without the record.
\<close>

theorem negative_entry_backoff:
  assumes nr: "\<not> refOnly C q" and nc: "\<not> NoCache q"
    and pk: "probeKey C keyOf q = Some (root, resolved, k)"
    and re: "reachable cache" and en: "entries cache k = Some e"
    and pa: "0 < PauseGenerationAfterFailedGenerationAttempts ic"
    and pr: "0 < PauseGenerationOnFailureForRequests ic"
    and ex: "NumberOfConsecutiveFailures e = PauseGenerationAfterFailedGenerationAttempts ic"
    and ff: "0 < FirstFailureTimestamp e"
    and c0: "NumberOfCachedResponsesReturned e = 0"
    and len: "int (length nows) = PauseGenerationOnFailureForRequests ic"
    and tm: "\<forall>now\<in>set nows. \<not> timeExit ic (FirstFailureTimestamp e) now"
    and rd: "reads = serveRequests C ic hs keyOf q (nows @ [now']) cache"
    and dl: "deleted = cache\<lparr>entries := (entries cache)(k := None)\<rparr>"
    and acq: "acquiredSource C q root resolved = (repoRoot, commit, ctxSrc)"
    and rn: "render = runManifestGenAsync C ic now' deleted keyOf repoRoot commit resolved ctxSrc q"
  shows "(\<forall>i<length nows.
            reads ! i = ((None, Some (cachedErrorOf e)), servedFromCache cache k e (i + 1))) \<and>
         manifestCache (snd (reads ! length nows)) \<in> cachesAfterOperation C ic now' keyOf q resolved deleted \<and>
         (acquisitionOk C ic hs q root resolved \<longrightarrow>
            Render \<in> set (asyncEvents render) \<and>
            asyncTrace (snd (reads ! length nows)) = asyncEvents render \<and>
            manifestCache (snd (reads ! length nows)) = cacheAfter render)"
proof -
  let ?rs = "serveRequests C ic hs keyOf q nows cache"
  let ?n = "length nows"
  have e0: "e\<lparr>NumberOfCachedResponsesReturned := NumberOfCachedResponsesReturned e + int 0\<rparr> = e"
    by simp
  have rs: "?rs = map (\<lambda>i. ((None, Some (cachedErrorOf e)), servedFromCache cache k e (0 + i + 1))) [0..<?n]"
    by (rule serveRequests_paused[OF nr nc pk re pa ff _ _ _ re tm])
       (use ex c0 en len in \<open>simp_all add: e0\<close>)
  have lrs: "length ?rs = ?n"
    by (simp add: rs)
  from pr len have npos: "?n > 0" by auto
  then have ne: "nows \<noteq> []" by auto
  have lastrs: "last ?rs = ((None, Some (cachedErrorOf e)), servedFromCache cache k e ?n)"
  proof -
    have "?rs \<noteq> []" using lrs npos by auto
    then have "last ?rs = ?rs ! (?n - 1)" by (simp add: last_conv_nth lrs)
    also have "\<dots> = ((None, Some (cachedErrorOf e)), servedFromCache cache k e ?n)"
      using npos by (simp add: rs)
    finally show ?thesis .
  qed
  let ?cn = "manifestCache (servedFromCache cache k e ?n)"
  let ?en = "e\<lparr>NumberOfCachedResponsesReturned := NumberOfCachedResponsesReturned e + int ?n\<rparr>"
  have all: "reads = ?rs @ [GenerateManifest C ic hs now' keyOf ?cn q]"
    unfolding rd
    by (simp add: serveRequests_append cacheAfterRequests_last[OF ne] lastrs Let_def)
  have first: "reads ! i = ((None, Some (cachedErrorOf e)), servedFromCache cache k e (i + 1))"
    if "i < ?n" for i
    using that by (simp add: all nth_append lrs) (simp add: rs)
  have lastread: "reads ! ?n = GenerateManifest C ic hs now' keyOf ?cn q"
    by (simp add: all nth_append lrs)
  have cn: "reachable ?cn" "entries ?cn k = Some ?en"
    by (simp_all add: servedFromCache_def re)
  have en': "0 < FirstFailureTimestamp ?en"
      "PauseGenerationAfterFailedGenerationAttempts ic \<le> NumberOfConsecutiveFailures ?en"
      "PauseGenerationOnFailureForRequests ic \<le> NumberOfCachedResponsesReturned ?en"
    using ff ex c0 len by simp_all
  have del: "?cn\<lparr>entries := (entries ?cn)(k := None)\<rparr> = deleted"
    by (simp add: servedFromCache_def dl)
  have gone: "manifestCache (snd (reads ! ?n)) \<in> cachesAfterOperation C ic now' keyOf q resolved deleted"
    unfolding lastread
    using GenerateManifest_exit_deletes[OF nr nc pk cn pa en'(1,2) pr en'(3), of hs now']
    by (simp only: del)
  have again: "Render \<in> set (asyncEvents render) \<and>
            asyncTrace (snd (reads ! ?n)) = asyncEvents render \<and>
            manifestCache (snd (reads ! ?n)) = cacheAfter render"
    if ok: "acquisitionOk C ic hs q root resolved"
    unfolding lastread
    by (rule GenerateManifest_exit_renders[OF nr nc pk cn pa en'(1,2) pr en'(3) ok acq])
       (simp add: rn del)
  from first gone again show ?thesis by blast
qed

lemmas sample_defs = sampleCollaborators_def sampleRequest_def sampleKeyOf_def backoff_def
  emptyCache_def boomEntry_def boomCache_def gitSource_def sampleHelm_def

lemmas gen_defs = GenerateManifest_def runRepoOperation_def runGitOperation_def
  GenerateManifest_cacheFn_def GenerateManifest_operation_def runManifestGenAsync_def
  lockReferencedSources_def cacheFailure_def getManifestCacheEntry_def GetManifests_def
  SetManifests_def DeleteManifests_def awaitPromise_def refOnly_def resolvePrimary_def
  resolveReferencedSources_def symlinkGuard_def gitOperationContext_def logEvent_def
  FirstNonEmpty_def HasPrefix_def unlocks_def cachedManifestGenerationPrefix_def

lemma sample_probeKey:
  "probeKey sampleCollaborators sampleKeyOf sampleRequest =
     Some (''/tmp/_argocd-repo/repo1'', ''sha-of-main'', (''sha-of-main'', Map.empty))"
  by (simp add: probeKey_def sample_defs gen_defs)

theorem negative_entry_backoff_witness:
  "fst (serveRequests sampleCollaborators (backoff 3 1440 2) False sampleKeyOf sampleRequest
          [1060, 1120, 1180] boomCache ! 0) =
     (None, Some (ErrorString ''Manifest generation error (cached): boom'')) \<and>
   fst (serveRequests sampleCollaborators (backoff 3 1440 2) False sampleKeyOf sampleRequest
          [1060, 1120, 1180] boomCache ! 1) =
     (None, Some (ErrorString ''Manifest generation error (cached): boom'')) \<and>
   entries (manifestCache (snd (serveRequests sampleCollaborators (backoff 3 1440 2) False sampleKeyOf
          sampleRequest [1060, 1120, 1180] boomCache ! 1))) (''sha-of-main'', Map.empty) =
     Some (boomEntry\<lparr>NumberOfCachedResponsesReturned := 2\<rparr>) \<and>
   asyncTrace (snd (serveRequests sampleCollaborators (backoff 3 1440 2) False sampleKeyOf
          sampleRequest [1060, 1120, 1180] boomCache ! 2)) = [Render] \<and>
   manifestCache (snd (serveRequests sampleCollaborators (backoff 3 1440 2) False sampleKeyOf
          sampleRequest [1060, 1120, 1180] boomCache ! 2)) =
     \<lparr>entries = [(''sha-of-main'', Map.empty) \<mapsto>
         \<lparr>ManifestResponse = None, MostRecentError = ''boom'', FirstFailureTimestamp = 1180,
          NumberOfConsecutiveFailures = 1, NumberOfCachedResponsesReturned = 0\<rparr>],
      reachable = True\<rparr>"
proof -
  let ?reads = "serveRequests sampleCollaborators (backoff 3 1440 2) False sampleKeyOf sampleRequest
          [1060, 1120, 1180] boomCache"
  let ?deleted = "boomCache\<lparr>entries := (entries boomCache)((''sha-of-main'', Map.empty) := None)\<rparr>"
  let ?render = "runManifestGenAsync sampleCollaborators (backoff 3 1440 2) 1180 ?deleted sampleKeyOf
       ''/tmp/_argocd-repo/repo1'' ''abc123'' ''sha-of-main''
       (Inr \<lparr>appPath = ''/tmp/_argocd-repo/repo1/.'', verificationResult = []\<rparr>) sampleRequest"
  have ok: "acquisitionOk sampleCollaborators (backoff 3 1440 2) False sampleRequest
              ''/tmp/_argocd-repo/repo1'' ''sha-of-main''"
    by (simp add: acquisitionOk_def sample_defs gen_defs Let_def)
  have acq: "acquiredSource sampleCollaborators sampleRequest ''/tmp/_argocd-repo/repo1'' ''sha-of-main'' =
               (''/tmp/_argocd-repo/repo1'', ''abc123'',
                Inr \<lparr>appPath = ''/tmp/_argocd-repo/repo1/.'', verificationResult = []\<rparr>)"
    by (simp add: acquiredSource_def sample_defs gen_defs Let_def)
  have nr: "\<not> refOnly sampleCollaborators sampleRequest"
    by (simp add: sample_defs gen_defs)
  have tm: "\<forall>now\<in>set [1060, 1120]. \<not> timeExit (backoff 3 1440 2) (FirstFailureTimestamp boomEntry) now"
    by (simp add: timeExit_def backoff_def boomEntry_def)
  have rd: "?reads = serveRequests sampleCollaborators (backoff 3 1440 2) False sampleKeyOf sampleRequest
          ([1060, 1120] @ [1180]) boomCache"
    by simp
  have T: "(\<forall>i<length [1060, 1120 :: int].
            ?reads ! i = ((None, Some (cachedErrorOf boomEntry)),
               servedFromCache boomCache (''sha-of-main'', Map.empty) boomEntry (i + 1))) \<and>
         manifestCache (snd (?reads ! length [1060, 1120 :: int]))
           \<in> cachesAfterOperation sampleCollaborators (backoff 3 1440 2) 1180 sampleKeyOf sampleRequest
                ''sha-of-main'' ?deleted \<and>
         (acquisitionOk sampleCollaborators (backoff 3 1440 2) False sampleRequest
              ''/tmp/_argocd-repo/repo1'' ''sha-of-main'' \<longrightarrow>
            Render \<in> set (asyncEvents ?render) \<and>
            asyncTrace (snd (?reads ! length [1060, 1120 :: int])) = asyncEvents ?render \<and>
            manifestCache (snd (?reads ! length [1060, 1120 :: int])) = cacheAfter ?render)"
    by (rule negative_entry_backoff[OF nr _ sample_probeKey _ _ _ _ _ _ _ _ tm rd refl acq refl])
       (simp_all add: sampleRequest_def boomCache_def boomEntry_def backoff_def)
  have len: "length [1060, 1120 :: int] = 2" by simp
  have ce: "cachedErrorOf boomEntry = ErrorString ''Manifest generation error (cached): boom''"
    by (simp add: cachedErrorOf_def boomEntry_def)
  note A = T[THEN conjunct1, rule_format, unfolded ce]
  note B = T[THEN conjunct2, THEN conjunct2, THEN mp, OF ok, unfolded len]
  have render: "?render =
     \<lparr>sent = [ErrMsg (ErrorString ''boom'')],
      cacheAfter = \<lparr>entries = [(''sha-of-main'', Map.empty) \<mapsto>
         \<lparr>ManifestResponse = None, MostRecentError = ''boom'', FirstFailureTimestamp = 1180,
          NumberOfConsecutiveFailures = 1, NumberOfCachedResponsesReturned = 0\<rparr>],
        reachable = True\<rparr>,
      asyncEvents = [Render]\<rparr>"
    by (simp add: sample_defs gen_defs Let_def)
  have a0: "fst (?reads ! 0) = (None, Some (ErrorString ''Manifest generation error (cached): boom''))"
    by (subst A) simp_all
  have a1: "fst (?reads ! 1) = (None, Some (ErrorString ''Manifest generation error (cached): boom''))"
    by (subst A) simp_all
  have a2: "entries (manifestCache (snd (?reads ! 1))) (''sha-of-main'', Map.empty) =
              Some (boomEntry\<lparr>NumberOfCachedResponsesReturned := 2\<rparr>)"
    by (subst A) (simp_all add: servedFromCache_def boomEntry_def)
  have a3: "asyncTrace (snd (?reads ! 2)) = [Render]"
    using B by (simp only: render AsyncResult.simps)
  have a4: "manifestCache (snd (?reads ! 2)) =
     \<lparr>entries = [(''sha-of-main'', Map.empty) \<mapsto>
         \<lparr>ManifestResponse = None, MostRecentError = ''boom'', FirstFailureTimestamp = 1180,
          NumberOfConsecutiveFailures = 1, NumberOfCachedResponsesReturned = 0\<rparr>],
      reachable = True\<rparr>"
    using B by (simp only: render AsyncResult.simps)
  from a0 a1 a2 a3 a4 show ?thesis
    by (intro conjI)
qed

text \<open>
  C1 as stated fails in two ways. With \<open>pauseRequests = 0\<close> and the pause by time off the
  record is never deleted: the read after zero served errors does not invoke the
  renderer. With \<open>pauseMinutes = 1\<close> a read one minute after the first failure invokes
  the renderer although no error has been served.
\<close>

theorem negative_entry_backoff_counterexample:
  "Render \<notin> set (asyncTrace (snd (GenerateManifest sampleCollaborators (backoff 3 0 0) False 1060
       sampleKeyOf boomCache sampleRequest))) \<and>
   Render \<in> set (asyncTrace (snd (GenerateManifest sampleCollaborators (backoff 3 1 2) False 1060
       sampleKeyOf boomCache sampleRequest)))"
  by (simp add: sample_defs gen_defs Let_def)

text \<open>
  C7. When the renderer succeeds, \<open>runManifestGenAsync\<close> writes at the key of the request
  an entry holding the response with all failure fields reset: no most recent error, no
  first failure time, no consecutive failures and no cached responses returned,
  whatever the key held before.
\<close>

theorem success_resets_failure_record:
  assumes "reachable cache" "opContextSrc = Inr ctx"
    and "lockReferencedSources C ic q commit = (Inr repoRefs, evs)"
    and "renderResult (GenerateManifests C (appPath ctx) repoRoot commit) = Inr result"
  shows "entries (cacheAfter (runManifestGenAsync C ic now cache keyOf repoRoot commit cacheKey opContextSrc q))
           (keyOf cacheKey (map_of (map (\<lambda>(u, r). (u, repoRef_commitSHA r)) repoRefs))) =
         Some \<lparr>ManifestResponse =
                  Some (result\<lparr>Revision := commit, VerifyResult := verificationResult ctx\<rparr>),
               MostRecentError = [], FirstFailureTimestamp = 0,
               NumberOfConsecutiveFailures = 0, NumberOfCachedResponsesReturned = 0\<rparr>"
  using assms
  by (simp add: runManifestGenAsync_def SetManifests_def Let_def)

lemmas sample_defs2 = renderingCollaborators_def directoryOutcome_def pluginOutcome_def
  valuesRef_def conflictRequest_def refCandidates_def refVarOf_def

theorem success_resets_failure_record_witness:
  "entries (cacheAfter (runManifestGenAsync (renderingCollaborators directoryOutcome) (backoff 3 1440 2)
              2000 boomCache sampleKeyOf ''/tmp/_argocd-repo/repo1'' ''abc123'' ''sha-of-main''
              (Inr \<lparr>appPath = ''/tmp/_argocd-repo/repo1/.'', verificationResult = []\<rparr>) sampleRequest))
           (''sha-of-main'', Map.empty) =
     Some \<lparr>ManifestResponse = Some \<lparr>Manifests = [''{\"kind\":\"ConfigMap\"}''], Revision = ''abc123'',
                                      SourceType = ''Directory'', VerifyResult = []\<rparr>,
           MostRecentError = [], FirstFailureTimestamp = 0,
           NumberOfConsecutiveFailures = 0, NumberOfCachedResponsesReturned = 0\<rparr>"
  using success_resets_failure_record
          [where cache = boomCache and C = "renderingCollaborators directoryOutcome"
             and ic = "backoff 3 1440 2" and q = sampleRequest and commit = "''abc123''"
             and repoRefs = "[]" and evs = "[]" and repoRoot = "''/tmp/_argocd-repo/repo1''"
             and ctx = "\<lparr>appPath = ''/tmp/_argocd-repo/repo1/.'', verificationResult = []\<rparr>"
             and opContextSrc = "Inr \<lparr>appPath = ''/tmp/_argocd-repo/repo1/.'', verificationResult = []\<rparr>"
             and keyOf = sampleKeyOf and cacheKey = "''sha-of-main''" and now = 2000
             and result = "\<lparr>Manifests = [''{\"kind\":\"ConfigMap\"}''], Revision = [],
                         SourceType = ''Directory'', VerifyResult = []\<rparr>"]
  by (simp add: sample_defs sample_defs2 lockReferencedSources_def)

subsection \<open>Referenced sources\<close>

lemma refSourcesLoop_append:
  "refSourcesLoop C ic q commit (xs @ ys) rr evs =
     (case refSourcesLoop C ic q commit xs rr evs of
        (Inl msgs, evs') \<Rightarrow> (Inl msgs, evs')
      | (Inr rr', evs') \<Rightarrow> refSourcesLoop C ic q commit ys rr' evs')"
proof (induction xs arbitrary: rr evs)
  case Nil
  then show ?case by simp
next
  case (Cons x xs)
  show ?case
    by (simp add: Cons.IH Let_def split: option.splits sum.splits prod.splits)
qed

lemma refSourcesLoop_events:
  "refSourcesLoop C ic q commit xs rr evs = (r, evs') \<Longrightarrow>
   \<exists>new. evs' = evs @ new \<and> (\<forall>e\<in>set new. (\<exists>u v. e = Resolve u v) \<or> (\<exists>u v. e = Lock u v))"
proof (induction xs arbitrary: rr evs)
  case Nil
  then show ?case by simp
next
  case (Cons x xs)
  show ?case
    using Cons.prems
    by (auto simp: Let_def split: option.splits sum.splits prod.splits if_splits
             dest!: Cons.IH)
qed


lemma refSourcesLoop_locked:
  "refSourcesLoop C ic q commit xs rr evs = (Inr rr', evs') \<Longrightarrow>
   \<forall>p\<in>set rr. \<exists>root. Lock root (repoRef_commitSHA (snd p)) \<in> set evs \<Longrightarrow>
   \<forall>p\<in>set rr'. \<exists>root. Lock root (repoRef_commitSHA (snd p)) \<in> set evs'"
proof (induction xs arbitrary: rr evs)
  case Nil
  then show ?case by simp
next
  case (Cons x xs)
  show ?case
  proof (cases "HasPrefix x ''$''")
    case False
    with Cons.prems Cons.IH[of rr evs] show ?thesis by simp
  next
    case True
    note dollar = this
    from Cons.prems(1) dollar obtain target where
      t: "map_of (RefSources q) (refVarOf x) = Some target" and ch: "RefTarget_Chart target = []"
      by (auto simp: Let_def split: option.splits if_splits)
    let ?url = "NormalizeGitURL C (Repo (RefTarget_Repo target))"
    show ?thesis
    proof (cases "map_of rr ?url")
      case (Some closer)
      with Cons.prems(1) dollar t ch have "refSourcesLoop C ic q commit xs rr evs = (Inr rr', evs')"
        by (auto simp: Let_def split: if_splits)
      from Cons.IH[OF this Cons.prems(2)] show ?thesis .
    next
      case None
      with Cons.prems(1) dollar t ch obtain root sha where
        rs: "newClientResolveRevision C (RefTarget_Repo target) (RefTarget_TargetRevision target) = Inr (root, sha)"
        by (auto simp: Let_def split: sum.splits)
      let ?evs2 = "evs @ [Resolve (Repo (RefTarget_Repo target)) (RefTarget_TargetRevision target)] @ [Lock root sha]"
      let ?rr2 = "rr @ [(?url, \<lparr>repoRef_revision = RefTarget_TargetRevision target,
                                  repoRef_commitSHA = sha, repoRef_key = refVarOf x\<rparr>)]"
      from Cons.prems(1) dollar t ch None rs
      have step: "refSourcesLoop C ic q commit xs ?rr2 ?evs2 = (Inr rr', evs')"
        by (auto simp: Let_def split: if_splits option.splits)
      have inv: "\<forall>p\<in>set ?rr2. \<exists>root. Lock root (repoRef_commitSHA (snd p)) \<in> set ?evs2"
        using Cons.prems(2) by auto
      from Cons.IH[OF step inv] show ?thesis .
    qed
  qed
qed

text \<open>
  C4 (as amended). When the loop of \<open>runManifestGenAsync\<close> over the referenced sources
  reaches a reference to a repository that an earlier reference of the request named
  with a different target revision, the goroutine sends the single error
  \<open>InconsistentReferenceRevisions\<close>, does not render and leaves the cache unchanged; the
  conflicting reference is neither resolved nor locked. The repository itself has been
  locked at the commit of the earlier reference, and this lock is released.
\<close>

theorem inconsistent_reference_revisions:
  assumes ms: "HasMultipleSources q" and hm: "Helm (Request_ApplicationSource q) = Some h"
    and oc: "opContextSrc = Inr ctx"
    and cand: "refCandidates h = before @ valueFile # after"
    and pre: "refSourcesLoop C ic q commit before [] [] = (Inr repoRefs, evs)"
    and dollar: "HasPrefix valueFile ''$''"
    and tgt: "map_of (RefSources q) (refVarOf valueFile) = Some target"
    and ch: "RefTarget_Chart target = []"
    and seen: "map_of repoRefs (NormalizeGitURL C (Repo (RefTarget_Repo target))) = Some first"
    and diff: "repoRef_revision first \<noteq> RefTarget_TargetRevision target"
  shows "runManifestGenAsync C ic now cache keyOf repoRoot commit cacheKey opContextSrc q =
           \<lparr>sent = [ErrMsg (InconsistentReferenceRevisions (refVarOf valueFile)
                         (RefTarget_TargetRevision target) (repoRef_key first) (repoRef_revision first))],
            cacheAfter = cache, asyncEvents = evs @ unlocks evs\<rparr> \<and>
         Render \<notin> set (evs @ unlocks evs) \<and>
         (\<exists>root. Lock root (repoRef_commitSHA first) \<in> set evs \<and> Unlock root \<in> set (unlocks evs))"
proof -
  have loop: "refSourcesLoop C ic q commit (refCandidates h) [] [] =
          (Inl [ErrMsg (InconsistentReferenceRevisions (refVarOf valueFile)
                         (RefTarget_TargetRevision target) (repoRef_key first) (repoRef_revision first))], evs)"
    using pre dollar tgt ch seen diff
    by (simp add: cand refSourcesLoop_append Let_def)
  have run: "runManifestGenAsync C ic now cache keyOf repoRoot commit cacheKey opContextSrc q =
           \<lparr>sent = [ErrMsg (InconsistentReferenceRevisions (refVarOf valueFile)
                         (RefTarget_TargetRevision target) (repoRef_key first) (repoRef_revision first))],
            cacheAfter = cache, asyncEvents = evs @ unlocks evs\<rparr>"
    by (simp add: runManifestGenAsync_def lockReferencedSources_def oc ms hm loop)
  from refSourcesLoop_events[OF pre]
  have only: "\<forall>e\<in>set evs. (\<exists>u v. e = Resolve u v) \<or> (\<exists>u v. e = Lock u v)"
    by simp
  have un: "\<forall>e\<in>set (unlocks evs). \<exists>u. e = Unlock u"
    by (auto simp: unlocks_def split: event.splits)
  have norender: "Render \<notin> set (evs @ unlocks evs)"
    using only un by auto
  from seen have "(NormalizeGitURL C (Repo (RefTarget_Repo target)), first) \<in> set repoRefs"
    by (rule map_of_SomeD)
  with refSourcesLoop_locked[OF pre] obtain root where l: "Lock root (repoRef_commitSHA first) \<in> set evs"
    by fastforce
  then have "Unlock root \<in> set (unlocks evs)"
    by (force simp: unlocks_def)
  with run norender l show ?thesis by blast
qed

theorem inconsistent_reference_revisions_witness:
  "sent (runManifestGenAsync sampleCollaborators (backoff 3 1440 2) 1000 emptyCache sampleKeyOf
      ''/tmp/_argocd-repo/repo1'' ''sha-of-main'' ''sha-of-main''
      (Inr \<lparr>appPath = ''/tmp/_argocd-repo/repo1/.'', verificationResult = []\<rparr>) conflictRequest) =
     [ErrMsg (InconsistentReferenceRevisions ''$b'' ''v2'' ''$a'' ''v1'')] \<and>
   Render \<notin> set (asyncEvents (runManifestGenAsync sampleCollaborators (backoff 3 1440 2) 1000 emptyCache
      sampleKeyOf ''/tmp/_argocd-repo/repo1'' ''sha-of-main'' ''sha-of-main''
      (Inr \<lparr>appPath = ''/tmp/_argocd-repo/repo1/.'', verificationResult = []\<rparr>) conflictRequest))"
proof -
  let ?first = "\<lparr>repoRef_revision = ''v1'', repoRef_commitSHA = ''sha-of-v1'', repoRef_key = ''$a''\<rparr>"
  let ?evs = "[Resolve ''values'' ''v1'', Lock ''/tmp/_argocd-repo/values'' ''sha-of-v1'']"
  have pre: "refSourcesLoop sampleCollaborators (backoff 3 1440 2) conflictRequest ''sha-of-main''
               [''$a/values.yaml''] [] [] = (Inr [(''values'', ?first)], ?evs)"
    by (simp add: sample_defs sample_defs2 gen_defs Let_def)
  note T = inconsistent_reference_revisions[where q = conflictRequest and C = sampleCollaborators
      and ic = "backoff 3 1440 2" and commit = "''sha-of-main''" and before = "[''$a/values.yaml'']"
      and valueFile = "''$b/values.yaml''" and after = "[]" and repoRefs = "[(''values'', ?first)]"
      and evs = ?evs and target = "valuesRef ''v2''" and first = ?first
      and h = "\<lparr>ValueFiles = [''$a/values.yaml'', ''$b/values.yaml''], FileParameters = []\<rparr>"
      and opContextSrc = "Inr \<lparr>appPath = ''/tmp/_argocd-repo/repo1/.'', verificationResult = []\<rparr>"
      and ctx = "\<lparr>appPath = ''/tmp/_argocd-repo/repo1/.'', verificationResult = []\<rparr>"
      and now = 1000 and cache = emptyCache and keyOf = sampleKeyOf
      and repoRoot = "''/tmp/_argocd-repo/repo1''" and cacheKey = "''sha-of-main''", OF _ _ _ _ pre]
  have "runManifestGenAsync sampleCollaborators (backoff 3 1440 2) 1000 emptyCache sampleKeyOf
      ''/tmp/_argocd-repo/repo1'' ''sha-of-main'' ''sha-of-main''
      (Inr \<lparr>appPath = ''/tmp/_argocd-repo/repo1/.'', verificationResult = []\<rparr>) conflictRequest =
       \<lparr>sent = [ErrMsg (InconsistentReferenceRevisions ''$b'' ''v2'' ''$a'' ''v1'')],
        cacheAfter = emptyCache, asyncEvents = ?evs @ unlocks ?evs\<rparr> \<and>
       Render \<notin> set (?evs @ unlocks ?evs)"
    using T by (simp add: sample_defs sample_defs2 HasPrefix_def)
  then show ?thesis by simp
qed

lemma conflict_async:
  "runManifestGenAsync sampleCollaborators (backoff 3 1440 2) 1000 emptyCache sampleKeyOf
      ''/tmp/_argocd-repo/repo1'' ''sha-of-main'' ''sha-of-main''
      (Inr \<lparr>appPath = ''/tmp/_argocd-repo/repo1/.'', verificationResult = []\<rparr>) conflictRequest =
   \<lparr>sent = [ErrMsg (InconsistentReferenceRevisions ''$b'' ''v2'' ''$a'' ''v1'')],
    cacheAfter = emptyCache,
    asyncEvents = [Resolve ''values'' ''v1'', Lock ''/tmp/_argocd-repo/values'' ''sha-of-v1'',
                   Unlock ''/tmp/_argocd-repo/values'']\<rparr>"
  by (simp add: sample_defs sample_defs2 gen_defs Let_def)

text \<open>
  C4 as stated fails in its last part: the request with the references \<open>$a\<close> and \<open>$b\<close> to
  the repository \<open>values\<close> at \<open>v1\<close> and \<open>v2\<close> fails with \<open>InconsistentReferenceRevisions\<close>, but
  the working tree of \<open>values\<close> has been locked at the commit of \<open>v1\<close> by then.
\<close>

theorem inconsistent_reference_revisions_counterexample:
  "fst (GenerateManifest sampleCollaborators (backoff 3 1440 2) False 1000 sampleKeyOf emptyCache
          conflictRequest) = (None, Some (InconsistentReferenceRevisions ''$b'' ''v2'' ''$a'' ''v1'')) \<and>
   Lock ''/tmp/_argocd-repo/values'' ''sha-of-v1'' \<in>
     set (asyncTrace (snd (GenerateManifest sampleCollaborators (backoff 3 1440 2) False 1000
            sampleKeyOf emptyCache conflictRequest)))"
  by (simp add: sample_defs sample_defs2 gen_defs resolveLoop.simps Let_def)

subsection \<open>Release of the source after the tarDone signal\<close>

lemma trace_cacheFn [simp]:
  "trace (snd (GenerateManifest_cacheFn ic now keyOf ck refs fi st)) = trace st"
  by (simp add: GenerateManifest_cacheFn_def split: prod.splits)

lemma trace_operation:
  "\<exists>evs\<in>opShapes. trace (snd (GenerateManifest_operation C ic now keyOf q root commit ck ctx st)) = trace st @ evs"
  by (auto simp: GenerateManifest_operation_def opShapes_def logEvent_def Let_def
           split: list.splits message.splits)

lemma trace_runGitOperation:
  "trace (snd (runGitOperation C ic source vc (GenerateManifest_cacheFn ic now keyOf)
                 (GenerateManifest_operation C ic now keyOf q) settings hms root revision unresolved refs st))
     = trace st \<or>
   (\<exists>evs\<in>opShapes.
      trace (snd (runGitOperation C ic source vc (GenerateManifest_cacheFn ic now keyOf)
                 (GenerateManifest_operation C ic now keyOf q) settings hms root revision unresolved refs st))
       = trace st @ [Lock root revision] @ evs @ [Unlock root])"
proof (cases "repoLock_Lock C root revision (allowConcurrent settings)")
  case (Some err)
  then show ?thesis by (simp add: runGitOperation_def)
next
  case None
  let ?st1 = "logEvent (Lock root revision) st"
  have st1: "trace ?st1 = trace st @ [Lock root revision]" by (simp add: logEvent_def)
  define inner where "inner =
     (case symlinkGuard C ic ''repository'' root of
               Some err \<Rightarrow> (Some err, ?st1)
             | None \<Rightarrow>
                 (case (if hms then Inr revision else CommitSHA C root) of
                    Inl err \<Rightarrow> (Some (ErrorString (''failed to get commit SHA: '' @ err)), ?st1)
                  | Inr commit \<Rightarrow>
                      (case (if \<not> noCache settings then GenerateManifest_cacheFn ic now keyOf revision refs False ?st1
                             else ((False, None), ?st1)) of
                         ((ok, err), st2) \<Rightarrow>
                           if ok then (err, st2)
                           else GenerateManifest_operation C ic now keyOf q root commit revision
                                  (gitOperationContext C source vc root revision unresolved)
                                  st2)))"
  have run: "runGitOperation C ic source vc (GenerateManifest_cacheFn ic now keyOf)
                 (GenerateManifest_operation C ic now keyOf q) settings hms root revision unresolved refs st
             = (fst inner, logEvent (Unlock root) (snd inner))"
    by (simp add: runGitOperation_def None inner_def Let_def split_beta)
  have "\<exists>evs\<in>opShapes. trace (snd inner) = trace ?st1 @ evs"
  proof (cases "symlinkGuard C ic ''repository'' root")
    case (Some err)
    then show ?thesis by (simp add: inner_def opShapes_def)
  next
    case None
    note sg = this
    show ?thesis
    proof (cases "if hms then Inr revision else CommitSHA C root")
      case (Inl err)
      then show ?thesis by (simp add: inner_def sg opShapes_def)
    next
      case (Inr commit)
      obtain ok err st2 where p: "(if \<not> noCache settings then GenerateManifest_cacheFn ic now keyOf revision refs False ?st1
                             else ((False, None), ?st1)) = ((ok, err), st2)"
        by (metis surj_pair)
      have t2: "trace st2 = trace ?st1"
      proof (cases "noCache settings")
        case True
        with p show ?thesis by simp
      next
        case False
        with p have "st2 = snd (GenerateManifest_cacheFn ic now keyOf revision refs False ?st1)"
          by simp
        then show ?thesis by (simp only: trace_cacheFn)
      qed
      show ?thesis
      proof (cases ok)
        case True
        then show ?thesis using p t2 by (simp add: inner_def sg Inr opShapes_def)
      next
        case False
        from trace_operation[of C ic now keyOf q root commit revision
               "gitOperationContext C source vc root revision unresolved" st2]
        show ?thesis using p t2 False by (simp add: inner_def sg Inr)
      qed
    qed
  qed
  then obtain evs where "evs \<in> opShapes" "trace (snd inner) = trace st @ [Lock root revision] @ evs"
    using st1 by auto
  then show ?thesis
    by (auto simp: run logEvent_def)
qed

lemma trace_runExtractedOperation:
  "trace (snd (runExtractedOperation C ic source (GenerateManifest_operation C ic now keyOf q)
                 settings isOCI revision st)) = trace st \<or>
   (\<exists>dir. \<exists>evs\<in>opShapes.
      trace (snd (runExtractedOperation C ic source (GenerateManifest_operation C ic now keyOf q)
                 settings isOCI revision st)) = trace st @ [ExtractDir dir] @ evs @ [CloseDir dir])"
proof (cases "if noCache settings
           then (if isOCI then CleanCache C revision else CleanChartCache C (Chart source) revision)
           else None")
  case (Some err)
  then show ?thesis by (simp add: runExtractedOperation_def)
next
  case None
  note cc = this
  show ?thesis
  proof (cases "if isOCI then Extract C revision else ExtractChart C (Chart source) revision")
    case (Inl err)
    then show ?thesis by (simp add: runExtractedOperation_def cc)
  next
    case (Inr dir)
    note ex = this
    let ?st1 = "logEvent (ExtractDir dir) st"
    have st1: "trace ?st1 = trace st @ [ExtractDir dir]" by (simp add: logEvent_def)
    define inner where "inner =
       (case symlinkGuard C ic (if isOCI then ''oci image'' else ''chart'') dir of
          Some err \<Rightarrow> (Some err, ?st1)
        | None \<Rightarrow>
            if isOCI then
              (case appPath_Path C dir (Path source) of
                 Inl err \<Rightarrow> (Some (ErrorString err), ?st1)
               | Inr p \<Rightarrow>
                   GenerateManifest_operation C ic now keyOf q dir revision revision
                     (Inr \<lparr>appPath = p, verificationResult = []\<rparr>) ?st1)
            else GenerateManifest_operation C ic now keyOf q dir revision revision
                   (Inr \<lparr>appPath = dir, verificationResult = []\<rparr>) ?st1)"
    have run: "runExtractedOperation C ic source (GenerateManifest_operation C ic now keyOf q)
                 settings isOCI revision st = (fst inner, logEvent (CloseDir dir) (snd inner))"
      by (simp add: runExtractedOperation_def cc ex inner_def Let_def split_beta)
    have "\<exists>evs\<in>opShapes. trace (snd inner) = trace ?st1 @ evs"
    proof (cases "symlinkGuard C ic (if isOCI then ''oci image'' else ''chart'') dir")
      case (Some err)
      then show ?thesis by (simp add: inner_def opShapes_def)
    next
      case None
      note sg = this
      show ?thesis
      proof (cases isOCI)
        case True
        note oci = this
        show ?thesis
        proof (cases "appPath_Path C dir (Path source)")
          case (Inl err)
          then show ?thesis using oci sg by (simp add: inner_def opShapes_def)
        next
          case (Inr p)
          from trace_operation[of C ic now keyOf q dir revision revision
                 "Inr \<lparr>appPath = p, verificationResult = []\<rparr>" ?st1]
          show ?thesis using oci sg Inr by (simp add: inner_def)
        qed
      next
        case False
        from trace_operation[of C ic now keyOf q dir revision revision
               "Inr \<lparr>appPath = dir, verificationResult = []\<rparr>" ?st1]
        show ?thesis using False sg by (simp add: inner_def)
      qed
    qed
    then obtain evs where "evs \<in> opShapes" "trace (snd inner) = trace st @ [ExtractDir dir] @ evs"
      using st1 by auto
    then show ?thesis
      by (auto simp: run logEvent_def)
  qed
qed

lemma trace_acquired:
  "trace (snd (if IsOCI C source then
                 runExtractedOperation C ic source (GenerateManifest_operation C ic now keyOf q) settings True resolved st
               else if IsHelm C source then
                 runExtractedOperation C ic source (GenerateManifest_operation C ic now keyOf q) settings False resolved st
               else
                 runGitOperation C ic source vc (GenerateManifest_cacheFn ic now keyOf)
                   (GenerateManifest_operation C ic now keyOf q) settings hms root resolved unresolved refs st))
     = trace st \<or>
   (\<exists>a r. \<exists>evs\<in>opShapes. releases (IsOCI C source \<or> IsHelm C source) a r \<and>
      trace (snd (if IsOCI C source then
                 runExtractedOperation C ic source (GenerateManifest_operation C ic now keyOf q) settings True resolved st
               else if IsHelm C source then
                 runExtractedOperation C ic source (GenerateManifest_operation C ic now keyOf q) settings False resolved st
               else
                 runGitOperation C ic source vc (GenerateManifest_cacheFn ic now keyOf)
                   (GenerateManifest_operation C ic now keyOf q) settings hms root resolved unresolved refs st))
       = trace st @ [a] @ evs @ [r])"
proof (cases "IsOCI C source \<or> IsHelm C source")
  case True
  define isOCI where "isOCI = IsOCI C source"
  from True have sel: "(if IsOCI C source then
                 runExtractedOperation C ic source (GenerateManifest_operation C ic now keyOf q) settings True resolved st
               else if IsHelm C source then
                 runExtractedOperation C ic source (GenerateManifest_operation C ic now keyOf q) settings False resolved st
               else
                 runGitOperation C ic source vc (GenerateManifest_cacheFn ic now keyOf)
                   (GenerateManifest_operation C ic now keyOf q) settings hms root resolved unresolved refs st)
        = runExtractedOperation C ic source (GenerateManifest_operation C ic now keyOf q) settings isOCI resolved st"
    by (auto simp: isOCI_def)
  from trace_runExtractedOperation[of C ic source now keyOf q settings isOCI resolved st]
  show ?thesis
  proof
    assume "trace (snd (runExtractedOperation C ic source (GenerateManifest_operation C ic now keyOf q)
                 settings isOCI resolved st)) = trace st"
    then show ?thesis unfolding sel by simp
  next
    assume "\<exists>dir. \<exists>evs\<in>opShapes.
      trace (snd (runExtractedOperation C ic source (GenerateManifest_operation C ic now keyOf q)
                 settings isOCI resolved st)) = trace st @ [ExtractDir dir] @ evs @ [CloseDir dir]"
    then obtain dir evs where e: "evs \<in> opShapes"
      "trace (snd (runExtractedOperation C ic source (GenerateManifest_operation C ic now keyOf q)
                 settings isOCI resolved st)) = trace st @ [ExtractDir dir] @ evs @ [CloseDir dir]"
      by blast
    have "releases (IsOCI C source \<or> IsHelm C source) (ExtractDir dir) (CloseDir dir)"
      using True by simp
    with e show ?thesis unfolding sel by blast
  qed
next
  case False
  then have sel: "(if IsOCI C source then
                 runExtractedOperation C ic source (GenerateManifest_operation C ic now keyOf q) settings True resolved st
               else if IsHelm C source then
                 runExtractedOperation C ic source (GenerateManifest_operation C ic now keyOf q) settings False resolved st
               else
                 runGitOperation C ic source vc (GenerateManifest_cacheFn ic now keyOf)
                   (GenerateManifest_operation C ic now keyOf q) settings hms root resolved unresolved refs st)
        = runGitOperation C ic source vc (GenerateManifest_cacheFn ic now keyOf)
                   (GenerateManifest_operation C ic now keyOf q) settings hms root resolved unresolved refs st"
    by simp
  from trace_runGitOperation[of C ic source vc now keyOf q settings hms root resolved unresolved refs st]
  show ?thesis
  proof
    assume "trace (snd (runGitOperation C ic source vc (GenerateManifest_cacheFn ic now keyOf)
                 (GenerateManifest_operation C ic now keyOf q) settings hms root resolved unresolved refs st))
              = trace st"
    then show ?thesis unfolding sel by simp
  next
    assume "\<exists>evs\<in>opShapes.
      trace (snd (runGitOperation C ic source vc (GenerateManifest_cacheFn ic now keyOf)
                 (GenerateManifest_operation C ic now keyOf q) settings hms root resolved unresolved refs st))
       = trace st @ [Lock root resolved] @ evs @ [Unlock root]"
    then obtain evs where e: "evs \<in> opShapes"
      "trace (snd (runGitOperation C ic source vc (GenerateManifest_cacheFn ic now keyOf)
                 (GenerateManifest_operation C ic now keyOf q) settings hms root resolved unresolved refs st))
       = trace st @ [Lock root resolved] @ evs @ [Unlock root]"
      by blast
    have "releases (IsOCI C source \<or> IsHelm C source) (Lock root resolved) (Unlock root)"
      using False by simp
    with e show ?thesis unfolding sel by blast
  qed
qed

lemma trace_runRepoOperation:
  "\<exists>pre post. set pre \<subseteq> {SemAcquire} \<and> set post \<subseteq> {SemRelease} \<and>
           (trace (snd (runRepoOperation C ic rev0 repo source vc (GenerateManifest_cacheFn ic now keyOf)
                 (GenerateManifest_operation C ic now keyOf q) settings hms refSources st)) = trace st @ pre @ post \<or>
            (\<exists>a r evs. evs \<in> opShapes \<and> releases (IsOCI C source \<or> IsHelm C source) a r \<and>
                trace (snd (runRepoOperation C ic rev0 repo source vc (GenerateManifest_cacheFn ic now keyOf)
                 (GenerateManifest_operation C ic now keyOf q) settings hms refSources st)) = trace st @ pre @ [a] @ evs @ [r] @ post))"
    (is "\<exists>pre post. _ \<and> _ \<and> (?T = _ \<or> _)")
proof -
  define T where "T = ?T"
  define ext where "ext = (IsOCI C source \<or> IsHelm C source)"
  have goal: "\<exists>pre post. set pre \<subseteq> {SemAcquire} \<and> set post \<subseteq> {SemRelease} \<and>
           (T = trace st @ pre @ post \<or>
            (\<exists>a r evs. evs \<in> opShapes \<and> releases ext a r \<and>
                T = trace st @ pre @ [a] @ evs @ [r] @ post))"
  proof -
  let ?cacheFn = "GenerateManifest_cacheFn ic now keyOf"
  let ?op = "GenerateManifest_operation C ic now keyOf q"
  let ?rev = "FirstNonEmpty rev0 (TargetRevision source)"
  have trivial: ?thesis if "T = trace st"
    using that by (intro exI[of _ "[]"]) simp
  show ?thesis
  proof (cases "resolvePrimary C repo source ?rev (noCache settings \<or> noRevisionCache settings)")
    case (Inl err)
    then have "T = trace st" by (simp add: T_def runRepoOperation_def Let_def)
    then show ?thesis by (rule trivial)
  next
    case (Inr rr)
    obtain root resolved where rr: "rr = (root, resolved)" by (cases rr)
    note rp = Inr[unfolded rr]
    show ?thesis
    proof (cases "resolveReferencedSources C hms (Helm source) refSources")
      case (Inl err)
      then have "T = trace st" by (simp add: T_def runRepoOperation_def Let_def rp)
      then show ?thesis by (rule trivial)
    next
      case (Inr repoRefs)
      note rs = this
      obtain ok err st1 where p: "(if \<not> noCache settings then ?cacheFn resolved (map_of repoRefs) True st
                        else ((False, None), st)) = ((ok, err), st1)"
        by (metis surj_pair)
      have t1: "trace st1 = trace st"
      proof (cases "noCache settings")
        case True
        with p show ?thesis by simp
      next
        case False
        with p have "st1 = snd (?cacheFn resolved (map_of repoRefs) True st)" by simp
        then show ?thesis by (simp only: trace_cacheFn)
      qed
      show ?thesis
      proof (cases ok)
        case True
        then have "T = trace st"
          using p t1 by (simp add: T_def runRepoOperation_def Let_def rp rs)
        then show ?thesis by (rule trivial)
      next
        case False
        note miss = this
        define body where "body = (\<lambda>s.
               if IsOCI C source then
                 runExtractedOperation C ic source ?op settings True resolved s
               else if IsHelm C source then
                 runExtractedOperation C ic source ?op settings False resolved s
               else
                 runGitOperation C ic source vc ?cacheFn ?op settings hms root resolved ?rev
                   (map_of repoRefs) s)"
        have shape: "trace (snd (body s)) = trace s \<or>
                     (\<exists>a r. \<exists>evs\<in>opShapes. releases ext a r \<and>
                        trace (snd (body s)) = trace s @ [a] @ evs @ [r])" for s
          unfolding body_def ext_def
          by (rule trace_acquired)
        show ?thesis
        proof (cases "sem settings")
          case False
          then have T: "T = trace (snd (body st1))"
            using p miss by (simp add: T_def runRepoOperation_def Let_def rp rs body_def)
          from shape[of st1]
          show ?thesis
            unfolding T t1
            by (intro exI[of _ "[]"]) auto
        next
          case True
          note sem = this
          show ?thesis
          proof (cases "semAcquire C")
            case (Some e)
            then have "T = trace st"
              using p miss sem t1 by (simp add: T_def runRepoOperation_def Let_def rp rs)
            then show ?thesis by (rule trivial)
          next
            case None
            let ?s2 = "logEvent SemAcquire st1"
            have s2: "trace ?s2 = trace st @ [SemAcquire]" by (simp add: logEvent_def t1)
            have T: "T = trace (snd (body ?s2)) @ [SemRelease]"
              using p miss sem None
              by (simp add: T_def runRepoOperation_def Let_def rp rs split_beta logEvent_def body_def)
            from shape[of ?s2]
            show ?thesis
              unfolding T s2
              by (intro exI[of _ "[SemAcquire]"] exI[of _ "[SemRelease]"]) auto
          qed
        qed
      qed
    qed
  qed
qed
  then show ?thesis unfolding T_def ext_def .
qed

lemma trace_awaitPromise:
  "\<exists>X. trace (snd (awaitPromise err st)) = trace st @ X \<and> ReceiveTarDone \<notin> set X"
  by (auto simp: awaitPromise_def logEvent_def split: list.splits message.splits)

text \<open>
  C2. In every call of \<open>GenerateManifest\<close> that receives the \<open>tarDone\<close> signal of the
  plugin stream, the receive is directly followed by the release of the source, the
  unlock of the working tree of a git source or the close of the extracted directory of
  a chart or image, and the wait for the response of the plugin has not started before.
\<close>

theorem lock_released_before_await:
  assumes tar: "ReceiveTarDone \<in> set (trace (snd (GenerateManifest C ic hs now keyOf cache q)))"
  shows "releasesBeforeAwait
           (IsOCI C (Request_ApplicationSource q) \<or> IsHelm C (Request_ApplicationSource q))
           (trace (snd (GenerateManifest C ic hs now keyOf cache q)))"
proof (cases "refOnly C q")
  case True
  then have "trace (snd (GenerateManifest C ic hs now keyOf cache q)) = []"
    by (simp add: GenerateManifest_def Let_def split: sum.splits prod.splits)
  with tar show ?thesis by simp
next
  case False
  let ?st0 = "\<lparr>res = None, manifestCache = cache, promise = [], tarConcluded = False,
                trace = [], asyncTrace = []\<rparr>"
  let ?settings = "\<lparr>sem = hs, noCache = NoCache q, noRevisionCache = NoRevisionCache q,
                     allowConcurrent = AllowsConcurrentProcessing C (Request_ApplicationSource q)\<rparr>"
  let ?run = "runRepoOperation C ic (Request_Revision q) (Request_Repo q) (Request_ApplicationSource q)
                (VerifySignature q) (GenerateManifest_cacheFn ic now keyOf)
                (GenerateManifest_operation C ic now keyOf q) ?settings (HasMultipleSources q)
                (RefSources q) ?st0"
  let ?ext = "IsOCI C (Request_ApplicationSource q) \<or> IsHelm C (Request_ApplicationSource q)"
  have gm: "GenerateManifest C ic hs now keyOf cache q = awaitPromise (fst ?run) (snd ?run)"
    using False by (simp add: GenerateManifest_def Let_def split_beta)
  obtain X where X: "trace (snd (GenerateManifest C ic hs now keyOf cache q)) = trace (snd ?run) @ X"
      and Xn: "ReceiveTarDone \<notin> set X"
    unfolding gm using trace_awaitPromise by blast
  from trace_runRepoOperation[of C ic "Request_Revision q" "Request_Repo q" "Request_ApplicationSource q"
         "VerifySignature q" now keyOf q ?settings "HasMultipleSources q" "RefSources q" ?st0]
  obtain pre post where pre: "set pre \<subseteq> {SemAcquire}" and post: "set post \<subseteq> {SemRelease}"
    and shape: "trace (snd ?run) = pre @ post \<or>
            (\<exists>a r evs. evs \<in> opShapes \<and> releases ?ext a r \<and>
                trace (snd ?run) = pre @ [a] @ evs @ [r] @ post)"
    by auto
  from pre have preN: "ReceiveTarDone \<notin> set pre" "AwaitResponse \<notin> set pre" by auto
  from post have postN: "ReceiveTarDone \<notin> set post" by auto
  from shape show ?thesis
  proof
    assume "trace (snd ?run) = pre @ post"
    with tar X Xn preN postN show ?thesis by auto
  next
    assume "\<exists>a r evs. evs \<in> opShapes \<and> releases ?ext a r \<and>
                trace (snd ?run) = pre @ [a] @ evs @ [r] @ post"
    then obtain a r evs where evs: "evs \<in> opShapes" and rel: "releases ?ext a r"
      and tr: "trace (snd ?run) = pre @ [a] @ evs @ [r] @ post"
      by blast
    from rel have ar: "a \<noteq> ReceiveTarDone" "r \<noteq> ReceiveTarDone"
      by (cases ?ext; cases a; cases r; simp)+
    from tar X Xn tr preN postN ar have "ReceiveTarDone \<in> set evs" by auto
    with evs have e: "evs = [StartManifestGen, ReceiveTarDone]"
      by (auto simp: opShapes_def)
    have "trace (snd (GenerateManifest C ic hs now keyOf cache q)) =
            pre @ [a, StartManifestGen, ReceiveTarDone, r] @ (post @ X)"
      by (simp add: X tr e)
    with preN rel show ?thesis
      unfolding releasesBeforeAwait_def by blast
  qed
qed

lemma plugin_trace:
  "trace (snd (GenerateManifest (renderingCollaborators pluginOutcome) (backoff 3 1440 2) False 1000
                 sampleKeyOf emptyCache sampleRequest)) =
     [Lock ''/tmp/_argocd-repo/repo1'' ''sha-of-main'', StartManifestGen, ReceiveTarDone,
      Unlock ''/tmp/_argocd-repo/repo1'', AwaitResponse, ReceiveResponse]"
  by (simp add: sample_defs sample_defs2 gen_defs Let_def)

theorem lock_released_before_await_witness:
  "ReceiveTarDone \<in> set (trace (snd (GenerateManifest (renderingCollaborators pluginOutcome)
        (backoff 3 1440 2) False 1000 sampleKeyOf emptyCache sampleRequest))) \<and>
   releasesBeforeAwait False (trace (snd (GenerateManifest (renderingCollaborators pluginOutcome)
        (backoff 3 1440 2) False 1000 sampleKeyOf emptyCache sampleRequest)))"
proof -
  have tar: "ReceiveTarDone \<in> set (trace (snd (GenerateManifest (renderingCollaborators pluginOutcome)
        (backoff 3 1440 2) False 1000 sampleKeyOf emptyCache sampleRequest)))"
    by (simp add: plugin_trace)
  have git: "(IsOCI (renderingCollaborators pluginOutcome) (Request_ApplicationSource sampleRequest) \<or>
              IsHelm (renderingCollaborators pluginOutcome) (Request_ApplicationSource sampleRequest)) = False"
    by (simp add: sample_defs sample_defs2 HasPrefix_def)
  from tar lock_released_before_await[OF tar, unfolded git] show ?thesis ..
qed

subsection \<open>Chart revisions\<close>

lemma foldl_max_version:
  "foldl (\<lambda>m t. if f t > f m then t else m) v vs \<in> set (v # vs) \<and>
   (\<forall>t\<in>set (v # vs). f t \<le> (f (foldl (\<lambda>m t. if f t > f m then t else m) v vs) :: 'a::linorder))"
proof (induction vs arbitrary: v)
  case Nil
  then show ?case by simp
next
  case (Cons a vs)
  show ?case
  proof (cases "f a > f v")
    case True
    with Cons.IH[of a] show ?thesis by (auto intro: order_trans less_imp_le)
  next
    case False
    with Cons.IH[of v] show ?thesis by (auto intro: order_trans)
  qed
qed

lemma MaxVersion_found:
  assumes "t0 \<in> set tags" "constraintCheck H c t0"
  shows "\<exists>v. MaxVersion H c tags = Inr v \<and> v \<in> set tags \<and> constraintCheck H c v \<and>
             (\<forall>t\<in>set tags. constraintCheck H c t \<longrightarrow> versionOf H t \<le> versionOf H v)"
proof -
  from assms have "filter (constraintCheck H c) tags \<noteq> []"
    by (auto simp: filter_empty_conv)
  then obtain v vs where f: "filter (constraintCheck H c) tags = v # vs"
    by (cases "filter (constraintCheck H c) tags") auto
  let ?m = "foldl (\<lambda>m t. if versionOf H t > versionOf H m then t else m) v vs"
  from foldl_max_version[of "versionOf H" v vs]
  have m: "?m \<in> set (v # vs)" and mx: "\<forall>t\<in>set (v # vs). versionOf H t \<le> versionOf H ?m"
    by auto
  from m have "?m \<in> set (filter (constraintCheck H c) tags)" by (simp only: f)
  then have in_tags: "?m \<in> set tags" "constraintCheck H c ?m" by auto
  have "\<forall>t\<in>set tags. constraintCheck H c t \<longrightarrow> versionOf H t \<le> versionOf H ?m"
  proof (intro ballI impI)
    fix t assume "t \<in> set tags" "constraintCheck H c t"
    then have "t \<in> set (filter (constraintCheck H c) tags)" by simp
    then have "t \<in> set (v # vs)" by (simp only: f)
    with mx show "versionOf H t \<le> versionOf H ?m" by blast
  qed
  moreover have "MaxVersion H c tags = Inr ?m"
    by (simp add: MaxVersion_def f)
  ultimately show ?thesis using in_tags by blast
qed

lemma MaxVersion_none:
  assumes "\<forall>t\<in>set tags. \<not> constraintCheck H c t"
  shows "MaxVersion H c tags = Inl (noVersionError H c tags)"
proof -
  from assms have "filter (constraintCheck H c) tags = []"
    by (simp add: filter_empty_conv)
  then show ?thesis by (simp add: MaxVersion_def)
qed

text \<open>
  C6. \<open>newHelmClientResolveRevision\<close> returns a revision that is a version verbatim.
  Otherwise it enumerates the available tags, with \<open>GetTags\<close> when the repository has OCI
  enabled or an OCI URL and from the index of the repository otherwise: if some tag
  satisfies the revision as a constraint, it returns a satisfying tag whose version is
  greatest among the satisfying tags; if none does, it fails with the error of
  \<open>MaxVersion\<close> wrapped as \<open>invalid revision: ...\<close>; and a failure of the enumeration
  is the failure of the resolution (wrapped as \<open>unable to get tags: ...\<close> for \<open>GetTags\<close>).
\<close>

theorem chart_revision_resolution:
  assumes oci: "oci = (EnableOCI repo \<or> IsHelmOciRepo H (Repo repo))"
    and en: "enumerated = (if oci then GetTags H chart bypass else GetIndexEntriesTags H chart bypass)"
    and rs: "result = newHelmClientResolveRevision H repo revision chart bypass"
  shows "(IsVersion H revision \<longrightarrow> result = Inr revision) \<and>
         (\<not> IsVersion H revision \<longrightarrow>
            (case enumerated of
               Inl err \<Rightarrow> result = Inl (if oci then ''unable to get tags: '' @ err else err)
             | Inr tags \<Rightarrow>
                 if \<exists>t\<in>set tags. constraintCheck H revision t
                 then \<exists>v. result = Inr v \<and> v \<in> set tags \<and> constraintCheck H revision v \<and>
                          (\<forall>t\<in>set tags. constraintCheck H revision t \<longrightarrow>
                              versionOf H t \<le> versionOf H v)
                 else result = Inl (''invalid revision: '' @ noVersionError H revision tags)))"
proof (intro conjI impI)
  assume "IsVersion H revision"
  then show "result = Inr revision"
    by (simp add: rs newHelmClientResolveRevision_def)
next
  assume nv: "\<not> IsVersion H revision"
  show "case enumerated of
          Inl err \<Rightarrow> result = Inl (if oci then ''unable to get tags: '' @ err else err)
        | Inr tags \<Rightarrow>
            if \<exists>t\<in>set tags. constraintCheck H revision t
            then \<exists>v. result = Inr v \<and> v \<in> set tags \<and> constraintCheck H revision v \<and>
                     (\<forall>t\<in>set tags. constraintCheck H revision t \<longrightarrow> versionOf H t \<le> versionOf H v)
            else result = Inl (''invalid revision: '' @ noVersionError H revision tags)"
  proof (cases enumerated)
    case (Inl err)
    then have "availableTags H repo chart bypass =
                 Inl (if oci then ''unable to get tags: '' @ err else err)"
      using en oci by (auto simp: availableTags_def Let_def split: if_splits)
    then show ?thesis
      using nv Inl by (simp add: rs newHelmClientResolveRevision_def)
  next
    case (Inr tags)
    then have av: "availableTags H repo chart bypass = Inr tags"
      using en oci by (auto simp: availableTags_def Let_def split: if_splits)
    show ?thesis
    proof (cases "\<exists>t\<in>set tags. constraintCheck H revision t")
      case True
      then obtain t0 where "t0 \<in> set tags" "constraintCheck H revision t0" by blast
      from MaxVersion_found[OF this] obtain v where v: "MaxVersion H revision tags = Inr v"
         "v \<in> set tags" "constraintCheck H revision v"
         "\<forall>t\<in>set tags. constraintCheck H revision t \<longrightarrow> versionOf H t \<le> versionOf H v"
        by blast
      from nv av v(1) have "result = Inr v"
        by (simp add: rs newHelmClientResolveRevision_def)
      with v have "\<exists>v. result = Inr v \<and> v \<in> set tags \<and> constraintCheck H revision v \<and>
                     (\<forall>t\<in>set tags. constraintCheck H revision t \<longrightarrow> versionOf H t \<le> versionOf H v)"
        by blast
      with True Inr show ?thesis by simp
    next
      case False
      then have "MaxVersion H revision tags = Inl (noVersionError H revision tags)"
        by (intro MaxVersion_none) simp
      with nv av have "result = Inl (''invalid revision: '' @ noVersionError H revision tags)"
        by (simp add: rs newHelmClientResolveRevision_def)
      with False Inr show ?thesis by simp
    qed
  qed
qed

theorem chart_revision_resolution_witness:
  "newHelmClientResolveRevision sampleHelm \<lparr>Repo = ''https://charts.example'', EnableOCI = False\<rparr>
      ''1.2.0'' ''app'' False = Inr ''1.2.0'' \<and>
   newHelmClientResolveRevision sampleHelm \<lparr>Repo = ''https://charts.example'', EnableOCI = False\<rparr>
      ''1.x'' ''app'' False = Inr ''1.2.0'' \<and>
   newHelmClientResolveRevision sampleHelm \<lparr>Repo = ''registry.example/charts'', EnableOCI = True\<rparr>
      ''1.x'' ''app'' False = Inr ''1.1.0'' \<and>
   newHelmClientResolveRevision sampleHelm \<lparr>Repo = ''oci://registry.example/charts'', EnableOCI = False\<rparr>
      ''1.x'' ''app'' False = Inr ''1.1.0'' \<and>
   newHelmClientResolveRevision sampleHelm \<lparr>Repo = ''https://charts.example'', EnableOCI = False\<rparr>
      ''9.x'' ''app'' False = Inl ''invalid revision: no version matches 9.x'' \<and>
   newHelmClientResolveRevision sampleHelm \<lparr>Repo = ''registry.example/charts'', EnableOCI = True\<rparr>
      ''1.x'' ''other'' False = Inl ''unable to get tags: repository not found'' \<and>
   newHelmClientResolveRevision sampleHelm \<lparr>Repo = ''https://charts.example'', EnableOCI = False\<rparr>
      ''1.x'' ''other'' False = Inl ''chart not found''"
proof -
  let ?classic = "\<lparr>Repo = ''https://charts.example'', EnableOCI = False\<rparr>"
  let ?enabled = "\<lparr>Repo = ''registry.example/charts'', EnableOCI = True\<rparr>"
  let ?scheme = "\<lparr>Repo = ''oci://registry.example/charts'', EnableOCI = False\<rparr>"
  note T = chart_revision_resolution[where H = sampleHelm and bypass = False, OF refl refl refl]
  have greatest: "v = (if 120 \<le> versionOf sampleHelm ''1.2.0'' \<and> ''1.2.0'' \<in> set tags then ''1.2.0'' else ''1.1.0'')"
    if "v \<in> set tags" "constraintCheck sampleHelm ''1.x'' v"
       "\<forall>t\<in>set tags. constraintCheck sampleHelm ''1.x'' t \<longrightarrow> versionOf sampleHelm t \<le> versionOf sampleHelm v"
       "tags = [''1.0.0'', ''1.2.0'', ''2.0.0''] \<or> tags = [''1.0.0'', ''1.1.0'']"
    for v tags
    using that by (auto simp: sampleHelm_def split: if_splits)
  have a: "newHelmClientResolveRevision sampleHelm ?classic ''1.2.0'' ''app'' False = Inr ''1.2.0''"
    using T[where repo = ?classic and revision = "''1.2.0''" and chart = "''app''", THEN conjunct1]
    by (simp add: sampleHelm_def)
  have "\<exists>v. newHelmClientResolveRevision sampleHelm ?classic ''1.x'' ''app'' False = Inr v \<and>
           v \<in> set [''1.0.0'', ''1.2.0'', ''2.0.0''] \<and> constraintCheck sampleHelm ''1.x'' v \<and>
           (\<forall>t\<in>set [''1.0.0'', ''1.2.0'', ''2.0.0'']. constraintCheck sampleHelm ''1.x'' t \<longrightarrow>
               versionOf sampleHelm t \<le> versionOf sampleHelm v)"
    using T[where repo = ?classic and revision = "''1.x''" and chart = "''app''", THEN conjunct2]
    by (simp add: sampleHelm_def HasPrefix_def)
  then obtain v where v: "newHelmClientResolveRevision sampleHelm ?classic ''1.x'' ''app'' False = Inr v"
     "v \<in> set [''1.0.0'', ''1.2.0'', ''2.0.0'']" "constraintCheck sampleHelm ''1.x'' v"
     "\<forall>t\<in>set [''1.0.0'', ''1.2.0'', ''2.0.0'']. constraintCheck sampleHelm ''1.x'' t \<longrightarrow>
               versionOf sampleHelm t \<le> versionOf sampleHelm v"
    by blast
  from greatest[OF v(2,3,4)] have "v = ''1.2.0''"
    by (simp add: sampleHelm_def)
  with v(1) have b: "newHelmClientResolveRevision sampleHelm ?classic ''1.x'' ''app'' False = Inr ''1.2.0''"
    by simp
  have "\<exists>v. newHelmClientResolveRevision sampleHelm ?enabled ''1.x'' ''app'' False = Inr v \<and>
           v \<in> set [''1.0.0'', ''1.1.0''] \<and> constraintCheck sampleHelm ''1.x'' v \<and>
           (\<forall>t\<in>set [''1.0.0'', ''1.1.0'']. constraintCheck sampleHelm ''1.x'' t \<longrightarrow>
               versionOf sampleHelm t \<le> versionOf sampleHelm v)"
    using T[where repo = ?enabled and revision = "''1.x''" and chart = "''app''", THEN conjunct2]
    by (simp add: sampleHelm_def HasPrefix_def)
  then obtain w where w: "newHelmClientResolveRevision sampleHelm ?enabled ''1.x'' ''app'' False = Inr w"
     "w \<in> set [''1.0.0'', ''1.1.0'']" "constraintCheck sampleHelm ''1.x'' w"
     "\<forall>t\<in>set [''1.0.0'', ''1.1.0'']. constraintCheck sampleHelm ''1.x'' t \<longrightarrow>
               versionOf sampleHelm t \<le> versionOf sampleHelm w"
    by blast
  from greatest[OF w(2,3,4)] have "w = ''1.1.0''"
    by simp
  with w(1) have c: "newHelmClientResolveRevision sampleHelm ?enabled ''1.x'' ''app'' False = Inr ''1.1.0''"
    by simp
  have "\<exists>v. newHelmClientResolveRevision sampleHelm ?scheme ''1.x'' ''app'' False = Inr v \<and>
           v \<in> set [''1.0.0'', ''1.1.0''] \<and> constraintCheck sampleHelm ''1.x'' v \<and>
           (\<forall>t\<in>set [''1.0.0'', ''1.1.0'']. constraintCheck sampleHelm ''1.x'' t \<longrightarrow>
               versionOf sampleHelm t \<le> versionOf sampleHelm v)"
    using T[where repo = ?scheme and revision = "''1.x''" and chart = "''app''", THEN conjunct2]
    by (simp add: sampleHelm_def HasPrefix_def)
  then obtain u where u: "newHelmClientResolveRevision sampleHelm ?scheme ''1.x'' ''app'' False = Inr u"
     "u \<in> set [''1.0.0'', ''1.1.0'']" "constraintCheck sampleHelm ''1.x'' u"
     "\<forall>t\<in>set [''1.0.0'', ''1.1.0'']. constraintCheck sampleHelm ''1.x'' t \<longrightarrow>
               versionOf sampleHelm t \<le> versionOf sampleHelm u"
    by blast
  from greatest[OF u(2,3,4)] have "u = ''1.1.0''"
    by simp
  with u(1) have d: "newHelmClientResolveRevision sampleHelm ?scheme ''1.x'' ''app'' False = Inr ''1.1.0''"
    by simp
  have e: "newHelmClientResolveRevision sampleHelm ?classic ''9.x'' ''app'' False =
            Inl ''invalid revision: no version matches 9.x''"
    using T[where repo = ?classic and revision = "''9.x''" and chart = "''app''", THEN conjunct2]
    by (simp add: sampleHelm_def HasPrefix_def)
  have f: "newHelmClientResolveRevision sampleHelm ?enabled ''1.x'' ''other'' False =
            Inl ''unable to get tags: repository not found''"
    using T[where repo = ?enabled and revision = "''1.x''" and chart = "''other''", THEN conjunct2]
    by (simp add: sampleHelm_def HasPrefix_def)
  have g: "newHelmClientResolveRevision sampleHelm ?classic ''1.x'' ''other'' False = Inl ''chart not found''"
    using T[where repo = ?classic and revision = "''1.x''" and chart = "''other''", THEN conjunct2]
    by (simp add: sampleHelm_def HasPrefix_def)
  from a b c d e f g show ?thesis by (intro conjI)
qed

subsection \<open>Working-tree lock manager\<close>

lemma lockAll_held:
  "treeState t = HELD held n conc \<Longrightarrow>
   lockAll t rs = t\<lparr>treeState := HELD held (n + length (filter (shares held conc) rs)) conc,
                    waiters := waiters t @ filter (\<lambda>r. \<not> shares held conc r) rs\<rparr>"
proof (induction rs arbitrary: t n)
  case Nil
  then show ?case by (simp add: lockAll_def)
next
  case (Cons r rs)
  show ?case
  proof (cases "shares held conc r")
    case True
    let ?t1 = "t\<lparr>treeState := HELD held (n + 1) conc\<rparr>"
    have step: "snd (lock t r) = ?t1"
      using Cons.prems True by (simp add: lock_def)
    have "lockAll t (r # rs) = lockAll ?t1 rs"
      by (simp add: lockAll_def step)
    also have "\<dots> = ?t1\<lparr>treeState := HELD held (n + 1 + length (filter (shares held conc) rs)) conc,
                         waiters := waiters ?t1 @ filter (\<lambda>r. \<not> shares held conc r) rs\<rparr>"
      by (rule Cons.IH) simp
    finally show ?thesis using True by simp
  next
    case False
    let ?t1 = "t\<lparr>waiters := waiters t @ [r]\<rparr>"
    have step: "snd (lock t r) = ?t1"
      using Cons.prems False by (simp add: lock_def)
    have "lockAll t (r # rs) = lockAll ?t1 rs"
      by (simp add: lockAll_def step)
    also have "\<dots> = ?t1\<lparr>treeState := HELD held (n + length (filter (shares held conc) rs)) conc,
                         waiters := waiters ?t1 @ filter (\<lambda>r. \<not> shares held conc r) rs\<rparr>"
      by (rule Cons.IH) (simp add: Cons.prems)
    finally show ?thesis using False by simp
  qed
qed

text \<open>
  C5 (as amended). On a tree root held at a revision by \<open>n\<close> holders, a lock request for
  the same revision is granted shared access, provided the holder and the request both
  permit concurrent access; every other request waits. After any sequence of lock
  requests the tree is held at the same revision by \<open>n\<close> holders plus the requests that
  share it, the others wait in the order of their arrival, and no checkout has run. When
  the last holder releases, the first waiter runs the checkout, whatever its revision,
  and the waiters behind it that can share its tree do so without a further checkout.
\<close>

theorem working_tree_lock_sharing:
  assumes held: "treeState t = HELD held n conc"
  shows "fst (lock t r) = (if shares held conc r then Granted else Blocked) \<and>
         lockAll t rs =
           t\<lparr>treeState := HELD held (n + length (filter (shares held conc) rs)) conc,
             waiters := waiters t @ filter (\<lambda>r. \<not> shares held conc r) rs\<rparr> \<and>
         (n \<le> 1 \<and> waiters t = w # ws \<and> checkoutSucceeds w \<longrightarrow>
            release t =
              t\<lparr>treeState := HELD (desiredRevision w)
                    (1 + length (filter (shares (desiredRevision w) (concurrent w)) ws)) (concurrent w),
                waiters := filter (\<lambda>r. \<not> shares (desiredRevision w) (concurrent w) r) ws,
                checkouts := checkouts t + 1\<rparr>)"
proof (intro conjI impI)
  show "fst (lock t r) = (if shares held conc r then Granted else Blocked)"
    using held by (simp add: lock_def)
  show "lockAll t rs =
           t\<lparr>treeState := HELD held (n + length (filter (shares held conc) rs)) conc,
             waiters := waiters t @ filter (\<lambda>r. \<not> shares held conc r) rs\<rparr>"
    by (rule lockAll_held[OF held])
next
  assume a: "n \<le> 1 \<and> waiters t = w # ws \<and> checkoutSucceeds w"
  let ?idle = "t\<lparr>treeState := IDLE, waiters := []\<rparr>"
  let ?t1 = "?idle\<lparr>treeState := HELD (desiredRevision w) 1 (concurrent w),
                    checkouts := checkouts ?idle + 1\<rparr>"
  have first: "snd (lock ?idle w) = ?t1"
    using a by (simp add: lock_def)
  have "release t = lockAll ?idle (w # ws)"
    using held a by (simp add: release_def)
  also have "\<dots> = lockAll ?t1 ws"
    by (simp add: lockAll_def first)
  also have "\<dots> = ?t1\<lparr>treeState := HELD (desiredRevision w)
                           (1 + length (filter (shares (desiredRevision w) (concurrent w)) ws)) (concurrent w),
                        waiters := waiters ?t1 @ filter (\<lambda>r. \<not> shares (desiredRevision w) (concurrent w) r) ws\<rparr>"
    by (rule lockAll_held) simp
  finally show "release t =
              t\<lparr>treeState := HELD (desiredRevision w)
                    (1 + length (filter (shares (desiredRevision w) (concurrent w)) ws)) (concurrent w),
                waiters := filter (\<lambda>r. \<not> shares (desiredRevision w) (concurrent w) r) ws,
                checkouts := checkouts t + 1\<rparr>"
    by simp
qed

theorem working_tree_lock_sharing_witness:
  "fst (lock (heldTree True) (sameRevision True)) = Granted \<and>
   fst (lock (heldTree True) (sameRevision False)) = Blocked \<and>
   fst (lock (heldTree True) otherRevision) = Blocked \<and>
   lockAll (heldTree True) [sameRevision True, otherRevision, sameRevision True, otherRevision] =
     \<lparr>treeState = HELD ''abc123'' 3 True, waiters = [otherRevision, otherRevision], checkouts = 1\<rparr> \<and>
   release (\<lparr>treeState = HELD ''abc123'' 1 True,
             waiters = [otherRevision, sameRevision True, otherRevision], checkouts = 1\<rparr>) =
     \<lparr>treeState = HELD ''def456'' 2 True, waiters = [sameRevision True], checkouts = 2\<rparr>"
proof -
  have h: "treeState (heldTree True) = HELD ''abc123'' 1 True"
    by (simp add: heldTree_def)
  let ?t = "\<lparr>treeState = HELD ''abc123'' 1 True,
             waiters = [otherRevision, sameRevision True, otherRevision], checkouts = 1\<rparr>"
  have h2: "treeState ?t = HELD ''abc123'' 1 True" by simp
  note L = working_tree_lock_sharing[OF h, THEN conjunct1]
  note A = working_tree_lock_sharing[OF h, THEN conjunct2, THEN conjunct1]
  note R = working_tree_lock_sharing[where w = otherRevision and ws = "[sameRevision True, otherRevision]",
               OF h2, THEN conjunct2, THEN conjunct2, THEN mp]
  have a: "fst (lock (heldTree True) (sameRevision True)) = Granted"
    by (subst L) (simp add: shares_def sameRevision_def)
  have b: "fst (lock (heldTree True) (sameRevision False)) = Blocked"
    by (subst L) (simp add: shares_def sameRevision_def)
  have c: "fst (lock (heldTree True) otherRevision) = Blocked"
    by (subst L) (simp add: shares_def otherRevision_def)
  have d: "lockAll (heldTree True) [sameRevision True, otherRevision, sameRevision True, otherRevision] =
     \<lparr>treeState = HELD ''abc123'' 3 True, waiters = [otherRevision, otherRevision], checkouts = 1\<rparr>"
    by (subst A) (simp add: shares_def sameRevision_def otherRevision_def heldTree_def)
  have e: "release ?t =
     \<lparr>treeState = HELD ''def456'' 2 True, waiters = [sameRevision True], checkouts = 2\<rparr>"
    by (subst R) (simp_all add: shares_def sameRevision_def otherRevision_def)
  from a b c d e show ?thesis by (intro conjI)
qed

text \<open>
  C5 as stated fails when concurrent access is not permitted: a request for the revision
  that the tree holds waits, and after the release of the holder it runs the checkout
  function again although the revision is the same.
\<close>

theorem working_tree_lock_sharing_counterexample:
  "fst (lock (heldTree False) (sameRevision False)) = Blocked \<and>
   release (snd (lock (heldTree False) (sameRevision False))) =
     \<lparr>treeState = HELD ''abc123'' 1 False, waiters = [], checkouts = 2\<rparr>"
  by (simp add: lock_def lockAll_def release_def shares_def heldTree_def sameRevision_def)


end
